(* ===== verification/Prelude.thy ===== *)
theory Prelude
  imports Main "HOL-Library.List_Lexorder" "HOL-Library.Char_ord"
    "HOL-Library.Product_Lexorder"
begin

text \<open>
  Shared vocabulary of the development.

  \<^item> Types: identifiers, clock readings and the stream of random UUIDs a call draws.
  \<^item> SQLite tables as lists of rows, in rowid order: the statements the repositories prepare
    (select, update, delete, insert, count, order by) as list functions, with the lemmas on
    keys, changes and lookups that the components' proofs use.
  \<^item> The collections \<open>sql_simps\<close> (unfolding statements) and \<open>key_intros\<close> (key preservation).
\<close>

named_theorems sql_simps \<open>definitional equations of the SQL statements\<close>
named_theorems key_intros \<open>statements that keep the keys of a table distinct\<close>

section \<open>Identifiers, time, randomness\<close>

text \<open>
  Identifiers are only compared and ordered, never measured: \<^typ>\<open>string\<close> is enough.
  Timestamps are milliseconds since the epoch. The code stores \<^verbatim>\<open>Date.toISOString\<close> text and compares
  it as text; in the years 0 to 9999 that text has a fixed width and its order is the order of
  the numbers. \<open>uuid_stream\<close> is the sequence of values \<^verbatim>\<open>randomUUID()\<close> returns during a call.
\<close>

type_synonym ident = string
type_synonym iso_time = int
type_synonym uuid_stream = "nat \<Rightarrow> ident"

definition uuid_shift :: "nat \<Rightarrow> uuid_stream \<Rightarrow> uuid_stream" where
  "uuid_shift n u = (\<lambda>i. u (n + i))"

lemma uuid_shift_apply [simp]: "uuid_shift n u i = u (n + i)"
  by (simp add: uuid_shift_def)

text \<open>Whether a nullable text column or argument counts as true in a condition.\<close>

definition truthy_id :: "ident option \<Rightarrow> bool" where
  "truthy_id t \<longleftrightarrow> t \<noteq> None \<and> t \<noteq> Some []"

text \<open>
  A JavaScript number where the code asks \<^verbatim>\<open>Number.isInteger\<close>: an integer, or anything else
  (a fraction, an infinity, NaN).
\<close>

datatype js_number = JsInt int | JsNonInteger

definition is_js_int_ge :: "int \<Rightarrow> js_number \<Rightarrow> bool" where
  "is_js_int_ge m n = (case n of JsInt i \<Rightarrow> m \<le> i | JsNonInteger \<Rightarrow> False)"

lemma is_js_int_geD: "is_js_int_ge m n \<Longrightarrow> \<exists>i. n = JsInt i \<and> m \<le> i"
  by (cases n) (auto simp: is_js_int_ge_def)

section \<open>SQLite statements on tables\<close>

type_synonym 'r table = "'r list"

definition sql_select :: "('r \<Rightarrow> bool) \<Rightarrow> 'r table \<Rightarrow> 'r list" where
  "sql_select p t = filter p t"

definition sql_get :: "('r \<Rightarrow> bool) \<Rightarrow> 'r table \<Rightarrow> 'r option" where
  "sql_get p t = List.find p t"

definition sql_exists :: "('r \<Rightarrow> bool) \<Rightarrow> 'r table \<Rightarrow> bool" where
  "sql_exists p t = list_ex p t"

definition sql_count :: "('r \<Rightarrow> bool) \<Rightarrow> 'r table \<Rightarrow> nat" where
  "sql_count p t = length (filter p t)"

definition sql_update :: "('r \<Rightarrow> bool) \<Rightarrow> ('r \<Rightarrow> 'r) \<Rightarrow> 'r table \<Rightarrow> 'r table" where
  "sql_update p f t = map (\<lambda>r. if p r then f r else r) t"

definition sql_delete :: "('r \<Rightarrow> bool) \<Rightarrow> 'r table \<Rightarrow> 'r table" where
  "sql_delete p t = filter (\<lambda>r. \<not> p r) t"

definition sql_insert :: "'r \<Rightarrow> 'r table \<Rightarrow> 'r table" where
  "sql_insert r t = t @ [r]"

definition sql_order_by :: "('r \<Rightarrow> 'k::linorder) \<Rightarrow> 'r list \<Rightarrow> 'r list" where
  "sql_order_by k rs = sort_key k rs"

declare sql_select_def [sql_simps] sql_get_def [sql_simps] sql_exists_def [sql_simps]
  sql_count_def [sql_simps] sql_update_def [sql_simps] sql_delete_def [sql_simps]
  sql_insert_def [sql_simps] sql_order_by_def [sql_simps]

subsection \<open>Keys\<close>

definition unique_key :: "('r \<Rightarrow> 'k) \<Rightarrow> 'r table \<Rightarrow> bool" where
  "unique_key k t \<longleftrightarrow> distinct (map k t)"

lemma unique_key_Nil [simp]: "unique_key k []"
  by (simp add: unique_key_def)

lemma unique_key_Cons [simp]:
  "unique_key k (r # t) \<longleftrightarrow> k r \<notin> k ` set t \<and> unique_key k t"
  by (simp add: unique_key_def)

lemma unique_keyD:
  "unique_key k t \<Longrightarrow> r \<in> set t \<Longrightarrow> s \<in> set t \<Longrightarrow> k r = k s \<Longrightarrow> r = s"
  by (auto simp: unique_key_def distinct_map inj_on_def)

lemma map_sql_update:
  "(\<And>r. r \<in> set t \<Longrightarrow> p r \<Longrightarrow> k (f r) = k r) \<Longrightarrow> map k (sql_update p f t) = map k t"
  by (auto simp: sql_update_def)

lemma unique_key_update [key_intros]:
  "unique_key k t \<Longrightarrow> (\<And>r. k (f r) = k r) \<Longrightarrow> unique_key k (sql_update p f t)"
  by (simp add: unique_key_def map_sql_update)

lemma unique_key_delete [key_intros]: "unique_key k t \<Longrightarrow> unique_key k (sql_delete p t)"
  by (simp add: unique_key_def sql_delete_def distinct_map_filter)

lemma unique_key_insert [key_intros]:
  "unique_key k t \<Longrightarrow> k r \<notin> k ` set t \<Longrightarrow> unique_key k (sql_insert r t)"
  by (simp add: unique_key_def sql_insert_def)

lemma unique_key_insert_iff: "unique_key k (sql_insert r t) \<longleftrightarrow> unique_key k t \<and> (\<forall>x \<in> set t. k x \<noteq> k r)"
  by (simp add: unique_key_def sql_insert_def image_iff) (metis (no_types))

subsection \<open>Lookups\<close>

lemma set_sql_select [simp]: "set (sql_select p t) = {r \<in> set t. p r}"
  by (auto simp: sql_select_def)

lemma set_sql_delete [simp]: "set (sql_delete p t) = {r \<in> set t. \<not> p r}"
  by (auto simp: sql_delete_def)

lemma set_sql_insert [simp]: "set (sql_insert r t) = insert r (set t)"
  by (auto simp: sql_insert_def)

lemma set_sql_update: "set (sql_update p f t) = (\<lambda>r. if p r then f r else r) ` set t"
  by (simp add: sql_update_def)

lemma set_sql_order_by [simp]: "set (sql_order_by k rs) = set rs"
  by (simp add: sql_order_by_def)

lemma length_sql_update [simp]: "length (sql_update p f t) = length t"
  by (simp add: sql_update_def)

lemma sql_exists_iff [simp]: "sql_exists p t \<longleftrightarrow> (\<exists>r \<in> set t. p r)"
  by (auto simp: sql_exists_def list_ex_iff)

lemma sql_get_SomeD: "sql_get p t = Some r \<Longrightarrow> r \<in> set t \<and> p r"
  by (auto simp: sql_get_def find_Some_iff)

lemma sql_get_None_iff: "sql_get p t = None \<longleftrightarrow> (\<forall>r \<in> set t. \<not> p r)"
  by (auto simp: sql_get_def find_None_iff)

lemma sql_get_unique:
  assumes "unique_key k t" and "r \<in> set t"
  shows "sql_get (\<lambda>x. k x = k r) t = Some r"
proof (cases "sql_get (\<lambda>x. k x = k r) t")
  case None
  with assms(2) show ?thesis by (auto simp: sql_get_None_iff)
next
  case (Some x)
  then have "x \<in> set t" and "k x = k r" by (auto dest: sql_get_SomeD)
  with assms have "x = r" by (auto dest: unique_keyD)
  with Some show ?thesis by simp
qed

lemma sql_get_only:
  assumes "r \<in> set t" and "p r" and "\<And>x. x \<in> set t \<Longrightarrow> p x \<Longrightarrow> x = r"
  shows "sql_get p t = Some r"
proof (cases "sql_get p t")
  case None
  with assms show ?thesis unfolding sql_get_None_iff by blast
next
  case (Some x)
  with sql_get_SomeD [OF Some] assms(3) show ?thesis by simp
qed

lemma sql_get_key_iff:
  assumes "unique_key k t"
  shows "sql_get (\<lambda>r. k r = i) t = Some r \<longleftrightarrow> r \<in> set t \<and> k r = i"
  using assms sql_get_unique [OF assms] by (auto dest: sql_get_SomeD)

lemma sql_get_update_key:
  assumes "\<And>r. k (f r) = k r"
  shows "sql_get (\<lambda>r. k r = i) (sql_update p f t) =
    map_option (\<lambda>r. if p r then f r else r) (sql_get (\<lambda>r. k r = i) t)"
  by (induction t) (auto simp: sql_get_def sql_update_def assms)

lemma sql_get_delete_key:
  assumes "unique_key k t"
  shows "sql_get (\<lambda>r. k r = i) (sql_delete p t) =
    (case sql_get (\<lambda>r. k r = i) t of None \<Rightarrow> None | Some r \<Rightarrow> if p r then None else Some r)"
proof -
  have u: "unique_key k (sql_delete p t)" using assms by (rule unique_key_delete)
  show ?thesis
  proof (cases "sql_get (\<lambda>r. k r = i) t")
    case None
    then have "sql_get (\<lambda>r. k r = i) (sql_delete p t) = None" by (auto simp: sql_get_None_iff)
    with None show ?thesis by simp
  next
    case (Some r)
    then have r: "r \<in> set t" "k r = i" by (auto dest: sql_get_SomeD)
    show ?thesis
    proof (cases "p r")
      case True
      with r assms have "\<forall>x \<in> set (sql_delete p t). k x \<noteq> i" by (auto dest: unique_keyD)
      with Some True show ?thesis by (simp add: sql_get_None_iff)
    next
      case False
      with r u Some show ?thesis by (auto simp: sql_get_key_iff)
    qed
  qed
qed

lemma sql_get_insert:
  "sql_get p (sql_insert r t) =
    (case sql_get p t of None \<Rightarrow> if p r then Some r else None | Some x \<Rightarrow> Some x)"
  by (induction t) (auto simp: sql_get_def sql_insert_def)

lemma set_sql_update_parts:
  "set (sql_update p f t) = f ` {r \<in> set t. p r} \<union> {r \<in> set t. \<not> p r}"
  by (auto simp: set_sql_update)

lemma sql_update_key_hit:
  assumes "unique_key k t" and "x \<in> set t" and "k x = i" and "q x"
  shows "set (sql_update (\<lambda>r. k r = i \<and> q r) f t) = insert (f x) {r \<in> set t. k r \<noteq> i}"
proof -
  have "{r \<in> set t. k r = i \<and> q r} = {x}" and "{r \<in> set t. \<not> (k r = i \<and> q r)} = {r \<in> set t. k r \<noteq> i}"
    using assms unique_keyD [OF assms(1)] by blast+
  then show ?thesis by (simp add: set_sql_update_parts)
qed

lemma sql_delete_key_hit:
  assumes "unique_key k t" and "x \<in> set t" and "k x = i" and "q x"
  shows "set (sql_delete (\<lambda>r. k r = i \<and> q r) t) = {r \<in> set t. k r \<noteq> i}"
  using assms unique_keyD [OF assms(1)] unfolding set_sql_delete by blast

subsection \<open>Changes and counts\<close>

lemma sql_count_0_iff: "sql_count p t = 0 \<longleftrightarrow> (\<forall>r \<in> set t. \<not> p r)"
  by (auto simp: sql_count_def filter_empty_conv)

lemma sql_update_no_changes: "sql_count p t = 0 \<Longrightarrow> sql_update p f t = t"
  by (auto simp: sql_count_0_iff sql_update_def intro: map_idI)

lemma sql_count_key_le_1:
  "unique_key k t \<Longrightarrow> sql_count (\<lambda>r. k r = i \<and> p r) t \<le> 1"
proof (induction t)
  case Nil
  then show ?case by (simp add: sql_count_def)
next
  case (Cons r t)
  show ?case
  proof (cases "k r = i \<and> p r")
    case True
    with Cons.prems have "sql_count (\<lambda>r. k r = i \<and> p r) t = 0"
      by (auto simp: sql_count_0_iff image_iff)
    with True show ?thesis by (simp add: sql_count_def)
  next
    case False
    with Cons show ?thesis by (auto simp: sql_count_def)
  qed
qed

lemma sql_count_key_1_iff:
  assumes "unique_key k t"
  shows "sql_count (\<lambda>r. k r = i \<and> p r) t = 1 \<longleftrightarrow>
    (\<exists>r. sql_get (\<lambda>r. k r = i) t = Some r \<and> p r)"
proof -
  have "sql_count (\<lambda>r. k r = i \<and> p r) t = 1 \<longleftrightarrow> sql_count (\<lambda>r. k r = i \<and> p r) t \<noteq> 0"
    using sql_count_key_le_1 [OF assms, of i p] by linarith
  then show ?thesis
    using sql_get_key_iff [OF assms] by (auto simp: sql_count_0_iff)
qed

lemma sql_count_insert [simp]:
  "sql_count p (sql_insert r t) = sql_count p t + (if p r then 1 else 0)"
  by (simp add: sql_count_def sql_insert_def)

lemma sql_count_delete_le: "sql_count p (sql_delete q t) \<le> sql_count p t"
  by (induction t) (auto simp: sql_count_def sql_delete_def)

lemma sql_count_update_same:
  "(\<And>r. q r \<Longrightarrow> p (f r) = p r) \<Longrightarrow> sql_count p (sql_update q f t) = sql_count p t"
  by (induction t) (auto simp: sql_count_def sql_update_def)

lemma sql_count_update_le:
  "(\<And>r. q r \<Longrightarrow> p (f r) \<Longrightarrow> p r) \<Longrightarrow> sql_count p (sql_update q f t) \<le> sql_count p t"
  by (induction t) (auto simp: sql_count_def sql_update_def)

section \<open>Lists\<close>

text \<open>\<^verbatim>\<open>[...new Set(xs)]\<close>: a JavaScript set iterates in insertion order, so the first occurrence stays.\<close>

definition set_to_array :: "'a list \<Rightarrow> 'a list" where
  "set_to_array xs = rev (remdups (rev xs))"

lemma set_set_to_array [simp]: "set (set_to_array xs) = set xs"
  by (simp add: set_to_array_def)

lemma distinct_set_to_array [simp]: "distinct (set_to_array xs)"
  by (simp add: set_to_array_def)

lemma set_to_array_distinct: "distinct xs \<Longrightarrow> set_to_array xs = xs"
  by (simp add: set_to_array_def distinct_remdups_id)

lemma set_to_array_snoc:
  "set_to_array (xs @ [x]) = (if x \<in> set xs then set_to_array xs else set_to_array xs @ [x])"
  by (simp add: set_to_array_def)

lemma set_to_array_Nil_iff [simp]: "set_to_array xs = [] \<longleftrightarrow> xs = []"
  by (metis set_empty set_set_to_array)

lemma find_append:
  "List.find p (xs @ ys) = (case List.find p xs of None \<Rightarrow> List.find p ys | Some x \<Rightarrow> Some x)"
  by (induction xs) auto

section \<open>JavaScript maps\<close>

text \<open>A \<^verbatim>\<open>Map\<close> iterates in insertion order: an association list.\<close>

fun map_set :: "'k \<Rightarrow> 'v \<Rightarrow> ('k \<times> 'v) list \<Rightarrow> ('k \<times> 'v) list" where
  \<comment> \<open>\<^verbatim>\<open>Map.prototype.set\<close>: a known key keeps its place, a new one goes last\<close>
  "map_set k v [] = [(k, v)]"
| "map_set k v ((j, w) # m) = (if j = k then (k, v) # m else (j, w) # map_set k v m)"

definition map_delete :: "'k \<Rightarrow> ('k \<times> 'v) list \<Rightarrow> ('k \<times> 'v) list" where
  "map_delete k m = filter (\<lambda>(j, _). j \<noteq> k) m"

lemma map_of_map_set: "map_of (map_set k v m) j = (if j = k then Some v else map_of m j)"
  by (induction m) auto

lemma fst_set_map_set: "fst ` set (map_set k v m) = insert k (fst ` set m)"
  by (induction k v m rule: map_set.induct) (auto split: if_splits)

lemma keys_map_set: "distinct (map fst m) \<Longrightarrow> distinct (map fst (map_set k v m))"
  by (induction k v m rule: map_set.induct) (auto simp: fst_set_map_set)

lemma length_map_set: "length (map_set k v m) \<le> Suc (length m)"
  by (induction m) auto

lemma set_map_set: "set (map_set k v m) \<subseteq> insert (k, v) (set m)"
  by (induction m) (auto split: if_splits)

lemma map_of_map_delete: "map_of (map_delete k m) j = (if j = k then None else map_of m j)"
  by (induction m) (auto simp: map_delete_def)

lemma map_delete_subset: "set (map_delete k m) \<subseteq> set m" "length (map_delete k m) \<le> length m"
  by (auto simp: map_delete_def)

lemma distinct_map_delete: "distinct (map fst m) \<Longrightarrow> distinct (map fst (map_delete k m))"
  by (induction m) (auto simp: map_delete_def)

lemma map_set_Cons: "map_set k v m \<noteq> []"
  by (induction k v m rule: map_set.induct) auto

end
