(* ===== verification/Js_String.thy ===== *)
theory Js_String
  imports Prelude "HOL-Library.Word"
begin

text \<open>
  JavaScript strings whose content the code inspects: lists of UTF-16 code units, each a 16-bit
  word, so that \<^verbatim>\<open>length\<close>, \<^verbatim>\<open>slice\<close> and \<^verbatim>\<open>trim\<close> mean what they mean in the language, and
  \<^verbatim>\<open>new TextEncoder().encode(s).byteLength\<close> is computed from the code units (a lone surrogate
  is encoded as U+FFFD, three bytes).
\<close>

type_synonym code_unit = "16 word"
type_synonym js_string = "code_unit list"

definition lit :: "string \<Rightarrow> js_string" where
  "lit s = map (\<lambda>c. word_of_nat (of_char c)) s"

section \<open>White space and trim\<close>

text \<open>ECMAScript WhiteSpace and LineTerminator.\<close>

definition is_space :: "code_unit \<Rightarrow> bool" where
  "is_space c \<longleftrightarrow> (9 \<le> c \<and> c \<le> 13) \<or> c = 32 \<or> c = 0xA0 \<or> c = 0x1680
     \<or> (0x2000 \<le> c \<and> c \<le> 0x200A) \<or> c = 0x2028 \<or> c = 0x2029 \<or> c = 0x202F \<or> c = 0x205F
     \<or> c = 0x3000 \<or> c = 0xFEFF"

definition js_trim :: "js_string \<Rightarrow> js_string" where
  "js_trim s = rev (dropWhile is_space (rev (dropWhile is_space s)))"

definition js_slice :: "nat \<Rightarrow> js_string \<Rightarrow> js_string" where
  "js_slice n s = take n s"

lemma length_js_trim: "length (js_trim s) \<le> length s"
  by (metis js_trim_def length_dropWhile_le length_rev order_trans)

lemma js_trim_Nil_iff: "js_trim s = [] \<longleftrightarrow> (\<forall>c \<in> set s. is_space c)"
proof
  assume "js_trim s = []"
  then have all: "\<forall>c \<in> set (dropWhile is_space s). is_space c"
    by (auto simp: js_trim_def dropWhile_eq_Nil_conv)
  have "dropWhile is_space s = []"
  proof (rule ccontr)
    assume ne: "dropWhile is_space s \<noteq> []"
    then have "\<not> is_space (hd (dropWhile is_space s))" by (rule hd_dropWhile)
    with all ne show False by (metis hd_in_set)
  qed
  then show "\<forall>c \<in> set s. is_space c" by (simp add: dropWhile_eq_Nil_conv)
next
  assume "\<forall>c \<in> set s. is_space c"
  then show "js_trim s = []" by (auto simp: js_trim_def dest: set_dropWhileD)
qed

lemma js_trim_id:
  "s \<noteq> [] \<Longrightarrow> \<not> is_space (hd s) \<Longrightarrow> \<not> is_space (last s) \<Longrightarrow> js_trim s = s"
proof -
  assume ne: "s \<noteq> []" and "\<not> is_space (hd s)" and l: "\<not> is_space (last s)"
  then have "dropWhile is_space s = s" by (cases s) auto
  moreover have "dropWhile is_space (rev s) = rev s"
    using ne l by (cases "rev s") (auto simp: last_rev [symmetric] dest: arg_cong [where f = last])
  ultimately show ?thesis by (simp add: js_trim_def)
qed

lemma js_trim_ends:
  assumes "js_trim s \<noteq> []"
  shows "\<not> is_space (hd (js_trim s))" and "\<not> is_space (last (js_trim s))"
proof -
  let ?d = "dropWhile is_space s"
  let ?e = "dropWhile is_space (rev ?d)"
  have e: "?e \<noteq> []" using assms by (simp add: js_trim_def)
  then have "\<not> is_space (hd ?e)" by (rule hd_dropWhile)
  with e show "\<not> is_space (last (js_trim s))" by (simp add: js_trim_def last_rev)
  have d: "?d \<noteq> []" using e by (metis dropWhile.simps(1) rev.simps(1))
  have "rev ?d = takeWhile is_space (rev ?d) @ ?e" by simp
  then have "?d = rev ?e @ rev (takeWhile is_space (rev ?d))"
    by (metis rev_append rev_rev_ident)
  then have "hd ?d = hd (rev ?e)" using e by (metis hd_append2 rev_is_Nil_conv)
  with hd_dropWhile [OF d] show "\<not> is_space (hd (js_trim s))" by (simp add: js_trim_def)
qed

lemma js_trim_idem [simp]: "js_trim (js_trim s) = js_trim s"
  by (cases "js_trim s = []") (auto simp: js_trim_def [of "[]"] intro!: js_trim_id js_trim_ends)

section \<open>UTF-8 length\<close>

definition is_high_surrogate :: "code_unit \<Rightarrow> bool" where
  "is_high_surrogate c \<longleftrightarrow> 0xD800 \<le> c \<and> c \<le> 0xDBFF"

definition is_low_surrogate :: "code_unit \<Rightarrow> bool" where
  "is_low_surrogate c \<longleftrightarrow> 0xDC00 \<le> c \<and> c \<le> 0xDFFF"

definition unit_bytes :: "code_unit \<Rightarrow> nat" where
  "unit_bytes c = (if c < 0x80 then 1 else if c < 0x800 then 2 else 3)"

fun utf8_bytes :: "js_string \<Rightarrow> nat" where
  "utf8_bytes [] = 0"
| "utf8_bytes [c] = unit_bytes c"
| "utf8_bytes (c # d # s) =
     (if is_high_surrogate c \<and> is_low_surrogate d then 4 + utf8_bytes s
      else unit_bytes c + utf8_bytes (d # s))"

lemma unit_bytes_bounds: "1 \<le> unit_bytes c" "unit_bytes c \<le> 3"
  by (auto simp: unit_bytes_def)

lemma utf8_bytes_upper: "utf8_bytes s \<le> 3 * length s"
  by (induction s rule: utf8_bytes.induct)
     (auto intro: unit_bytes_bounds order_trans [OF add_mono [OF unit_bytes_bounds(2)]])

lemma utf8_bytes_lower: "length s \<le> utf8_bytes s"
proof (induction s rule: utf8_bytes.induct)
  case (3 c d s)
  then show ?case using unit_bytes_bounds(1) [of c] by auto
qed (use unit_bytes_bounds(1) in auto)

section \<open>Code points\<close>

text \<open>Code points, as a regular expression with the \<open>u\<close> flag reads them.\<close>

fun code_points :: "js_string \<Rightarrow> nat list" where
  "code_points [] = []"
| "code_points [c] = [unat c]"
| "code_points (c # d # s) =
     (if is_high_surrogate c \<and> is_low_surrogate d
      then (0x10000 + (unat c - 0xD800) * 0x400 + (unat d - 0xDC00)) # code_points s
      else unat c # code_points (d # s))"

lemma space_not_surrogate: "is_space c \<Longrightarrow> \<not> is_high_surrogate c \<and> \<not> is_low_surrogate c"
  by (auto simp: is_space_def is_high_surrogate_def is_low_surrogate_def word_le_nat_alt)

lemma unit_in_code_points:
  "c \<in> set s \<Longrightarrow> \<not> is_high_surrogate c \<Longrightarrow> \<not> is_low_surrogate c \<Longrightarrow> unat c \<in> set (code_points s)"
  by (induction s rule: code_points.induct) auto

text \<open>SQLite's \<^verbatim>\<open>lower()\<close> folds the 26 ASCII letters; text columns sort by their UTF-8 bytes, which is
  the order of the code points.\<close>

definition sqlite_lower :: "js_string \<Rightarrow> js_string" where
  "sqlite_lower s = map (\<lambda>c. if 65 \<le> c \<and> c \<le> 90 then c + 32 else c) s"

end
