(* ===== verification/Core_Domain.thy ===== *)
theory Core_Domain
  imports Js_String
begin

text \<open>
  The pure rules of \<^verbatim>\<open>packages/core/src/domain\<close>: the dispatch decision
  (\<^verbatim>\<open>dispatchPolicy.ts\<close>), standalone-file visibility (\<^verbatim>\<open>userFiles.ts\<close>), the origin of an
  utterance and its grouping key (\<^verbatim>\<open>utterances.ts\<close>), and the notepad's tags and expiry
  (\<^verbatim>\<open>notepad.ts\<close>).
\<close>

section \<open>Dispatch policy\<close>

datatype robot_mode = RM_auto | RM_mention | RM_off

record dispatch_decision_input =
  ddi_robotMode :: robot_mode
  ddi_hasRobotMention :: bool
  ddi_silent :: "bool option"
  ddi_attachmentsPending :: "bool option"

datatype dispatch_reason =
  R_dispatch | R_silent | R_attachmentsPending | R_robotModeOff | R_mentionRequired

record dispatch_decision =
  shouldDispatch :: bool
  deferRobot :: bool
  shouldStoreSilent :: bool
  reason :: dispatch_reason

definition js_Boolean :: "bool option \<Rightarrow> bool" where
  "js_Boolean b = (b = Some True)"

definition evaluateDispatchDecision :: "dispatch_decision_input \<Rightarrow> dispatch_decision" where
  "evaluateDispatchDecision input =
    (let silent = js_Boolean (ddi_silent input);
         defer = js_Boolean (ddi_attachmentsPending input) \<and> \<not> silent;
         dispatch = (\<not> silent \<and> \<not> defer \<and> ddi_robotMode input \<noteq> RM_off
           \<and> (ddi_robotMode input \<noteq> RM_mention \<or> ddi_hasRobotMention input));
         why = (if silent then R_silent
           else if defer then R_attachmentsPending
           else if ddi_robotMode input = RM_off then R_robotModeOff
           else if ddi_robotMode input = RM_mention \<and> \<not> ddi_hasRobotMention input
             then R_mentionRequired
           else R_dispatch)
     in \<lparr>shouldDispatch = dispatch, deferRobot = defer,
         shouldStoreSilent = silent \<or> defer, reason = why\<rparr>)"

lemma dispatch_decision_reason:
  "shouldDispatch (evaluateDispatchDecision i) \<longleftrightarrow> reason (evaluateDispatchDecision i) = R_dispatch"
  by (simp add: evaluateDispatchDecision_def Let_def)

lemma dispatch_decision_exclusive:
  "\<not> (shouldDispatch (evaluateDispatchDecision i) \<and> shouldStoreSilent (evaluateDispatchDecision i))"
  by (auto simp: evaluateDispatchDecision_def Let_def)

lemma dispatch_decision_defer:
  "deferRobot (evaluateDispatchDecision i) \<longleftrightarrow>
     reason (evaluateDispatchDecision i) = R_attachmentsPending"
  by (auto simp: evaluateDispatchDecision_def Let_def)

section \<open>Standalone files\<close>

datatype file_visibility = FV_private | FV_members | FV_public

definition canUseStandaloneFile ::
  "file_visibility \<Rightarrow> ident \<Rightarrow> ident option \<Rightarrow> ident option \<Rightarrow> ident option \<Rightarrow> bool" where
  "canUseStandaloneFile visibility owner viewer ownerTenant viewerTenant =
    (if viewer = Some owner then True
     else if visibility = FV_public then True
     else if visibility = FV_private \<or> viewer = None \<or> viewer = Some [] then False
     else ownerTenant = None \<or> ownerTenant = viewerTenant)"

section \<open>Utterance origins\<close>

datatype origin_kind = Origin_forum | Origin_external

record utterance_origin =
  uo_utteranceId :: ident
  uo_originKind :: origin_kind
  uo_channelKind :: string
  uo_topicId :: ident
  uo_postId :: ident
  uo_surfaceId :: "ident option"
  uo_externalEventId :: "string option"
  uo_scope :: "string option"
  uo_scopeKind :: "string option"

text \<open>
  \<^verbatim>\<open>encodeURIComponent\<close> on text given by its UTF-8 bytes: the unreserved marks and alphanumerics
  stay, every other byte becomes a percent sign and two upper-case hexadecimal digits.
\<close>

definition hex_digit :: "nat \<Rightarrow> char" where
  "hex_digit n = (if n < 10 then char_of (48 + n) else char_of (55 + n))"

definition uri_unreserved :: "char \<Rightarrow> bool" where
  "uri_unreserved c \<longleftrightarrow>
     (let n = of_char c :: nat in
      (65 \<le> n \<and> n \<le> 90) \<or> (97 \<le> n \<and> n \<le> 122) \<or> (48 \<le> n \<and> n \<le> 57))
     \<or> c \<in> set ''-_.!~*'' \<or> c = CHR 0x27 \<or> c = CHR ''('' \<or> c = CHR '')''"

definition uri_char :: "char \<Rightarrow> string" where
  "uri_char c = (if uri_unreserved c then [c]
     else [CHR 0x25, hex_digit (of_char c div 16), hex_digit (of_char c mod 16)])"

definition encodeURIComponent :: "string \<Rightarrow> string" where
  "encodeURIComponent s = concat (map uri_char s)"

fun join_colon :: "string list \<Rightarrow> string" where
  "join_colon [] = []"
| "join_colon [x] = x"
| "join_colon (x # y # ys) = x @ CHR 0x3A # join_colon (y # ys)"

definition or_empty :: "string option \<Rightarrow> string" where
  "or_empty s = (case s of None \<Rightarrow> [] | Some x \<Rightarrow> x)"

definition normalizedOriginKey :: "utterance_origin \<Rightarrow> string" where
  "normalizedOriginKey origin =
    (if uo_originKind origin = Origin_forum
     then ''forum:'' @ uo_channelKind origin @ '':'' @ uo_topicId origin
     else join_colon (map encodeURIComponent
       [''external'', uo_channelKind origin, or_empty (uo_surfaceId origin),
        or_empty (uo_scopeKind origin), or_empty (uo_scope origin), uo_topicId origin]))"

definition originMatchesSurface ::
  "utterance_origin option \<Rightarrow> string \<Rightarrow> ident \<Rightarrow> string \<Rightarrow> bool" where
  "originMatchesSurface origin channelKind surfaceId scope =
    (case origin of None \<Rightarrow> False
     | Some x \<Rightarrow> uo_channelKind x = channelKind \<and> uo_surfaceId x = Some surfaceId
         \<and> uo_scope x = Some scope)"

subsection \<open>The grouping key identifies the conversation\<close>

lemma hex_digit_not_colon: "n < 16 \<Longrightarrow> hex_digit n \<noteq> CHR 0x3A"
proof -
  assume "n < 16"
  then have "of_char (hex_digit n) \<noteq> (58::nat)"
    by (auto simp: hex_digit_def)
  then show ?thesis by auto
qed

lemma hex_digit_inj: "m < 16 \<Longrightarrow> n < 16 \<Longrightarrow> hex_digit m = hex_digit n \<Longrightarrow> m = n"
proof -
  assume "m < 16" "n < 16" "hex_digit m = hex_digit n"
  then have "of_char (hex_digit m) = (of_char (hex_digit n) :: nat)" by simp
  with \<open>m < 16\<close> \<open>n < 16\<close> show ?thesis
    by (auto simp: hex_digit_def split: if_splits)
qed

lemma of_char_less_256: "(of_char c :: nat) < 256"
  by (metis char_of_mod_256 mod_less_divisor of_char_of of_char_mod_256 zero_less_numeral)

lemma of_char_nibbles: "(of_char c :: nat) div 16 < 16" "(of_char c :: nat) mod 16 < 16"
  using of_char_less_256 [of c] by (auto intro: less_mult_imp_div_less)

lemma colon_reserved: "\<not> uri_unreserved CHR 0x3A" "\<not> uri_unreserved CHR 0x25"
  by (simp_all add: uri_unreserved_def)

lemma uri_char_no_colon: "CHR 0x3A \<notin> set (uri_char c)"
  using of_char_nibbles [of c] hex_digit_not_colon colon_reserved
  by (auto simp: uri_char_def dest!: sym [of "CHR 0x3A"])

lemma encodeURIComponent_no_colon: "CHR 0x3A \<notin> set (encodeURIComponent s)"
  using uri_char_no_colon by (auto simp: encodeURIComponent_def)

lemma uri_char_prefix_free:
  assumes "uri_char c @ s = uri_char d @ t"
  shows "c = d \<and> s = t"
proof (cases "uri_unreserved c"; cases "uri_unreserved d")
  assume "\<not> uri_unreserved c" "\<not> uri_unreserved d"
  with assms have "hex_digit (of_char c div 16) = hex_digit (of_char d div 16)"
    and "hex_digit (of_char c mod 16) = hex_digit (of_char d mod 16)" and "s = t"
    by (auto simp: uri_char_def)
  then have "(of_char c :: nat) div 16 = of_char d div 16"
    and "(of_char c :: nat) mod 16 = of_char d mod 16"
    by (auto intro: hex_digit_inj of_char_nibbles)
  then have "(of_char c :: nat) = of_char d" by (metis div_mult_mod_eq)
  with \<open>s = t\<close> show ?thesis by simp
qed (use assms colon_reserved in \<open>auto simp: uri_char_def\<close>)

lemma encodeURIComponent_inj: "encodeURIComponent s = encodeURIComponent t \<Longrightarrow> s = t"
proof (induction s arbitrary: t)
  case Nil
  then show ?case by (cases t) (auto simp: encodeURIComponent_def uri_char_def split: if_splits)
next
  case (Cons c s)
  then obtain d t' where t: "t = d # t'"
    by (cases t) (auto simp: encodeURIComponent_def uri_char_def split: if_splits)
  with Cons.prems have "uri_char c @ encodeURIComponent s = uri_char d @ encodeURIComponent t'"
    by (simp add: encodeURIComponent_def)
  with uri_char_prefix_free Cons.IH t show ?case by blast
qed

lemma split_at_colon:
  "CHR 0x3A \<notin> set x \<Longrightarrow> CHR 0x3A \<notin> set y \<Longrightarrow>
   x @ CHR 0x3A # s = y @ CHR 0x3A # t \<Longrightarrow> x = y \<and> s = t"
  by (induction x arbitrary: y; case_tac y) auto

lemma join_colon_inj:
  "length xs = length ys \<Longrightarrow> \<forall>x \<in> set xs \<union> set ys. CHR 0x3A \<notin> set x \<Longrightarrow>
   join_colon xs = join_colon ys \<Longrightarrow> xs = ys"
proof (induction xs ys rule: list_induct2)
  case (Cons x xs y ys)
  then show ?case
    by (cases xs; cases ys) (auto dest: split_at_colon)
qed simp

text \<open>
  C21. Two external utterances fall into the same dispatch group exactly when channel, surface,
  scope kind, scope and topic agree (a missing part reading as the empty text): no choice of
  identifiers makes two different conversations share a key.
\<close>

theorem external_origin_key_iff:
  assumes "uo_originKind a = Origin_external" and "uo_originKind b = Origin_external"
  shows "normalizedOriginKey a = normalizedOriginKey b \<longleftrightarrow>
    uo_channelKind a = uo_channelKind b
    \<and> or_empty (uo_surfaceId a) = or_empty (uo_surfaceId b)
    \<and> or_empty (uo_scopeKind a) = or_empty (uo_scopeKind b)
    \<and> or_empty (uo_scope a) = or_empty (uo_scope b)
    \<and> uo_topicId a = uo_topicId b"
proof
  let ?parts = "\<lambda>r. [''external'', uo_channelKind r, or_empty (uo_surfaceId r),
        or_empty (uo_scopeKind r), or_empty (uo_scope r), uo_topicId r]"
  assume "normalizedOriginKey a = normalizedOriginKey b"
  with assms have "join_colon (map encodeURIComponent (?parts a))
      = join_colon (map encodeURIComponent (?parts b))"
    by (simp add: normalizedOriginKey_def)
  then have "map encodeURIComponent (?parts a) = map encodeURIComponent (?parts b)"
    by (rule join_colon_inj [rotated 2]) (auto simp: encodeURIComponent_no_colon)
  then show "uo_channelKind a = uo_channelKind b
    \<and> or_empty (uo_surfaceId a) = or_empty (uo_surfaceId b)
    \<and> or_empty (uo_scopeKind a) = or_empty (uo_scopeKind b)
    \<and> or_empty (uo_scope a) = or_empty (uo_scope b)
    \<and> uo_topicId a = uo_topicId b"
    by (auto dest: encodeURIComponent_inj)
qed (use assms in \<open>auto simp: normalizedOriginKey_def\<close>)

definition demo_origin :: "string \<Rightarrow> utterance_origin" where
  "demo_origin scope = \<lparr>uo_utteranceId = ''u'', uo_originKind = Origin_external,
     uo_channelKind = ''chat'', uo_topicId = ''t'', uo_postId = ''p'', uo_surfaceId = Some ''s'',
     uo_externalEventId = None, uo_scope = Some scope, uo_scopeKind = None\<rparr>"

theorem external_origin_key_iff_witness:
  "uo_originKind (demo_origin ''a:b'') = Origin_external
   \<and> normalizedOriginKey (demo_origin ''a:b'') \<noteq> normalizedOriginKey (demo_origin ''a%3Ab'')"
proof -
  have k: "uo_originKind (demo_origin x) = Origin_external" for x by (simp add: demo_origin_def)
  show ?thesis
    using external_origin_key_iff [OF k [of "''a:b''"] k [of "''a%3Ab''"]] k
    by (simp add: demo_origin_def or_empty_def)
qed

end
