(* ===== verification/Notepad_Domain.thy ===== *)
theory Notepad_Domain
  imports Js_String
begin

text \<open>
  \<^verbatim>\<open>packages/core/src/domain/notepad.ts\<close>: limits, tag normalisation and expiry presets.
  The Unicode tables behind \<^verbatim>\<open>toLowerCase\<close> and \<^verbatim>\<open>\p{L}\p{N}\<close> are not code of the repository: they
  are the record \<open>unicode\<close>, a parameter of the definitions.
\<close>

datatype notepad_error =
    NotepadConflictError string
  | NotepadNotFoundError string
  | NotepadQuotaError string
  | NotepadValidationError string

record notepad_limits =
  np_titleCharacters :: nat
  np_bodyUtf8Bytes :: nat
  np_tagsPerEntry :: nat
  np_tagCharacters :: nat
  np_entriesPerIdentity :: nat

definition NOTEPAD_LIMITS :: notepad_limits where
  "NOTEPAD_LIMITS = \<lparr>np_titleCharacters = 255, np_bodyUtf8Bytes = 65536, np_tagsPerEntry = 20,
     np_tagCharacters = 40, np_entriesPerIdentity = 5000\<rparr>"

datatype expiration_preset =
  one_day | one_week | two_weeks | one_month | six_months | one_year | never

record notepad_draft_options =
  opt_tags :: "js_string list"
  opt_expiration :: expiration_preset

section \<open>Tags\<close>

record unicode =
  to_lower :: "js_string \<Rightarrow> js_string"
  letter_or_number :: "nat \<Rightarrow> bool"

fun collapse_spaces :: "bool \<Rightarrow> js_string \<Rightarrow> js_string" where
  \<comment> \<open>\<^verbatim>\<open>replace(/\s+/g, '-')\<close>; the flag says that the previous unit belongs to a run\<close>
  "collapse_spaces run [] = []"
| "collapse_spaces run (c # s) =
     (if is_space c then (if run then collapse_spaces True s else 45 # collapse_spaces True s)
      else c # collapse_spaces False s)"

definition drop_hash :: "js_string \<Rightarrow> js_string" where
  "drop_hash s = (case s of c # t \<Rightarrow> if c = 35 then t else s | [] \<Rightarrow> [])"

definition clean_tag :: "unicode \<Rightarrow> js_string \<Rightarrow> js_string" where
  "clean_tag U raw = to_lower U (collapse_spaces False (drop_hash (js_trim raw)))"

definition tag_point :: "unicode \<Rightarrow> nat \<Rightarrow> bool" where
  "tag_point U p \<longleftrightarrow> letter_or_number U p \<or> p = 95 \<or> p = 45"

definition valid_tag :: "unicode \<Rightarrow> js_string \<Rightarrow> bool" where
  "valid_tag U tag \<longleftrightarrow> length tag \<le> np_tagCharacters NOTEPAD_LIMITS
     \<and> tag \<noteq> [] \<and> list_all (tag_point U) (code_points tag)"

fun normalize_loop ::
  "unicode \<Rightarrow> js_string list \<Rightarrow> js_string list \<Rightarrow> notepad_error + js_string list" where
  "normalize_loop U [] normalized = Inr normalized"
| "normalize_loop U (raw # tags) normalized =
    (let tag = clean_tag U raw in
     if tag = [] \<or> tag \<in> set normalized then normalize_loop U tags normalized
     else if \<not> valid_tag U tag
     then Inl (NotepadValidationError
       ''Tags must be at most 40 letters, numbers, underscores, or hyphens'')
     else normalize_loop U tags (normalized @ [tag]))"

definition normalizeNotepadTags ::
  "unicode \<Rightarrow> js_string list \<Rightarrow> notepad_error + js_string list" where
  "normalizeNotepadTags U tags =
    (case normalize_loop U tags [] of
       Inl e \<Rightarrow> Inl e
     | Inr normalized \<Rightarrow>
         if length normalized > np_tagsPerEntry NOTEPAD_LIMITS
         then Inl (NotepadValidationError ''A note may have at most 20 tags'')
         else Inr normalized)"

section \<open>Expiry\<close>

definition preset_days :: "expiration_preset \<Rightarrow> int" where
  "preset_days p = (case p of one_day \<Rightarrow> 1 | one_week \<Rightarrow> 7 | two_weeks \<Rightarrow> 14 | one_month \<Rightarrow> 30
     | six_months \<Rightarrow> 180 | one_year \<Rightarrow> 365 | never \<Rightarrow> 0)"

definition notepadExpiresAt :: "expiration_preset \<Rightarrow> iso_time \<Rightarrow> iso_time option" where
  "notepadExpiresAt preset now =
    (if preset = never then None else Some (now + preset_days preset * 24 * 60 * 60 * 1000))"

lemma notepadExpiresAt_future: "notepadExpiresAt p now = Some t \<Longrightarrow> now < t"
  by (cases p) (auto simp: notepadExpiresAt_def preset_days_def)

section \<open>What normalisation returns\<close>

lemma normalize_loop_keeps:
  assumes "normalize_loop U tags acc = Inr out" and "distinct acc"
    and "\<forall>t \<in> set acc. valid_tag U t"
  shows "distinct out \<and> (\<forall>t \<in> set out. valid_tag U t) \<and> (\<exists>more. out = acc @ more)"
  using assms
proof (induction U tags acc rule: normalize_loop.induct)
  case (1 U acc)
  then show ?case by simp
next
  case (2 U raw tags acc)
  show ?case
  proof (cases "clean_tag U raw = [] \<or> clean_tag U raw \<in> set acc")
    case True
    with "2" show ?thesis by (simp add: Let_def)
  next
    case False
    with "2.prems"(1) have v: "valid_tag U (clean_tag U raw)"
      by (auto simp: Let_def split: if_splits)
    with False "2.prems" have "normalize_loop U tags (acc @ [clean_tag U raw]) = Inr out"
      by (auto simp: Let_def)
    then have "distinct out \<and> (\<forall>t \<in> set out. valid_tag U t)
        \<and> (\<exists>more. out = (acc @ [clean_tag U raw]) @ more)"
      using "2.IH"(2) [OF refl] False v "2.prems" by auto
    then show ?thesis by auto
  qed
qed

lemma normalizeNotepadTags_ok:
  assumes "normalizeNotepadTags U tags = Inr out"
  shows "distinct out" and "length out \<le> 20" and "\<forall>t \<in> set out. valid_tag U t"
proof -
  from assms have loop: "normalize_loop U tags [] = Inr out" and "length out \<le> 20"
    by (auto simp: normalizeNotepadTags_def NOTEPAD_LIMITS_def split: sum.splits if_splits)
  then show "length out \<le> 20" by simp
  from normalize_loop_keeps [OF loop] show "distinct out" "\<forall>t \<in> set out. valid_tag U t"
    by auto
qed

subsection \<open>Normalising a normalised list\<close>

text \<open>
  What idempotence needs of the Unicode tables: lower-casing lower-case text changes nothing,
  and neither white space nor the number sign is a letter or a number.
\<close>

definition unicode_laws :: "unicode \<Rightarrow> bool" where
  "unicode_laws U \<longleftrightarrow> (\<forall>s. to_lower U (to_lower U s) = to_lower U s)
     \<and> \<not> letter_or_number U 35 \<and> (\<forall>c. is_space c \<longrightarrow> \<not> letter_or_number U (unat c))"

lemma is_space_not_mark: "is_space c \<Longrightarrow> unat c \<noteq> 95 \<and> unat c \<noteq> 45"
  by (auto simp: is_space_def word_le_nat_alt)

lemma valid_tag_units:
  assumes "unicode_laws U" and "valid_tag U t" and "c \<in> set t"
  shows "\<not> is_space c" and "c \<noteq> 35"
proof -
  have pts: "\<And>p. p \<in> set (code_points t) \<Longrightarrow> tag_point U p"
    using assms(2) by (auto simp: valid_tag_def list_all_iff)
  show "\<not> is_space c"
  proof
    assume s: "is_space c"
    then have "unat c \<in> set (code_points t)"
      using assms(3) space_not_surrogate unit_in_code_points by blast
    with pts have "tag_point U (unat c)" by blast
    with s assms(1) is_space_not_mark show False
      by (auto simp: tag_point_def unicode_laws_def)
  qed
  show "c \<noteq> 35"
  proof
    assume [simp]: "c = 35"
    have "\<not> is_high_surrogate (35 :: code_unit) \<and> \<not> is_low_surrogate (35 :: code_unit)"
      by (simp add: is_high_surrogate_def is_low_surrogate_def)
    then have "unat (35 :: code_unit) \<in> set (code_points t)"
      using assms(3) unit_in_code_points by (metis \<open>c = 35\<close>)
    then have "tag_point U 35" using pts by simp
    with assms(1) show False by (auto simp: tag_point_def unicode_laws_def)
  qed
qed

lemma collapse_spaces_id: "\<forall>c \<in> set s. \<not> is_space c \<Longrightarrow> collapse_spaces run s = s"
  by (induction s arbitrary: run) auto

lemma clean_tag_id:
  assumes "unicode_laws U" and "valid_tag U t" and "to_lower U t = t"
  shows "clean_tag U t = t"
proof -
  have ne: "t \<noteq> []" using assms(2) by (simp add: valid_tag_def)
  have units: "\<forall>c \<in> set t. \<not> is_space c \<and> c \<noteq> 35"
    using assms valid_tag_units by blast
  then have "js_trim t = t" using ne by (intro js_trim_id) (auto simp: hd_in_set last_in_set)
  moreover have "drop_hash t = t" using units by (auto simp: drop_hash_def split: list.splits)
  moreover have "collapse_spaces False t = t" using units by (intro collapse_spaces_id) auto
  ultimately show ?thesis using assms(3) by (simp add: clean_tag_def)
qed

lemma normalize_loop_lower:
  assumes "normalize_loop U tags acc = Inr out" and "unicode_laws U"
    and "\<forall>t \<in> set acc. to_lower U t = t"
  shows "\<forall>t \<in> set out. to_lower U t = t"
  using assms
proof (induction U tags acc rule: normalize_loop.induct)
  case (1 U acc)
  then show ?case by simp
next
  case (2 U raw tags acc)
  have "to_lower U (clean_tag U raw) = clean_tag U raw"
    using "2.prems"(2) by (simp add: clean_tag_def unicode_laws_def)
  with "2" show ?case by (auto simp: Let_def split: if_splits)
qed

lemma normalize_loop_id:
  "unicode_laws U \<Longrightarrow> distinct (acc @ tags) \<Longrightarrow>
   \<forall>t \<in> set tags. valid_tag U t \<and> to_lower U t = t \<Longrightarrow>
   normalize_loop U tags acc = Inr (acc @ tags)"
proof (induction tags arbitrary: acc)
  case (Cons t tags)
  then have "clean_tag U t = t" and v: "valid_tag U t" by (auto intro: clean_tag_id)
  moreover have "t \<noteq> []" using v by (auto simp: valid_tag_def)
  moreover have "normalize_loop U tags (acc @ [t]) = Inr ((acc @ [t]) @ tags)"
    using Cons by (intro Cons.IH) auto
  ultimately show ?case using Cons.prems(2) by (auto simp: Let_def)
qed simp

text \<open>
  Tag normalisation is a projection: whatever it returns is a list of at most twenty distinct
  valid tags, and normalising that list again returns it unchanged, so saving a note or a draft
  twice never alters its tags.
\<close>

theorem normalize_tags_projection:
  assumes "unicode_laws U" and "normalizeNotepadTags U tags = Inr out"
  shows "distinct out \<and> length out \<le> 20 \<and> (\<forall>t \<in> set out. valid_tag U t)
    \<and> normalizeNotepadTags U out = Inr out"
proof -
  from assms(2) have loop: "normalize_loop U tags [] = Inr out"
    by (auto simp: normalizeNotepadTags_def split: sum.splits if_splits)
  note ok = normalizeNotepadTags_ok [OF assms(2)]
  have "normalize_loop U out [] = Inr ([] @ out)"
    using ok normalize_loop_lower [OF loop assms(1)] by (intro normalize_loop_id assms) auto
  with ok show ?thesis
    by (simp add: normalizeNotepadTags_def NOTEPAD_LIMITS_def)
qed

text \<open>A concrete table, ASCII only, for the witness.\<close>

definition ascii_unicode :: unicode where
  "ascii_unicode = \<lparr>to_lower = map (\<lambda>c. if 65 \<le> c \<and> c \<le> 90 then c + 32 else c),
     letter_or_number = (\<lambda>p. (48 \<le> p \<and> p \<le> 57) \<or> (65 \<le> p \<and> p \<le> 90) \<or> (97 \<le> p \<and> p \<le> 122))\<rparr>"

lemma ascii_lower_unit:
  "(65::code_unit) \<le> c \<Longrightarrow> c \<le> 90 \<Longrightarrow> \<not> c + 32 \<le> 90"
proof -
  assume "(65::code_unit) \<le> c" "c \<le> 90"
  then have "65 \<le> unat c" "unat c \<le> 90" by (auto simp: word_le_nat_alt)
  then have "unat (c + 32) = unat c + 32" by (simp add: unat_word_ariths)
  with \<open>65 \<le> unat c\<close> show ?thesis by (simp add: word_le_nat_alt)
qed

lemma ascii_unicode_laws: "unicode_laws ascii_unicode"
  unfolding unicode_laws_def
proof (intro conjI allI impI)
  fix s show "to_lower ascii_unicode (to_lower ascii_unicode s) = to_lower ascii_unicode s"
    using ascii_lower_unit by (auto simp: ascii_unicode_def)
next
  fix c assume "is_space c"
  then show "\<not> letter_or_number ascii_unicode (unat c)"
    by (auto simp: ascii_unicode_def is_space_def word_le_nat_alt)
qed (simp add: ascii_unicode_def)

theorem normalize_tags_projection_witness:
  "normalizeNotepadTags ascii_unicode [[32, 35, 65, 32, 32, 98], [97, 45, 98], [120]] =
     Inr [[97, 45, 98], [120]]
   \<and> normalizeNotepadTags ascii_unicode [[97, 45, 98], [120]] = Inr [[97, 45, 98], [120]]"
proof -
  have out: "normalizeNotepadTags ascii_unicode [[32, 35, 65, 32, 32, 98], [97, 45, 98], [120]] =
     Inr [[97, 45, 98], [120]]"
    by (simp add: normalizeNotepadTags_def clean_tag_def js_trim_def is_space_def drop_hash_def
      ascii_unicode_def valid_tag_def NOTEPAD_LIMITS_def tag_point_def is_high_surrogate_def)
  show ?thesis
    using normalize_tags_projection [OF ascii_unicode_laws out] out by blast
qed

end
