(* ===== verification/Revisioned.thy ===== *)
theory Revisioned
  imports Prelude
begin

text \<open>
  The optimistic-concurrency contract shared by the message templates and the notepad: a write
  or a delete names the revision its client has seen, succeeds only on that revision, and a
  write moves the entry to the next one. The locale states it once; the consequence used by the
  clients is that no update is ever lost, whatever other writers do in between.
\<close>

datatype ('w, 'd, 'k) rev_op = Rev_write 'w 'k int | Rev_delete 'd 'k int

fun rev_step :: "('w \<Rightarrow> 'k \<Rightarrow> int \<Rightarrow> 's \<Rightarrow> 's option) \<Rightarrow> ('d \<Rightarrow> 'k \<Rightarrow> int \<Rightarrow> 's \<Rightarrow> 's option) \<Rightarrow>
    ('w, 'd, 'k) rev_op \<Rightarrow> 's \<Rightarrow> 's" where
  "rev_step wr dl (Rev_write w k r) s = (case wr w k r s of None \<Rightarrow> s | Some s' \<Rightarrow> s')"
| "rev_step wr dl (Rev_delete d k r) s = (case dl d k r s of None \<Rightarrow> s | Some s' \<Rightarrow> s')"

text \<open>Any interleaving of clients: each operation is tried in turn, a refused one changes nothing.\<close>

fun rev_run :: "('w \<Rightarrow> 'k \<Rightarrow> int \<Rightarrow> 's \<Rightarrow> 's option) \<Rightarrow> ('d \<Rightarrow> 'k \<Rightarrow> int \<Rightarrow> 's \<Rightarrow> 's option) \<Rightarrow>
    ('w, 'd, 'k) rev_op list \<Rightarrow> 's \<Rightarrow> 's" where
  "rev_run wr dl [] s = s"
| "rev_run wr dl (x # xs) s = rev_run wr dl xs (rev_step wr dl x s)"

locale revisioned_store =
  fixes rev_of :: "'s \<Rightarrow> 'k \<Rightarrow> int option"
    and rev_write :: "'w \<Rightarrow> 'k \<Rightarrow> int \<Rightarrow> 's \<Rightarrow> 's option"
    and rev_delete :: "'d \<Rightarrow> 'k \<Rightarrow> int \<Rightarrow> 's \<Rightarrow> 's option"
    and rev_inv :: "'s \<Rightarrow> bool"
  assumes write_own: "rev_inv s \<Longrightarrow> rev_write w k r s = Some s' \<Longrightarrow>
      rev_of s k = Some r \<and> rev_of s' k = Some (r + 1)"
    and write_others: "rev_inv s \<Longrightarrow> rev_write w k r s = Some s' \<Longrightarrow> rev_of s' j = Some q \<Longrightarrow>
      \<exists>p. rev_of s j = Some p \<and> p \<le> q"
    and delete_own: "rev_inv s \<Longrightarrow> rev_delete d k r s = Some s' \<Longrightarrow> rev_of s k = Some r"
    and delete_others: "rev_inv s \<Longrightarrow> rev_delete d k r s = Some s' \<Longrightarrow> rev_of s' j = Some q \<Longrightarrow>
      j \<noteq> k \<and> rev_of s j = Some q"
    and write_inv: "rev_inv s \<Longrightarrow> rev_write w k r s = Some s' \<Longrightarrow> rev_inv s'"
    and delete_inv: "rev_inv s \<Longrightarrow> rev_delete d k r s = Some s' \<Longrightarrow> rev_inv s'"
begin

lemma step_inv: "rev_inv s \<Longrightarrow> rev_inv (rev_step rev_write rev_delete x s)"
  by (cases x) (auto split: option.splits intro: write_inv delete_inv)

lemma run_inv: "rev_inv s \<Longrightarrow> rev_inv (rev_run rev_write rev_delete xs s)"
  by (induction xs arbitrary: s) (auto intro: step_inv)

lemma step_mono:
  "rev_inv s \<Longrightarrow> rev_of (rev_step rev_write rev_delete x s) j = Some q \<Longrightarrow> \<exists>p. rev_of s j = Some p \<and> p \<le> q"
  by (cases x) (auto split: option.splits dest: write_others delete_others)

text \<open>Over any run an entry's revision only grows, and a deleted entry stays away.\<close>

lemma run_mono:
  "rev_inv s \<Longrightarrow> rev_of (rev_run rev_write rev_delete xs s) j = Some q \<Longrightarrow> \<exists>p. rev_of s j = Some p \<and> p \<le> q"
proof (induction xs arbitrary: s)
  case (Cons x xs)
  then obtain p where "rev_of (rev_step rev_write rev_delete x s) j = Some p" "p \<le> q"
    using step_inv by fastforce
  with Cons.prems(1) step_mono show ?case by (meson order_trans)
qed simp

lemma no_lost_update:
  assumes "rev_inv s" and "rev_write w k r s = Some s'"
  shows "rev_write v k r (rev_run rev_write rev_delete xs s') = None" and "rev_delete d k r (rev_run rev_write rev_delete xs s') = None"
proof -
  have inv: "rev_inv s'" and now: "rev_of s' k = Some (r + 1)"
    using assms write_inv write_own by blast+
  have stale: "rev_of (rev_run rev_write rev_delete xs s') k \<noteq> Some r"
    using run_mono [OF inv] now by fastforce
  show "rev_write v k r (rev_run rev_write rev_delete xs s') = None"
    using stale write_own run_inv [OF inv] by (metis not_None_eq)
  show "rev_delete d k r (rev_run rev_write rev_delete xs s') = None"
    using stale delete_own run_inv [OF inv] by (metis not_None_eq)
qed

lemma no_resurrection:
  assumes "rev_inv s" and "rev_delete d k r s = Some s'"
  shows "rev_write v k q (rev_run rev_write rev_delete xs s') = None"
proof -
  have inv: "rev_inv s'" using assms delete_inv by blast
  have "rev_of s' k = None" using assms delete_others by (metis not_None_eq)
  then have "rev_of (rev_run rev_write rev_delete xs s') k = None"
    using run_mono [OF inv] by (metis not_None_eq option.distinct(1))
  then show ?thesis using write_own run_inv [OF inv] by (metis not_None_eq option.distinct(1))
qed

end

end
