(* ===== verification/Message_Templates.thy ===== *)
theory Message_Templates
  imports Js_String Revisioned
begin

text \<open>
  Message templates: \<^verbatim>\<open>core/domain/messageTemplates.ts\<close>, the service
  \<^verbatim>\<open>core/application/messageTemplateService.ts\<close> and the repository
  \<^verbatim>\<open>server/repositories/sqliteMessageTemplateRepository.ts\<close>. The state is the three tables the
  repository owns plus the keys of the two tables its foreign keys point to. A thrown error is a
  left value and leaves no state, as the transaction rolls back.
\<close>

section \<open>Data\<close>

datatype template_context = TC_reply | TC_new_thread
datatype template_scope = TS_personal | TS_system
datatype template_forum_scope = TF_all | TF_selected

record template_row =
  tr_id :: ident
  tr_scope :: template_scope
  tr_owner :: "ident option"
  tr_name :: js_string
  tr_category :: "js_string option"
  tr_body :: js_string
  tr_thread_title :: "js_string option"
  tr_forum_scope :: template_forum_scope
  tr_enabled :: bool
  tr_sort_order :: int
  tr_revision :: int
  tr_created_by :: "ident option"
  tr_updated_by :: "ident option"
  tr_created_at :: iso_time
  tr_updated_at :: iso_time

text \<open>The domain object: the row and its two association lists.\<close>

record message_template =
  mt_row :: template_row
  mt_forumIds :: "ident list"
  mt_contexts :: "template_context list"

record template_write_input =
  tw_name :: js_string
  tw_category :: "js_string option"
  tw_body :: js_string
  tw_threadTitle :: "js_string option"
  tw_forumScope :: template_forum_scope
  tw_forumIds :: "ident list"
  tw_contexts :: "template_context list"
  tw_enabled :: bool

datatype template_error =
    MessageTemplateConflictError string
  | MessageTemplateNotFoundError string
  | MessageTemplateQuotaError nat
  | MessageTemplateValidationError string
  | TemplateSqliteConstraint

record template_limits =
  tl_nameCharacters :: nat
  tl_categoryCharacters :: nat
  tl_threadTitleCharacters :: nat
  tl_bodyUtf8Bytes :: nat
  tl_personalCount :: nat
  tl_systemCount :: nat

definition MESSAGE_TEMPLATE_LIMITS :: template_limits where
  "MESSAGE_TEMPLATE_LIMITS = \<lparr>tl_nameCharacters = 80, tl_categoryCharacters = 40,
     tl_threadTitleCharacters = 255, tl_bodyUtf8Bytes = 65536, tl_personalCount = 200,
     tl_systemCount = 500\<rparr>"

record template_db =
  td_templates :: "template_row table"
  td_contexts :: "(ident \<times> template_context) table"
  td_forums :: "(ident \<times> ident) table"
  td_identity_ids :: "ident list"
  td_forum_ids :: "ident list"

section \<open>Repository\<close>

definition in_scope :: "template_scope \<Rightarrow> ident option \<Rightarrow> template_row \<Rightarrow> bool" where
  \<comment> \<open>the \<^verbatim>\<open>where\<close> clause built from the scope\<close>
  "in_scope scope owner r \<longleftrightarrow>
     (case scope of TS_personal \<Rightarrow> tr_scope r = TS_personal \<and> tr_owner r = owner \<and> owner \<noteq> None
      | TS_system \<Rightarrow> tr_scope r = TS_system)"

definition context_rank :: "template_context \<Rightarrow> nat" where
  "context_rank c = (case c of TC_new_thread \<Rightarrow> 0 | TC_reply \<Rightarrow> 1)"

definition template_hydrate :: "template_db \<Rightarrow> template_row \<Rightarrow> message_template" where
  "template_hydrate db row =
    \<lparr>mt_row = row,
     mt_forumIds = sql_order_by (\<lambda>f. f)
       (map snd (sql_select (\<lambda>(i, _). i = tr_id row) (td_forums db))),
     mt_contexts = sql_order_by context_rank
       (map snd (sql_select (\<lambda>(i, _). i = tr_id row) (td_contexts db)))\<rparr>"

definition template_order :: "template_row \<Rightarrow> int \<times> nat list \<times> iso_time" where
  "template_order r = (tr_sort_order r, code_points (sqlite_lower (tr_name r)), tr_created_at r)"

definition template_readMany ::
  "template_db \<Rightarrow> (template_row \<Rightarrow> bool) \<Rightarrow> message_template list" where
  "template_readMany db p =
    map (template_hydrate db) (sql_order_by template_order (sql_select p (td_templates db)))"

definition template_listPersonal :: "template_db \<Rightarrow> ident \<Rightarrow> message_template list" where
  "template_listPersonal db owner = template_readMany db (in_scope TS_personal (Some owner))"

definition template_listSystem :: "template_db \<Rightarrow> message_template list" where
  "template_listSystem db = template_readMany db (in_scope TS_system None)"

definition scope_rank :: "template_scope \<Rightarrow> nat" where
  "scope_rank s = (case s of TS_personal \<Rightarrow> 0 | TS_system \<Rightarrow> 1)"

definition effective_row ::
  "template_db \<Rightarrow> ident \<Rightarrow> template_context \<Rightarrow> ident \<Rightarrow> bool \<Rightarrow> template_row \<Rightarrow> bool" where
  "effective_row db identity ctx forum includePersonal r \<longleftrightarrow>
     sql_exists (\<lambda>(i, c). i = tr_id r \<and> c = ctx) (td_contexts db)
     \<and> tr_enabled r
     \<and> (tr_scope r = TS_system
        \<or> (includePersonal \<and> tr_scope r = TS_personal \<and> tr_owner r = Some identity))
     \<and> (tr_forum_scope r = TF_all
        \<or> (tr_forum_scope r = TF_selected
           \<and> sql_exists (\<lambda>(i, f). i = tr_id r \<and> f = forum) (td_forums db)))"

definition template_listEffective ::
  "template_db \<Rightarrow> ident \<Rightarrow> template_context \<Rightarrow> ident \<Rightarrow> bool \<Rightarrow> message_template list" where
  "template_listEffective db identity ctx forum includePersonal =
    map (\<lambda>r. (template_hydrate db r)
        \<lparr>mt_forumIds := (if tr_forum_scope r = TF_selected then [forum] else [])\<rparr>)
      (sql_order_by (\<lambda>r. (scope_rank (tr_scope r), template_order r))
        (sql_select (effective_row db identity ctx forum includePersonal) (td_templates db)))"

definition template_get :: "template_db \<Rightarrow> ident \<Rightarrow> message_template option" where
  "template_get db i =
    map_option (template_hydrate db) (sql_get (\<lambda>r. tr_id r = i) (td_templates db))"

text \<open>
  Both association tables have a primary key over the pair and a foreign key to the template;
  the forum one also has a foreign key to the forum.
\<close>

definition replaceAssociations ::
  "ident \<Rightarrow> template_context list \<Rightarrow> ident list \<Rightarrow> template_db \<Rightarrow> template_error + template_db" where
  "replaceAssociations i ctxs forums db =
    (if \<not> distinct ctxs \<or> \<not> distinct forums \<or> \<not> set forums \<subseteq> set (td_forum_ids db)
     then Inl TemplateSqliteConstraint
     else Inr (db\<lparr>
       td_contexts := sql_delete (\<lambda>(j, _). j = i) (td_contexts db) @ map (Pair i) ctxs,
       td_forums := sql_delete (\<lambda>(j, _). j = i) (td_forums db) @ map (Pair i) forums\<rparr>))"

definition max_sort_order :: "template_row list \<Rightarrow> int" where
  \<comment> \<open>\<^verbatim>\<open>coalesce(max(sort_order), -1)\<close>\<close>
  "max_sort_order rs = (if rs = [] then -1 else Max (tr_sort_order ` set rs))"

definition template_row_ok :: "template_db \<Rightarrow> template_row \<Rightarrow> bool" where
  \<comment> \<open>the table's primary key, check constraint and foreign keys for a row about to be inserted\<close>
  "template_row_ok db r \<longleftrightarrow>
     \<not> sql_exists (\<lambda>x. tr_id x = tr_id r) (td_templates db)
     \<and> (tr_scope r = TS_personal \<longleftrightarrow> tr_owner r \<noteq> None)
     \<and> set_option (tr_owner r) \<union> set_option (tr_created_by r) \<union> set_option (tr_updated_by r)
         \<subseteq> set (td_identity_ids db)"

definition template_repo_create ::
  "message_template \<Rightarrow> nat \<Rightarrow> template_db \<Rightarrow> template_error + (message_template \<times> template_db)" where
  "template_repo_create input quota db =
    (let row = mt_row input;
         mine = sql_select (in_scope (tr_scope row) (tr_owner row)) (td_templates db)
     in if length mine \<ge> quota then Inl (MessageTemplateQuotaError quota)
        else let row' = row\<lparr>tr_sort_order := max_sort_order mine + 1\<rparr> in
          if \<not> template_row_ok db row' then Inl TemplateSqliteConstraint
          else case replaceAssociations (tr_id row') (mt_contexts input) (mt_forumIds input)
                 (db\<lparr>td_templates := sql_insert row' (td_templates db)\<rparr>) of
              Inl e \<Rightarrow> Inl e
            | Inr db' \<Rightarrow> (case template_get db' (tr_id row') of
                  None \<Rightarrow> Inl (MessageTemplateValidationError ''Failed to read created message template'')
                | Some t \<Rightarrow> Inr (t, db')))"

datatype 'a repo_result = Repo_ok 'a | Repo_missing | Repo_conflict | Repo_invalid

definition template_ownedRow ::
  "template_db \<Rightarrow> ident \<Rightarrow> template_scope \<Rightarrow> ident option \<Rightarrow> template_row option" where
  "template_ownedRow db i scope owner =
    sql_get (\<lambda>r. tr_id r = i \<and> in_scope scope owner r) (td_templates db)"

definition apply_write :: "template_write_input \<Rightarrow> ident \<Rightarrow> iso_time \<Rightarrow> template_row \<Rightarrow> template_row" where
  "apply_write v actor now r = r\<lparr>tr_name := tw_name v, tr_category := tw_category v,
     tr_body := tw_body v, tr_thread_title := tw_threadTitle v, tr_forum_scope := tw_forumScope v,
     tr_enabled := tw_enabled v, tr_revision := tr_revision r + 1, tr_updated_by := Some actor,
     tr_updated_at := now\<rparr>"

definition template_repo_update ::
  "iso_time \<Rightarrow> ident \<Rightarrow> template_scope \<Rightarrow> ident option \<Rightarrow> int \<Rightarrow> ident \<Rightarrow> template_write_input \<Rightarrow>
   template_db \<Rightarrow> template_error + (message_template repo_result \<times> template_db)" where
  "template_repo_update now i scope owner expectedRevision actor v db =
    (case template_ownedRow db i scope owner of
       None \<Rightarrow> Inr (Repo_missing, db)
     | Some _ \<Rightarrow>
        let hit = (\<lambda>r. tr_id r = i \<and> tr_revision r = expectedRevision);
            changes = sql_count hit (td_templates db)
        in if changes = 0 then Inr (Repo_conflict, db)
           else if actor \<notin> set (td_identity_ids db) then Inl TemplateSqliteConstraint
           else case replaceAssociations i (tw_contexts v) (tw_forumIds v)
              (db\<lparr>td_templates := sql_update hit (apply_write v actor now) (td_templates db)\<rparr>) of
                Inl e \<Rightarrow> Inl e
              | Inr db' \<Rightarrow> (case template_get db' i of
                    None \<Rightarrow> Inl (MessageTemplateValidationError ''Failed to read updated message template'')
                  | Some t \<Rightarrow> Inr (Repo_ok t, db')))"

text \<open>Deleting a template cascades to its associations.\<close>

definition template_repo_delete ::
  "ident \<Rightarrow> template_scope \<Rightarrow> ident option \<Rightarrow> int \<Rightarrow> template_db \<Rightarrow> unit repo_result \<times> template_db" where
  "template_repo_delete i scope owner expectedRevision db =
    (case template_ownedRow db i scope owner of
       None \<Rightarrow> (Repo_missing, db)
     | Some _ \<Rightarrow>
        let hit = (\<lambda>r. tr_id r = i \<and> tr_revision r = expectedRevision)
        in if sql_count hit (td_templates db) = 0 then (Repo_conflict, db)
           else (Repo_ok (), db\<lparr>td_templates := sql_delete hit (td_templates db),
             td_contexts := sql_delete (\<lambda>(j, _). j = i) (td_contexts db),
             td_forums := sql_delete (\<lambda>(j, _). j = i) (td_forums db)\<rparr>))"

definition reorder_row :: "nat \<Rightarrow> ident \<Rightarrow> iso_time \<Rightarrow> template_row \<Rightarrow> template_row" where
  "reorder_row index actor now r = r\<lparr>tr_sort_order := int index, tr_revision := tr_revision r + 1,
     tr_updated_by := Some actor, tr_updated_at := now\<rparr>"

fun reorder_updates ::
  "nat \<Rightarrow> (ident \<times> int) list \<Rightarrow> ident \<Rightarrow> iso_time \<Rightarrow> template_row table \<Rightarrow> template_row table" where
  "reorder_updates index [] actor now t = t"
| "reorder_updates index ((i, rv) # items) actor now t =
     reorder_updates (Suc index) items actor now
       (sql_update (\<lambda>r. tr_id r = i \<and> tr_revision r = rv) (reorder_row index actor now) t)"

fun reorder_check ::
  "(ident \<times> int) list \<Rightarrow> template_row list \<Rightarrow> unit repo_result" where
  "reorder_check [] rows = Repo_ok ()"
| "reorder_check ((i, rv) # items) rows =
     (case sql_get (\<lambda>r. tr_id r = i) rows of
        None \<Rightarrow> Repo_invalid
      | Some r \<Rightarrow> if tr_revision r \<noteq> rv then Repo_conflict else reorder_check items rows)"

definition template_repo_reorder ::
  "iso_time \<Rightarrow> template_scope \<Rightarrow> ident option \<Rightarrow> ident \<Rightarrow> (ident \<times> int) list \<Rightarrow> template_db \<Rightarrow>
   template_error + (message_template list repo_result \<times> template_db)" where
  "template_repo_reorder now scope owner actor items db =
    (let existing = sql_select (in_scope scope owner) (td_templates db) in
     if items = [] \<or> length items \<noteq> length existing
        \<or> list_ex (\<lambda>r. tr_id r \<notin> set (map fst items)) existing
     then Inr (Repo_invalid, db)
     else case reorder_check items existing of
         Repo_ok _ \<Rightarrow>
           if actor \<notin> set (td_identity_ids db) then Inl TemplateSqliteConstraint
           else let db' = db\<lparr>td_templates := reorder_updates 0 items actor now (td_templates db)\<rparr>
             in Inr (Repo_ok (template_readMany db' (in_scope scope owner)), db')
       | Repo_missing \<Rightarrow> Inr (Repo_missing, db)
       | Repo_conflict \<Rightarrow> Inr (Repo_conflict, db)
       | Repo_invalid \<Rightarrow> Inr (Repo_invalid, db))"

section \<open>Service\<close>

definition trimOptional :: "js_string option \<Rightarrow> js_string option" where
  "trimOptional v = (case v of None \<Rightarrow> None | Some s \<Rightarrow> if js_trim s = [] then None else Some (js_trim s))"

definition opt_length :: "js_string option \<Rightarrow> nat" where
  "opt_length s = (case s of None \<Rightarrow> 0 | Some x \<Rightarrow> length x)"

definition template_validate :: "template_write_input \<Rightarrow> template_error + template_write_input" where
  "template_validate input =
    (let name = js_trim (tw_name input);
         category = trimOptional (tw_category input);
         threadTitle = trimOptional (tw_threadTitle input);
         contexts = set_to_array (tw_contexts input);
         forumIds = set_to_array (tw_forumIds input);
         bad = (\<lambda>m. Inl (MessageTemplateValidationError m)) in
     if name = [] \<or> length name > tl_nameCharacters MESSAGE_TEMPLATE_LIMITS
     then bad ''Name must be 1-80 characters''
     else if opt_length category > tl_categoryCharacters MESSAGE_TEMPLATE_LIMITS
     then bad ''Category must be at most 40 characters''
     else if js_trim (tw_body input) = [] then bad ''Body is required''
     else if utf8_bytes (tw_body input) > tl_bodyUtf8Bytes MESSAGE_TEMPLATE_LIMITS
     then bad ''Body must be at most 64 KiB UTF-8''
     else if opt_length threadTitle > tl_threadTitleCharacters MESSAGE_TEMPLATE_LIMITS
     then bad ''Thread title must be at most 255 characters''
     else if contexts = [] then bad ''At least one valid context is required''
     else if tw_forumScope input = TF_selected \<and> forumIds = [] then bad ''Select at least one forum''
     else if tw_forumScope input = TF_all \<and> forumIds \<noteq> []
     then bad ''All-forum templates cannot include forum ids''
     else Inr \<lparr>tw_name = name, tw_category = category, tw_body = tw_body input,
       tw_threadTitle = threadTitle, tw_forumScope = tw_forumScope input, tw_forumIds = forumIds,
       tw_contexts = contexts, tw_enabled = tw_enabled input\<rparr>)"

definition template_create ::
  "iso_time \<Rightarrow> ident \<Rightarrow> template_scope \<Rightarrow> ident option \<Rightarrow> ident \<Rightarrow> template_write_input \<Rightarrow> nat \<Rightarrow>
   template_db \<Rightarrow> template_error + (message_template \<times> template_db)" where
  "template_create now new_id scope owner actor input quota db =
    (case template_validate input of Inl e \<Rightarrow> Inl e
     | Inr v \<Rightarrow> template_repo_create
         \<lparr>mt_row = \<lparr>tr_id = new_id, tr_scope = scope, tr_owner = owner, tr_name = tw_name v,
            tr_category = tw_category v, tr_body = tw_body v, tr_thread_title = tw_threadTitle v,
            tr_forum_scope = tw_forumScope v, tr_enabled = tw_enabled v, tr_sort_order = 0,
            tr_revision = 1, tr_created_by = Some actor, tr_updated_by = Some actor,
            tr_created_at = now, tr_updated_at = now\<rparr>,
          mt_forumIds = tw_forumIds v, mt_contexts = tw_contexts v\<rparr> quota db)"

definition template_unwrap ::
  "template_error + ('a repo_result \<times> template_db) \<Rightarrow> template_error + ('a \<times> template_db)" where
  \<comment> \<open>the service's translation of the repository's outcomes into thrown errors\<close>
  "template_unwrap x = (case x of Inl e \<Rightarrow> Inl e
     | Inr (Repo_ok a, db) \<Rightarrow> Inr (a, db)
     | Inr (Repo_missing, db) \<Rightarrow> Inl (MessageTemplateNotFoundError ''Message template not found'')
     | Inr (Repo_conflict, db) \<Rightarrow>
         Inl (MessageTemplateConflictError ''Message template changed in another session'')
     | Inr (Repo_invalid, db) \<Rightarrow> Inl (MessageTemplateValidationError
         ''Reorder must include every message template exactly once''))"

definition template_update ::
  "iso_time \<Rightarrow> template_scope \<Rightarrow> ident option \<Rightarrow> ident \<Rightarrow> ident \<Rightarrow> js_number \<Rightarrow> template_write_input \<Rightarrow>
   template_db \<Rightarrow> template_error + (message_template \<times> template_db)" where
  "template_update now scope owner actor i revision input db =
    (case revision of
       JsInt r \<Rightarrow> if r < 1 then Inl (MessageTemplateValidationError ''Invalid revision'')
         else (case template_validate input of Inl e \<Rightarrow> Inl e
           | Inr v \<Rightarrow> template_unwrap (template_repo_update now i scope owner r actor v db))
     | JsNonInteger \<Rightarrow> Inl (MessageTemplateValidationError ''Invalid revision''))"

definition template_delete ::
  "template_scope \<Rightarrow> ident option \<Rightarrow> ident \<Rightarrow> js_number \<Rightarrow> template_db \<Rightarrow>
   template_error + (unit \<times> template_db)" where
  "template_delete scope owner i revision db =
    (case revision of
       JsInt r \<Rightarrow> if r < 1 then Inl (MessageTemplateValidationError ''Invalid revision'')
         else template_unwrap (Inr (template_repo_delete i scope owner r db))
     | JsNonInteger \<Rightarrow> Inl (MessageTemplateValidationError ''Invalid revision''))"

fun reorder_items :: "(ident \<times> js_number) list \<Rightarrow> (ident \<times> int) list option" where
  \<comment> \<open>\<^verbatim>\<open>validateRevision\<close> on every item\<close>
  "reorder_items [] = Some []"
| "reorder_items ((i, n) # items) =
     (case n of JsNonInteger \<Rightarrow> None
      | JsInt r \<Rightarrow> if r < 1 then None else map_option (Cons (i, r)) (reorder_items items))"

definition template_reorder ::
  "iso_time \<Rightarrow> template_scope \<Rightarrow> ident option \<Rightarrow> ident \<Rightarrow> (ident \<times> js_number) list \<Rightarrow>
   template_db \<Rightarrow> template_error + (message_template list \<times> template_db)" where
  "template_reorder now scope owner actor items db =
    (if card (set (map fst items)) \<noteq> length items
     then Inl (MessageTemplateValidationError ''Duplicate template id'')
     else case reorder_items items of
         None \<Rightarrow> Inl (MessageTemplateValidationError ''Invalid revision'')
       | Some its \<Rightarrow> template_unwrap (template_repo_reorder now scope owner actor its db))"

definition createPersonal where
  "createPersonal now new_id owner input db =
    template_create now new_id TS_personal (Some owner) owner input
      (tl_personalCount MESSAGE_TEMPLATE_LIMITS) db"

definition createSystem where
  "createSystem now new_id actor input db =
    template_create now new_id TS_system None actor input
      (tl_systemCount MESSAGE_TEMPLATE_LIMITS) db"

definition updatePersonal where
  "updatePersonal now owner i revision input db =
    template_update now TS_personal (Some owner) owner i revision input db"

definition updateSystem where
  "updateSystem now actor i revision input db =
    template_update now TS_system None actor i revision input db"

definition deletePersonal where
  "deletePersonal owner i revision db = template_delete TS_personal (Some owner) i revision db"

definition deleteSystem where
  "deleteSystem i revision db = template_delete TS_system None i revision db"

definition reorderPersonal where
  "reorderPersonal now owner items db = template_reorder now TS_personal (Some owner) owner items db"

definition reorderSystem where
  "reorderSystem now actor items db = template_reorder now TS_system None actor items db"

end
