(* ===== verification/Template_Laws.thy ===== *)
theory Template_Laws
  imports Message_Templates
begin

text \<open>
  What the message-template operations guarantee: the well-formedness of the tables and the
  quotas, the optimistic-concurrency contract (an interpretation of \<open>revisioned_store\<close>), the
  effect of a reorder, the isolation of owners, and the contents of the effective list.
\<close>

section \<open>Invariant\<close>

definition template_assoc_ok :: "template_db \<Rightarrow> template_row \<Rightarrow> bool" where
  "template_assoc_ok db r \<longleftrightarrow> (\<exists>c. (tr_id r, c) \<in> set (td_contexts db))
     \<and> (tr_forum_scope r = TF_selected \<longleftrightarrow> (\<exists>f. (tr_id r, f) \<in> set (td_forums db)))"

definition template_keys :: "template_db \<Rightarrow> bool" where
  "template_keys db \<longleftrightarrow> unique_key tr_id (td_templates db)
     \<and> fst ` set (td_contexts db) \<subseteq> tr_id ` set (td_templates db)
     \<and> fst ` set (td_forums db) \<subseteq> tr_id ` set (td_templates db)
     \<and> distinct (td_contexts db) \<and> distinct (td_forums db)"

definition template_rows_ok :: "template_db \<Rightarrow> bool" where
  "template_rows_ok db \<longleftrightarrow> (\<forall>r \<in> set (td_templates db). template_assoc_ok db r
     \<and> (tr_scope r = TS_personal \<longleftrightarrow> tr_owner r \<noteq> None) \<and> 1 \<le> tr_revision r)"

definition template_quotas :: "template_db \<Rightarrow> bool" where
  "template_quotas db \<longleftrightarrow>
     (\<forall>owner. sql_count (in_scope TS_personal (Some owner)) (td_templates db) \<le> 200)
     \<and> sql_count (in_scope TS_system None) (td_templates db) \<le> 500"

definition template_inv :: "template_db \<Rightarrow> bool" where
  "template_inv db \<longleftrightarrow> template_keys db \<and> template_rows_ok db \<and> template_quotas db"

lemmas template_inv_defs = template_inv_def template_keys_def template_rows_ok_def
  template_quotas_def

subsection \<open>Building blocks\<close>

lemma replaceAssociations_Inr:
  "replaceAssociations i cs fs db = Inr db' \<longleftrightarrow>
     distinct cs \<and> distinct fs \<and> set fs \<subseteq> set (td_forum_ids db)
     \<and> db' = db\<lparr>td_contexts := sql_delete (\<lambda>(j, _). j = i) (td_contexts db) @ map (Pair i) cs,
        td_forums := sql_delete (\<lambda>(j, _). j = i) (td_forums db) @ map (Pair i) fs\<rparr>"
  by (auto simp: replaceAssociations_def)

lemma template_validate_Inr:
  assumes "template_validate input = Inr v"
  shows "tw_contexts v \<noteq> [] \<and> distinct (tw_contexts v) \<and> distinct (tw_forumIds v)
    \<and> (tw_forumScope v = TF_selected \<longleftrightarrow> tw_forumIds v \<noteq> [])
    \<and> tw_name v \<noteq> [] \<and> length (tw_name v) \<le> 80 \<and> utf8_bytes (tw_body v) \<le> 65536"
  using assms
  by (cases "tw_forumScope input")
     (auto simp: template_validate_def Let_def MESSAGE_TEMPLATE_LIMITS_def split: if_splits)

lemma in_scope_apply_write [simp]: "in_scope s ow (apply_write v a n r) = in_scope s ow r"
  by (auto simp: in_scope_def apply_write_def split: template_scope.splits)

lemma in_scope_reorder_row [simp]: "in_scope s ow (reorder_row k a n r) = in_scope s ow r"
  by (auto simp: in_scope_def reorder_row_def split: template_scope.splits)

lemma apply_write_fields [simp]:
  "tr_id (apply_write v a n r) = tr_id r" "tr_scope (apply_write v a n r) = tr_scope r"
  "tr_owner (apply_write v a n r) = tr_owner r"
  "tr_revision (apply_write v a n r) = tr_revision r + 1"
  "tr_forum_scope (apply_write v a n r) = tw_forumScope v"
  by (simp_all add: apply_write_def)

lemma reorder_row_fields [simp]:
  "tr_id (reorder_row k a n r) = tr_id r" "tr_scope (reorder_row k a n r) = tr_scope r"
  "tr_owner (reorder_row k a n r) = tr_owner r"
  "tr_revision (reorder_row k a n r) = tr_revision r + 1"
  "tr_forum_scope (reorder_row k a n r) = tr_forum_scope r"
  "tr_sort_order (reorder_row k a n r) = int k"
  by (simp_all add: reorder_row_def)

lemma distinct_map_Pair [simp]: "distinct (map (Pair i) xs) \<longleftrightarrow> distinct xs"
  by (simp add: distinct_map inj_on_def)

lemma distinct_sql_delete: "distinct t \<Longrightarrow> distinct (sql_delete p t)"
  by (simp add: sql_delete_def)

lemma distinct_replaced:
  "distinct t \<Longrightarrow> distinct xs \<Longrightarrow> distinct (sql_delete (\<lambda>(j, _). j = i) t @ map (Pair i) xs)"
  by (auto simp: distinct_sql_delete)

lemma in_replaced:
  "(j, x) \<in> set (sql_delete (\<lambda>(j, _). j = i) t @ map (Pair i) xs) \<longleftrightarrow>
     (if j = i then x \<in> set xs else (j, x) \<in> set t)"
  by auto

lemma fst_replaced_subset:
  "fst ` set t \<subseteq> K \<Longrightarrow> i \<in> K \<Longrightarrow>
   fst ` set (sql_delete (\<lambda>(j, _). j = i) t @ map (Pair i) xs) \<subseteq> K"
  by auto

lemma fst_deleted_subset:
  assumes "fst ` set t \<subseteq> k ` K"
  shows "fst ` set (sql_delete (\<lambda>(j, _). j = i) t) \<subseteq> k ` {x \<in> K. k x \<noteq> i}"
proof
  fix j assume "j \<in> fst ` set (sql_delete (\<lambda>(j, _). j = i) t)"
  then have "j \<in> fst ` set t" and "j \<noteq> i" by auto
  with assms show "j \<in> k ` {x \<in> K. k x \<noteq> i}" by blast
qed

lemma template_assoc_replaced:
  assumes "replaceAssociations i cs fs db = Inr db'"
  shows "template_assoc_ok db' r \<longleftrightarrow>
    (if tr_id r = i then cs \<noteq> [] \<and> (tr_forum_scope r = TF_selected \<longleftrightarrow> fs \<noteq> [])
     else template_assoc_ok db r)"
proof -
  have "set cs \<noteq> {} \<longleftrightarrow> cs \<noteq> []" and "set fs \<noteq> {} \<longleftrightarrow> fs \<noteq> []" by simp_all
  with assms show ?thesis
    by (auto simp: template_assoc_ok_def replaceAssociations_Inr in_replaced simp del: set_append
      dest: sym [of "[]"] intro: list.set_sel(1))
qed

subsection \<open>Creation\<close>

lemma template_repo_create_Inr:
  assumes "template_repo_create input quota db = Inr (t, db')"
  obtains row n where
    "row = (mt_row input)\<lparr>tr_sort_order := n\<rparr>"
    "sql_count (in_scope (tr_scope row) (tr_owner row)) (td_templates db) < quota"
    "template_row_ok db row"
    "replaceAssociations (tr_id row) (mt_contexts input) (mt_forumIds input)
       (db\<lparr>td_templates := sql_insert row (td_templates db)\<rparr>) = Inr db'"
    "template_get db' (tr_id row) = Some t"
  using assms
  by (auto simp: template_repo_create_def Let_def sql_count_def sql_select_def
      split: if_splits sum.splits option.splits)

lemma create_keys:
  assumes "template_keys db" and "template_row_ok db row"
    and "replaceAssociations (tr_id row) cs fs
       (db\<lparr>td_templates := sql_insert row (td_templates db)\<rparr>) = Inr db'"
  shows "template_keys db'"
proof -
  have new: "tr_id row \<notin> tr_id ` set (td_templates db)"
    using assms(2) by (auto simp: template_row_ok_def)
  then have "unique_key tr_id (sql_insert row (td_templates db))"
    using assms(1) by (auto simp: template_keys_def intro: unique_key_insert)
  then show ?thesis
    using assms(1,3)
    by (auto simp: template_keys_def replaceAssociations_Inr distinct_sql_delete)
qed

lemma create_rows_ok:
  assumes "template_keys db" and "template_rows_ok db" and "template_row_ok db row"
    and rep: "replaceAssociations (tr_id row) cs fs
       (db\<lparr>td_templates := sql_insert row (td_templates db)\<rparr>) = Inr db'"
    and "cs \<noteq> []" and "tr_forum_scope row = TF_selected \<longleftrightarrow> fs \<noteq> []" and "tr_revision row = 1"
  shows "template_rows_ok db'"
proof -
  have rows: "set (td_templates db') = insert row (set (td_templates db))"
    using rep by (auto simp: replaceAssociations_Inr)
  have old: "tr_id r \<noteq> tr_id row" if "r \<in> set (td_templates db)" for r
    using that assms(3) by (auto simp: template_row_ok_def)
  have keep: "template_assoc_ok (db\<lparr>td_templates := x\<rparr>) r = template_assoc_ok db r" for x r
    by (simp add: template_assoc_ok_def)
  have "tr_scope row = TS_personal \<longleftrightarrow> tr_owner row \<noteq> None"
    using assms(3) by (auto simp: template_row_ok_def)
  with assms old show ?thesis
    by (auto simp: template_rows_ok_def rows template_assoc_replaced [OF rep] keep)
qed

lemma create_quotas:
  assumes "template_quotas db" and "td_templates db' = sql_insert row (td_templates db)"
    and "sql_count (in_scope (tr_scope row) (tr_owner row)) (td_templates db) <
      (case tr_scope row of TS_personal \<Rightarrow> 200 | TS_system \<Rightarrow> 500)"
    and "tr_scope row = TS_personal \<longleftrightarrow> tr_owner row \<noteq> None"
  shows "template_quotas db'"
proof (cases "tr_scope row")
  case TS_personal
  then obtain ow where "tr_owner row = Some ow" using assms(4) by auto
  with TS_personal assms(1-3) show ?thesis
    by (auto simp: template_quotas_def in_scope_def)
next
  case TS_system
  then have "in_scope TS_system (tr_owner row) = in_scope TS_system None"
    by (auto simp: in_scope_def fun_eq_iff)
  with TS_system assms(1-3) show ?thesis
    by (auto simp: template_quotas_def in_scope_def)
qed

lemma template_create_inv:
  assumes "template_inv db" and "template_create now i scope owner actor input quota db = Inr (t, db')"
    and quota: "quota = (case scope of TS_personal \<Rightarrow> 200 | TS_system \<Rightarrow> 500)"
  shows "template_inv db'"
proof -
  from assms(2) obtain v where v: "template_validate input = Inr v"
    by (auto simp: template_create_def split: sum.splits)
  let ?row0 = "\<lparr>tr_id = i, tr_scope = scope, tr_owner = owner, tr_name = tw_name v,
            tr_category = tw_category v, tr_body = tw_body v, tr_thread_title = tw_threadTitle v,
            tr_forum_scope = tw_forumScope v, tr_enabled = tw_enabled v, tr_sort_order = 0,
            tr_revision = 1, tr_created_by = Some actor, tr_updated_by = Some actor,
            tr_created_at = now, tr_updated_at = now\<rparr>"
  from assms(2) v have "template_repo_create
      \<lparr>mt_row = ?row0, mt_forumIds = tw_forumIds v, mt_contexts = tw_contexts v\<rparr> quota db = Inr (t, db')"
    by (simp add: template_create_def)
  then obtain row n where row: "row = ?row0\<lparr>tr_sort_order := n\<rparr>"
    and cnt: "sql_count (in_scope (tr_scope row) (tr_owner row)) (td_templates db) < quota"
    and ok: "template_row_ok db row"
    and rep: "replaceAssociations (tr_id row) (tw_contexts v) (tw_forumIds v)
       (db\<lparr>td_templates := sql_insert row (td_templates db)\<rparr>) = Inr db'"
    by (rule template_repo_create_Inr) (simp only: message_template.simps)
  from row have fields: "tr_scope row = scope" "tr_forum_scope row = tw_forumScope v"
      "tr_revision row = 1"
    by simp_all
  note val = template_validate_Inr [OF v]
  have keys: "template_keys db'"
    using assms(1) by (intro create_keys [OF _ ok rep]) (simp add: template_inv_def)
  have rows: "template_rows_ok db'"
    using assms(1) val fields by (intro create_rows_ok [OF _ _ ok rep]) (auto simp: template_inv_def)
  have "td_templates db' = sql_insert row (td_templates db)"
    using rep by (simp add: replaceAssociations_Inr)
  moreover have "tr_scope row = TS_personal \<longleftrightarrow> tr_owner row \<noteq> None"
    using ok by (simp add: template_row_ok_def)
  ultimately have "template_quotas db'"
    using assms(1) cnt unfolding quota template_inv_def fields(1) [symmetric]
    by (intro create_quotas [of db db' row]) blast+
  with keys rows show ?thesis by (simp add: template_inv_def)
qed

subsection \<open>Update and delete\<close>

lemma template_repo_update_ok:
  assumes "template_repo_update now i scope owner r actor v db = Inr (Repo_ok t, db')"
  shows "\<exists>x \<in> set (td_templates db). tr_id x = i \<and> in_scope scope owner x"
    and "sql_count (\<lambda>x. tr_id x = i \<and> tr_revision x = r) (td_templates db) \<noteq> 0"
    and "replaceAssociations i (tw_contexts v) (tw_forumIds v)
      (db\<lparr>td_templates := sql_update (\<lambda>x. tr_id x = i \<and> tr_revision x = r)
         (apply_write v actor now) (td_templates db)\<rparr>) = Inr db'"
    and "template_get db' i = Some t"
  using assms
  by (auto simp: template_repo_update_def template_ownedRow_def Let_def
      split: option.splits if_splits sum.splits dest!: sql_get_SomeD)

lemma template_repo_update_refused:
  "template_repo_update now i scope owner r actor v db = Inr (out, db') \<Longrightarrow>
   \<forall>t. out \<noteq> Repo_ok t \<Longrightarrow> db' = db"
  by (auto simp: template_repo_update_def Let_def split: option.splits if_splits sum.splits)

lemma template_update_inv:
  assumes inv: "template_inv db"
    and upd: "template_repo_update now i scope owner r actor v db = Inr (Repo_ok t, db')"
    and v: "tw_contexts v \<noteq> []" "tw_forumScope v = TF_selected \<longleftrightarrow> tw_forumIds v \<noteq> []"
  shows "template_inv db'"
proof -
  let ?hit = "\<lambda>x. tr_id x = i \<and> tr_revision x = r"
  let ?t = "sql_update ?hit (apply_write v actor now) (td_templates db)"
  note rep = template_repo_update_ok(3) [OF upd]
  have uk: "unique_key tr_id (td_templates db)" using inv by (simp add: template_inv_defs)
  from template_repo_update_ok(2) [OF upd] obtain x
    where x: "x \<in> set (td_templates db)" "tr_id x = i" "tr_revision x = r"
    by (auto simp: sql_count_0_iff)
  have rows: "td_templates db' = ?t" using rep by (auto simp: replaceAssociations_Inr)
  have ids: "map tr_id ?t = map tr_id (td_templates db)" by (rule map_sql_update) simp
  then have ids': "tr_id ` set ?t = tr_id ` set (td_templates db)" by (metis set_map)
  have "unique_key tr_id ?t" using unique_key_update [OF uk] by simp
  moreover have "i \<in> tr_id ` set (td_templates db)" using x by auto
  ultimately have keys: "template_keys db'"
    using inv rep unfolding template_inv_def template_keys_def replaceAssociations_Inr
    by (auto simp: ids' distinct_sql_delete simp del: set_sql_update)
  have hit: "set ?t = insert (apply_write v actor now x) {y \<in> set (td_templates db). tr_id y \<noteq> i}"
    using sql_update_key_hit [OF uk x(1) x(2), of "\<lambda>y. tr_revision y = r"] x(3) by simp
  have keep: "template_assoc_ok (db\<lparr>td_templates := z\<rparr>) y = template_assoc_ok db y" for z y
    by (simp add: template_assoc_ok_def)
  have "template_rows_ok db'"
    using inv x v
    by (auto simp: template_rows_ok_def template_inv_defs rows hit template_assoc_replaced [OF rep] keep)
  moreover have "template_quotas db'"
    using inv by (simp add: template_inv_defs rows sql_count_update_same)
  ultimately show ?thesis using keys by (simp add: template_inv_def)
qed

lemma template_repo_delete_ok:
  assumes "template_repo_delete i scope owner r db = (Repo_ok u, db')"
  shows "\<exists>x \<in> set (td_templates db). tr_id x = i \<and> in_scope scope owner x"
    and "\<exists>x \<in> set (td_templates db). tr_id x = i \<and> tr_revision x = r"
    and "db' = db\<lparr>td_templates := sql_delete (\<lambda>x. tr_id x = i \<and> tr_revision x = r) (td_templates db),
       td_contexts := sql_delete (\<lambda>(j, _). j = i) (td_contexts db),
       td_forums := sql_delete (\<lambda>(j, _). j = i) (td_forums db)\<rparr>"
  using assms
  by (auto simp: template_repo_delete_def template_ownedRow_def Let_def sql_count_0_iff
      split: option.splits if_splits dest!: sql_get_SomeD)

lemma template_delete_inv:
  assumes inv: "template_inv db" and del: "template_repo_delete i scope owner r db = (Repo_ok u, db')"
  shows "template_inv db'"
proof -
  note d = template_repo_delete_ok [OF del]
  have uk: "unique_key tr_id (td_templates db)" using inv by (simp add: template_inv_defs)
  have rows: "td_templates db' = sql_delete (\<lambda>x. tr_id x = i \<and> tr_revision x = r) (td_templates db)"
    unfolding d(3) by simp
  from d(2) obtain y where "y \<in> set (td_templates db)" "tr_id y = i" "tr_revision y = r" by blast
  then have gone: "set (td_templates db') = {x \<in> set (td_templates db). tr_id x \<noteq> i}"
    using sql_delete_key_hit [OF uk, of y i "\<lambda>x. tr_revision x = r"] unfolding rows by blast
  have assoc: "td_contexts db' = sql_delete (\<lambda>(j, _). j = i) (td_contexts db)"
    "td_forums db' = sql_delete (\<lambda>(j, _). j = i) (td_forums db)"
    unfolding d(3) by simp_all
  have "fst ` set (td_contexts db') \<subseteq> tr_id ` set (td_templates db')"
    and "fst ` set (td_forums db') \<subseteq> tr_id ` set (td_templates db')"
    unfolding gone assoc using inv
    by (simp_all only: template_inv_def template_keys_def fst_deleted_subset)
  then have "template_keys db'"
    using inv unique_key_delete [OF uk]
    by (simp add: template_inv_def template_keys_def d(3) distinct_sql_delete)
  moreover have "template_rows_ok db'"
    using inv gone by (auto simp: template_inv_defs d(3) template_assoc_ok_def)
  moreover have "template_quotas db'"
    using inv le_trans [OF sql_count_delete_le] by (auto simp: template_inv_defs d(3))
  ultimately show ?thesis by (simp add: template_inv_def)
qed

subsection \<open>Reordering\<close>

lemma reorder_check_ok:
  assumes "reorder_check items rows = Repo_ok u" and "(i, q) \<in> set items"
  shows "\<exists>r. sql_get (\<lambda>r. tr_id r = i) rows = Some r \<and> tr_revision r = q"
  using assms
  by (induction items rows rule: reorder_check.induct) (auto split: option.splits if_splits)

lemma map_tr_id_reorder_updates [simp]:
  "map tr_id (reorder_updates k items a n t) = map tr_id t"
  by (induction k items a n t rule: reorder_updates.induct) (auto simp: map_sql_update)

lemma unique_key_reorder_updates [key_intros]:
  "unique_key tr_id t \<Longrightarrow> unique_key tr_id (reorder_updates k items a n t)"
  by (simp add: unique_key_def)

lemma sql_count_reorder_updates:
  "sql_count (in_scope s ow) (reorder_updates k items a n t) = sql_count (in_scope s ow) t"
  by (induction k items a n t rule: reorder_updates.induct) (auto simp: sql_count_update_same)

text \<open>Each row is touched by the first item that names its identifier and revision.\<close>

lemma reorder_updates_get:
  assumes "distinct (map fst items)"
  shows "sql_get (\<lambda>r. tr_id r = i) (reorder_updates k items a n t) =
    map_option (\<lambda>r. case map_of items i of
        Some q \<Rightarrow> if tr_revision r = q
          then reorder_row (k + length (takeWhile (\<lambda>x. fst x \<noteq> i) items)) a n r else r
      | None \<Rightarrow> r) (sql_get (\<lambda>r. tr_id r = i) t)"
  using assms
proof (induction k items a n t rule: reorder_updates.induct)
  case (1 k a n t)
  then show ?case by (simp add: option.map_ident)
next
  case (2 k j q items a n t)
  have j: "map_of items j = None" using "2.prems" by (auto simp: map_of_eq_None_iff)
  have get: "sql_get (\<lambda>r. tr_id r = i)
      (sql_update (\<lambda>r. tr_id r = j \<and> tr_revision r = q) (reorder_row k a n) t) =
    map_option (\<lambda>r. if tr_id r = j \<and> tr_revision r = q then reorder_row k a n r else r)
      (sql_get (\<lambda>r. tr_id r = i) t)"
    by (rule sql_get_update_key) simp
  show ?case
  proof (cases "sql_get (\<lambda>r. tr_id r = i) t")
    case None
    with "2" get show ?thesis by simp
  next
    case (Some r)
    then have "tr_id r = i" by (auto dest: sql_get_SomeD)
    with "2" get j Some show ?thesis by (cases "i = j") (auto split: option.splits)
  qed
qed

lemma reorder_rows:
  "r \<in> set (reorder_updates k items a n t) \<Longrightarrow>
   \<exists>x \<in> set t. tr_id r = tr_id x \<and> tr_scope r = tr_scope x \<and> tr_owner r = tr_owner x
     \<and> tr_forum_scope r = tr_forum_scope x \<and> tr_revision x \<le> tr_revision r"
proof (induction k items a n t rule: reorder_updates.induct)
  case (2 k j q items a n t)
  then obtain y where y: "y \<in> set (sql_update (\<lambda>r. tr_id r = j \<and> tr_revision r = q) (reorder_row k a n) t)"
    "tr_id r = tr_id y" "tr_scope r = tr_scope y" "tr_owner r = tr_owner y"
    "tr_forum_scope r = tr_forum_scope y" "tr_revision y \<le> tr_revision r"
    by auto
  from y(1) obtain x where "x \<in> set t" "y = x \<or> y = reorder_row k a n x"
    by (auto simp: set_sql_update split: if_splits)
  with y show ?case by (intro bexI [of _ x]) auto
qed auto

lemma template_repo_reorder_ok:
  assumes "template_repo_reorder now scope owner actor items db = Inr (Repo_ok ts, db')"
  shows "length items = length (sql_select (in_scope scope owner) (td_templates db))"
    and "\<forall>r \<in> set (td_templates db). in_scope scope owner r \<longrightarrow> tr_id r \<in> fst ` set items"
    and "reorder_check items (sql_select (in_scope scope owner) (td_templates db)) = Repo_ok ()"
    and "db' = db\<lparr>td_templates := reorder_updates 0 items actor now (td_templates db)\<rparr>"
    and "ts = template_readMany db' (in_scope scope owner)"
  using assms
  by (auto simp: template_repo_reorder_def Let_def list_ex_iff split: if_splits repo_result.splits)

lemma template_reorder_inv:
  assumes inv: "template_inv db"
    and re: "template_repo_reorder now scope owner actor items db = Inr (Repo_ok ts, db')"
  shows "template_inv db'"
proof -
  note d = template_repo_reorder_ok(4) [OF re]
  let ?t = "reorder_updates 0 items actor now (td_templates db)"
  have "tr_id ` set ?t = tr_id ` set (td_templates db)"
    by (metis map_tr_id_reorder_updates set_map)
  then have "template_keys db'"
    using inv unique_key_reorder_updates by (simp add: template_inv_def template_keys_def d)
  moreover have "template_rows_ok db'"
  proof -
    have "template_assoc_ok db' r \<and> (tr_scope r = TS_personal \<longleftrightarrow> tr_owner r \<noteq> None) \<and> 1 \<le> tr_revision r"
      if "r \<in> set ?t" for r
    proof -
      obtain x where "x \<in> set (td_templates db)" "tr_id r = tr_id x" "tr_scope r = tr_scope x"
        "tr_owner r = tr_owner x" "tr_forum_scope r = tr_forum_scope x" "tr_revision x \<le> tr_revision r"
        using reorder_rows [OF \<open>r \<in> set ?t\<close>] by blast
      with inv show ?thesis
        by (auto simp: template_inv_def template_rows_ok_def template_assoc_ok_def d)
    qed
    then show ?thesis by (simp add: template_rows_ok_def d)
  qed
  moreover have "template_quotas db'"
    using inv by (simp add: template_inv_def template_quotas_def d sql_count_reorder_updates)
  ultimately show ?thesis by (simp add: template_inv_def)
qed

section \<open>The optimistic-concurrency contract\<close>

definition template_rev_of :: "template_db \<Rightarrow> ident \<Rightarrow> int option" where
  "template_rev_of db i = map_option tr_revision (sql_get (\<lambda>r. tr_id r = i) (td_templates db))"

text \<open>A client's update or delete as the contract sees it: a new state, or a refusal.\<close>

definition template_writer ::
  "iso_time \<times> template_scope \<times> ident option \<times> ident \<times> template_write_input \<Rightarrow> ident \<Rightarrow> int \<Rightarrow>
   template_db \<Rightarrow> template_db option" where
  "template_writer w i r db = (case w of (now, scope, owner, actor, input) \<Rightarrow>
     (case template_update now scope owner actor i (JsInt r) input db of
        Inl _ \<Rightarrow> None | Inr (_, db') \<Rightarrow> Some db'))"

definition template_deleter ::
  "template_scope \<times> ident option \<Rightarrow> ident \<Rightarrow> int \<Rightarrow> template_db \<Rightarrow> template_db option" where
  "template_deleter w i r db = (case w of (scope, owner) \<Rightarrow>
     (case template_delete scope owner i (JsInt r) db of
        Inl _ \<Rightarrow> None | Inr (_, db') \<Rightarrow> Some db'))"

lemma template_unwrap_Inr:
  "template_unwrap x = Inr (a, db) \<longleftrightarrow> x = Inr (Repo_ok a, db)"
  by (auto simp: template_unwrap_def split: sum.splits prod.splits repo_result.splits)

lemma template_update_Inr:
  assumes "template_update now scope owner actor i n input db = Inr (t, db')"
  obtains r v where "n = JsInt r" "template_validate input = Inr v"
    "template_repo_update now i scope owner r actor v db = Inr (Repo_ok t, db')"
  using assms
  by (auto simp: template_update_def template_unwrap_Inr split: js_number.splits if_splits sum.splits)

lemma template_delete_Inr:
  assumes "template_delete scope owner i n db = Inr (u, db')"
  obtains r where "n = JsInt r" "template_repo_delete i scope owner r db = (Repo_ok u, db')"
  using assms
  by (auto simp: template_delete_def template_unwrap_Inr split: js_number.splits if_splits)

lemma rev_after_update:
  assumes inv: "template_inv db" and upd: "template_repo_update now i scope owner r actor v db = Inr (Repo_ok t, db')"
  shows "template_rev_of db i = Some r"
    and "template_rev_of db' j = map_option (\<lambda>q. if j = i then q + 1 else q) (template_rev_of db j)"
proof -
  let ?hit = "\<lambda>x. tr_id x = i \<and> tr_revision x = r"
  have uk: "unique_key tr_id (td_templates db)" using inv by (simp add: template_inv_defs)
  from template_repo_update_ok(2) [OF upd] obtain x
    where x: "sql_get (\<lambda>x. tr_id x = i) (td_templates db) = Some x" "tr_revision x = r"
    using sql_get_key_iff [OF uk] by (auto simp: sql_count_0_iff)
  then show "template_rev_of db i = Some r" by (simp add: template_rev_of_def)
  have "td_templates db' = sql_update ?hit (apply_write v actor now) (td_templates db)"
    using template_repo_update_ok(3) [OF upd] by (auto simp: replaceAssociations_Inr)
  then have "sql_get (\<lambda>x. tr_id x = j) (td_templates db') =
    map_option (\<lambda>x. if ?hit x then apply_write v actor now x else x)
      (sql_get (\<lambda>x. tr_id x = j) (td_templates db))"
    by (simp add: sql_get_update_key)
  with x show "template_rev_of db' j = map_option (\<lambda>q. if j = i then q + 1 else q) (template_rev_of db j)"
    by (cases "sql_get (\<lambda>x. tr_id x = j) (td_templates db)")
       (auto simp: template_rev_of_def dest: sql_get_SomeD)
qed

lemma rev_after_update_own:
  assumes "template_inv db" and "template_repo_update now i scope owner r actor v db = Inr (Repo_ok t, db')"
  shows "template_rev_of db i = Some r \<and> template_rev_of db' i = Some (r + 1)"
  using rev_after_update [OF assms] by simp

lemma rev_after_delete:
  assumes inv: "template_inv db" and del: "template_repo_delete i scope owner r db = (Repo_ok u, db')"
  shows "template_rev_of db i = Some r"
    and "template_rev_of db' j = (if j = i then None else template_rev_of db j)"
proof -
  have uk: "unique_key tr_id (td_templates db)" using inv by (simp add: template_inv_defs)
  from template_repo_delete_ok(2) [OF del] obtain x
    where x: "sql_get (\<lambda>x. tr_id x = i) (td_templates db) = Some x" "tr_revision x = r"
    using sql_get_key_iff [OF uk] by auto
  then show "template_rev_of db i = Some r" by (simp add: template_rev_of_def)
  have "td_templates db' = sql_delete (\<lambda>x. tr_id x = i \<and> tr_revision x = r) (td_templates db)"
    using template_repo_delete_ok(3) [OF del] by simp
  with x show "template_rev_of db' j = (if j = i then None else template_rev_of db j)"
    by (cases "sql_get (\<lambda>x. tr_id x = j) (td_templates db)")
       (auto simp: template_rev_of_def sql_get_delete_key [OF uk] dest: sql_get_SomeD)
qed

lemma rev_after_update_mono:
  assumes "template_inv db" and "template_repo_update now i scope owner r actor v db = Inr (Repo_ok t, db')"
    and "template_rev_of db' j = Some q"
  shows "\<exists>p. template_rev_of db j = Some p \<and> p \<le> q"
  using rev_after_update(2) [OF assms(1,2), of j] assms(3)
  by (cases "template_rev_of db j") (auto split: if_splits)

lemma rev_after_delete_others:
  assumes "template_inv db" and "template_repo_delete i scope owner r db = (Repo_ok u, db')"
    and "template_rev_of db' j = Some q"
  shows "j \<noteq> i \<and> template_rev_of db j = Some q"
  using rev_after_delete(2) [OF assms(1,2), of j] assms(3) by (auto split: if_splits)

lemma template_update_keeps_inv:
  assumes "template_inv db" and "template_update now scope owner actor i n input db = Inr (t, db')"
  shows "template_inv db'"
  using assms(2)
proof (rule template_update_Inr)
  fix r v assume "template_validate input = Inr v"
    and "template_repo_update now i scope owner r actor v db = Inr (Repo_ok t, db')"
  then show ?thesis using template_update_inv [OF assms(1)] template_validate_Inr by blast
qed

interpretation template_store: revisioned_store template_rev_of template_writer
  template_deleter template_inv
proof (standard, goal_cases)
  case (1 s w k r s')
  then show ?case
    by (auto simp: template_writer_def split: prod.splits sum.splits elim!: template_update_Inr)
       (auto dest: rev_after_update_own)
next
  case (2 s w k r s' j q)
  then show ?case
    by (auto simp: template_writer_def split: prod.splits sum.splits elim!: template_update_Inr)
       (blast intro: rev_after_update_mono)
next
  case (3 s d k r s')
  then show ?case
    by (auto simp: template_deleter_def split: prod.splits sum.splits elim!: template_delete_Inr)
       (auto dest: rev_after_delete)
next
  case (4 s d k r s' j q)
  then show ?case
    by (auto simp: template_deleter_def split: prod.splits sum.splits elim!: template_delete_Inr)
       (blast dest: rev_after_delete_others)+
next
  case (5 s w k r s')
  then show ?case
    by (auto simp: template_writer_def split: prod.splits sum.splits intro: template_update_keeps_inv)
next
  case (6 s d k r s')
  then show ?case
    by (auto simp: template_deleter_def split: prod.splits sum.splits elim!: template_delete_Inr
        intro: template_delete_inv)
qed

section \<open>Properties\<close>

text \<open>The writing operations of the service, as one relation on states.\<close>

inductive template_step :: "template_db \<Rightarrow> template_db \<Rightarrow> bool" where
  create_personal: "createPersonal now i owner input db = Inr (t, db') \<Longrightarrow> template_step db db'"
| create_system: "createSystem now i actor input db = Inr (t, db') \<Longrightarrow> template_step db db'"
| update_personal: "updatePersonal now owner i n input db = Inr (t, db') \<Longrightarrow> template_step db db'"
| update_system: "updateSystem now actor i n input db = Inr (t, db') \<Longrightarrow> template_step db db'"
| delete_personal: "deletePersonal owner i n db = Inr (u, db') \<Longrightarrow> template_step db db'"
| delete_system: "deleteSystem i n db = Inr (u, db') \<Longrightarrow> template_step db db'"
| reorder_personal: "reorderPersonal now owner items db = Inr (ts, db') \<Longrightarrow> template_step db db'"
| reorder_system: "reorderSystem now actor items db = Inr (ts, db') \<Longrightarrow> template_step db db'"

lemma template_delete_keeps_inv:
  "template_inv db \<Longrightarrow> template_delete scope owner i n db = Inr (u, db') \<Longrightarrow> template_inv db'"
  by (auto elim!: template_delete_Inr intro: template_delete_inv)

lemma template_reorder_Inr:
  assumes "template_reorder now scope owner actor items db = Inr (ts, db')"
  obtains its where "reorder_items items = Some its" "distinct (map fst items)"
    "template_repo_reorder now scope owner actor its db = Inr (Repo_ok ts, db')"
  using assms
  by (auto simp: template_reorder_def template_unwrap_Inr card_distinct split: if_splits option.splits)

lemma template_reorder_keeps_inv:
  "template_inv db \<Longrightarrow> template_reorder now scope owner actor items db = Inr (ts, db') \<Longrightarrow>
   template_inv db'"
  by (auto elim!: template_reorder_Inr intro: template_reorder_inv)

lemmas template_public_defs = createPersonal_def createSystem_def updatePersonal_def
  updateSystem_def deletePersonal_def deleteSystem_def reorderPersonal_def reorderSystem_def



subsection \<open>Reorder\<close>

lemma in_scope_reorder_iff:
  assumes "unique_key tr_id t" and "distinct (map fst items)"
    and "\<forall>r \<in> set t. in_scope s ow r \<longrightarrow> map_of items (tr_id r) = Some (tr_revision r)"
    and "r \<in> set (reorder_updates 0 items a n t)" and "in_scope s ow r"
  shows "tr_id r \<in> fst ` set items
    \<and> tr_sort_order r = int (length (takeWhile (\<lambda>x. fst x \<noteq> tr_id r) items))"
proof -
  define i where "i = tr_id r"
  let ?k = "length (takeWhile (\<lambda>x. fst x \<noteq> i) items)"
  have uk: "unique_key tr_id (reorder_updates 0 items a n t)"
    using assms(1) by (rule unique_key_reorder_updates)
  have get: "sql_get (\<lambda>x. tr_id x = i) (reorder_updates 0 items a n t) = Some r"
    using sql_get_unique [OF uk assms(4)] by (simp add: i_def)
  note upd = reorder_updates_get [OF assms(2), of i 0 a n t]
  from upd get obtain x where x: "sql_get (\<lambda>x. tr_id x = i) t = Some x"
    by (cases "sql_get (\<lambda>x. tr_id x = i) t") auto
  then have xt: "x \<in> set t" "tr_id x = i" by (auto dest: sql_get_SomeD)
  have cases: "r = x \<or> r = reorder_row ?k a n x"
    using upd get x by (auto split: option.splits if_splits)
  then have "in_scope s ow x" using assms(5) by auto
  then have m: "map_of items i = Some (tr_revision x)" using assms(3) xt by auto
  then have "r = reorder_row ?k a n x" using upd get x by simp
  then have "tr_sort_order r = int ?k" by simp
  then show ?thesis using m by (auto simp: i_def dest!: map_of_SomeD intro: rev_image_eqI)
qed

lemma position_of:
  "x \<in> set xs \<Longrightarrow> length (takeWhile (\<lambda>y. y \<noteq> x) xs) < length xs
     \<and> xs ! length (takeWhile (\<lambda>y. y \<noteq> x) xs) = x"
  by (induction xs) auto

lemma sort_key_determined:
  fixes f :: "'a \<Rightarrow> nat" and key :: "'a \<Rightarrow> 'k::linorder"
  assumes "length rs = length xs" and "distinct rs" and "inj_on g (set rs)"
    and pos: "\<forall>r \<in> set rs. f r < length xs \<and> xs ! f r = g r"
    and mono: "\<forall>r \<in> set rs. \<forall>q \<in> set rs. f r < f q \<longrightarrow> key r < key q"
  shows "map g (sort_key key rs) = xs"
proof -
  let ?s = "sort_key key rs"
  have len: "length ?s = length xs" using assms(1) by simp
  have inj: "inj_on f (set rs)"
    using pos assms(3) by (auto simp: inj_on_def) metis
  have card: "card (f ` set rs) = length xs"
    using inj assms(1,2) by (simp add: card_image distinct_card)
  have sub: "f ` set rs \<subseteq> {..<length xs}" using pos by auto
  have "f ` set rs = {..<length xs}" using card sub by (simp add: card_subset_eq)
  then have set_f: "set (map f ?s) = set [0..<length xs]" by auto
  have "sorted_wrt (\<lambda>r q. key r \<le> key q) ?s"
    using sorted_sort_key [of key rs] by (simp add: sorted_map)
  then have "sorted_wrt (\<lambda>r q. f r \<le> f q) ?s"
    by (rule sorted_wrt_mono_rel [rotated]) (use mono in \<open>auto simp: not_le [symmetric]\<close>)
  then have "sorted (map f ?s)" by (simp add: sorted_map)
  moreover have "distinct (map f ?s)"
    using inj assms(2) by (simp add: distinct_map)
  ultimately have fs: "map f ?s = [0..<length xs]"
    using set_f by (intro sorted_distinct_set_unique) auto
  show ?thesis
  proof (rule nth_equalityI)
    fix k assume "k < length (map g ?s)"
    then have k: "k < length xs" using len by simp
    then have "f (?s ! k) = k" using fs len by (metis add_0 nth_map nth_upt diff_zero length_upt)
    moreover have "?s ! k \<in> set rs" using k len by (metis nth_mem set_sort)
    ultimately have "xs ! k = g (?s ! k)" using pos by metis
    then show "map g ?s ! k = xs ! k" using k len by simp
  qed (simp add: assms(1))
qed

lemma reorder_items_fst: "reorder_items items = Some its \<Longrightarrow> map fst its = map fst items"
  by (induction items arbitrary: its rule: reorder_items.induct)
     (auto split: js_number.splits if_splits)

lemma reorder_revisions:
  assumes "unique_key tr_id t" and "distinct (map fst its)"
    and "reorder_check its (sql_select (in_scope s ow) t) = Repo_ok ()"
    and "\<forall>r \<in> set t. in_scope s ow r \<longrightarrow> tr_id r \<in> fst ` set its"
    and r: "r \<in> set t" "in_scope s ow r"
  shows "map_of its (tr_id r) = Some (tr_revision r)"
proof -
  from assms(4) r obtain q where q: "(tr_id r, q) \<in> set its" by auto
  from reorder_check_ok [OF assms(3) q] obtain x where "x \<in> set t" "tr_id x = tr_id r" "tr_revision x = q"
    using sql_get_SomeD by fastforce
  with assms(1) r have "q = tr_revision r" by (auto dest: unique_keyD)
  with q assms(2) show ?thesis by simp
qed

lemma unique_key_filter_distinct: "unique_key k t \<Longrightarrow> distinct (filter p t) \<and> inj_on k (set (filter p t))"
  by (auto simp: unique_key_def distinct_map intro: inj_on_subset)

lemma length_filter_reorder:
  "length (filter (in_scope s ow) (reorder_updates k its a n t)) = length (filter (in_scope s ow) t)"
  using sql_count_reorder_updates [of s ow k its a n t] by (simp add: sql_count_def)

text \<open>
  C19. A reorder that succeeds returns the caller's templates in exactly the submitted order.
\<close>

theorem template_reorder_order:
  assumes "template_inv db" and "template_reorder now scope owner actor items db = Inr (ts, db')"
  shows "map (\<lambda>t. tr_id (mt_row t)) ts = map fst items"
proof -
  have uk: "unique_key tr_id (td_templates db)" using assms(1) by (simp add: template_inv_defs)
  from assms(2) obtain its where its: "reorder_items items = Some its" and di: "distinct (map fst items)"
    and re: "template_repo_reorder now scope owner actor its db = Inr (Repo_ok ts, db')"
    by (rule template_reorder_Inr)
  note fsts = reorder_items_fst [OF its] and ok = template_repo_reorder_ok [OF re]
  let ?t = "reorder_updates 0 its actor now (td_templates db)"
  let ?in = "in_scope scope owner"
  have revs: "\<forall>r \<in> set (td_templates db). ?in r \<longrightarrow> map_of its (tr_id r) = Some (tr_revision r)"
    using reorder_revisions [OF uk _ ok(3,2)] di by (auto simp: fsts)
  have uk': "unique_key tr_id ?t" using uk by (rule unique_key_reorder_updates)
  have sort: "tr_id r \<in> fst ` set its \<and> tr_sort_order r = int (length (takeWhile (\<lambda>x. x \<noteq> tr_id r) (map fst its)))"
    if "r \<in> set ?t" "?in r" for r
    using in_scope_reorder_iff [OF uk _ revs that] di unfolding fsts [symmetric]
    by (simp add: takeWhile_map o_def)
  have "map tr_id (sort_key template_order (filter ?in ?t)) = map fst its"
  proof (rule sort_key_determined [where f = "\<lambda>r. nat (tr_sort_order r)"])
    show "length (filter ?in ?t) = length (map fst its)"
      using ok(1) by (simp add: length_filter_reorder sql_select_def)
    show "\<forall>r \<in> set (filter ?in ?t). nat (tr_sort_order r) < length (map fst its)
        \<and> map fst its ! nat (tr_sort_order r) = tr_id r"
    proof
      fix r assume "r \<in> set (filter ?in ?t)"
      with sort [of r] have "tr_id r \<in> set (map fst its)"
        and "nat (tr_sort_order r) = length (takeWhile (\<lambda>x. x \<noteq> tr_id r) (map fst its))" by auto
      then show "nat (tr_sort_order r) < length (map fst its)
          \<and> map fst its ! nat (tr_sort_order r) = tr_id r"
        using position_of [of "tr_id r" "map fst its"] by simp
    qed
    show "\<forall>r \<in> set (filter ?in ?t). \<forall>q \<in> set (filter ?in ?t).
        nat (tr_sort_order r) < nat (tr_sort_order q) \<longrightarrow> template_order r < template_order q"
      by (auto simp: template_order_def less_prod_def)
  qed (use unique_key_filter_distinct [OF uk'] in auto)
  then show "map (\<lambda>t. tr_id (mt_row t)) ts = map fst items"
    by (simp add: ok(4,5) template_readMany_def template_hydrate_def sql_select_def sql_order_by_def
        o_def fsts)
qed

subsection \<open>Isolation of owners\<close>

text \<open>What a caller cannot see must not change: the rows outside its scope and their associations.\<close>

definition outside :: "template_scope \<Rightarrow> ident option \<Rightarrow> template_db \<Rightarrow>
    template_row list \<times> (ident \<times> template_context) set \<times> (ident \<times> ident) set" where
  "outside scope owner db =
    (let rows = filter (\<lambda>r. \<not> in_scope scope owner r) (td_templates db); ids = tr_id ` set rows
     in (rows, {p \<in> set (td_contexts db). fst p \<in> ids}, {p \<in> set (td_forums db). fst p \<in> ids}))"

lemma filter_sql_update_outside:
  "\<forall>r \<in> set t. h r \<longrightarrow> p r \<and> p (f r) \<Longrightarrow>
   filter (\<lambda>r. \<not> p r) (sql_update h f t) = filter (\<lambda>r. \<not> p r) t"
  by (induction t) (auto simp: sql_update_def)

lemma filter_sql_delete_outside:
  "\<forall>r \<in> set t. h r \<longrightarrow> p r \<Longrightarrow> filter (\<lambda>r. \<not> p r) (sql_delete h t) = filter (\<lambda>r. \<not> p r) t"
  by (induction t) (auto simp: sql_delete_def)

lemma filter_reorder_outside:
  "\<forall>r \<in> set t. tr_id r \<in> fst ` set its \<longrightarrow> in_scope s ow r \<Longrightarrow>
   filter (\<lambda>r. \<not> in_scope s ow r) (reorder_updates k its a n t) =
   filter (\<lambda>r. \<not> in_scope s ow r) t"
proof (induction k its a n t rule: reorder_updates.induct)
  case (2 k j q items a n t)
  let ?u = "sql_update (\<lambda>r. tr_id r = j \<and> tr_revision r = q) (reorder_row k a n) t"
  have "filter (\<lambda>r. \<not> in_scope s ow r) (reorder_updates (Suc k) items a n ?u) =
      filter (\<lambda>r. \<not> in_scope s ow r) ?u"
    using "2.prems" by (intro "2.IH") (auto simp: set_sql_update)
  moreover have "filter (\<lambda>r. \<not> in_scope s ow r) ?u = filter (\<lambda>r. \<not> in_scope s ow r) t"
    using "2.prems" by (intro filter_sql_update_outside) auto
  ultimately show ?case by simp
qed simp

lemma outside_eqI:
  assumes "filter (\<lambda>r. \<not> in_scope s ow r) (td_templates db') =
      filter (\<lambda>r. \<not> in_scope s ow r) (td_templates db)"
    and "\<And>r c. r \<in> set (td_templates db) \<Longrightarrow> \<not> in_scope s ow r \<Longrightarrow>
      (tr_id r, c) \<in> set (td_contexts db') \<longleftrightarrow> (tr_id r, c) \<in> set (td_contexts db)"
    and "\<And>r f. r \<in> set (td_templates db) \<Longrightarrow> \<not> in_scope s ow r \<Longrightarrow>
      (tr_id r, f) \<in> set (td_forums db') \<longleftrightarrow> (tr_id r, f) \<in> set (td_forums db)"
  shows "outside s ow db' = outside s ow db"
  using assms(2,3) unfolding outside_def Let_def assms(1) by (auto simp: image_iff)

lemma owned_only_hit:
  assumes "unique_key tr_id t" and "\<exists>x \<in> set t. tr_id x = i \<and> in_scope s ow x" and "r \<in> set t" "tr_id r = i"
  shows "in_scope s ow r"
  using assms unique_keyD by metis

text \<open>
  C20. A personal operation works on its owner's templates only: updating, deleting or reordering
  as one owner leaves every other owner's templates, the shared templates, and all their
  contexts and forums exactly as they were (and a shared operation leaves all personal ones).
\<close>

theorem template_isolation:
  assumes inv: "template_inv db"
    and ops: "template_update now scope owner actor i n input db = Inr (t, db')
      \<or> template_delete scope owner i n db = Inr (u, db')
      \<or> template_reorder now scope owner actor items db = Inr (ts, db')"
  shows "outside scope owner db' = outside scope owner db"
proof -
  have uk: "unique_key tr_id (td_templates db)" using inv by (simp add: template_inv_defs)
  from ops show ?thesis
  proof (elim disjE)
    assume "template_update now scope owner actor i n input db = Inr (t, db')"
    then show ?thesis
    proof (rule template_update_Inr)
      fix r v assume "template_repo_update now i scope owner r actor v db = Inr (Repo_ok t, db')"
      note u = template_repo_update_ok [OF this]
      note hit = owned_only_hit [OF uk u(1)]
      show ?thesis
        using u(3) hit
        by (intro outside_eqI) (auto simp: replaceAssociations_Inr intro!: filter_sql_update_outside)
    qed
  next
    assume "template_delete scope owner i n db = Inr (u, db')"
    then show ?thesis
    proof (rule template_delete_Inr)
      fix r assume "template_repo_delete i scope owner r db = (Repo_ok u, db')"
      note d = template_repo_delete_ok [OF this]
      note hit = owned_only_hit [OF uk d(1)]
      show ?thesis
        unfolding d(3) using hit by (intro outside_eqI) (auto intro!: filter_sql_delete_outside)
    qed
  next
    assume "template_reorder now scope owner actor items db = Inr (ts, db')"
    then show ?thesis
    proof (rule template_reorder_Inr)
      fix its assume re: "template_repo_reorder now scope owner actor its db = Inr (Repo_ok ts, db')"
      note ok = template_repo_reorder_ok [OF re]
      have "in_scope scope owner r" if r: "r \<in> set (td_templates db)" "tr_id r \<in> fst ` set its" for r
      proof -
        from r(2) obtain q where "(tr_id r, q) \<in> set its" by auto
        from reorder_check_ok [OF ok(3) this] obtain x where
          "x \<in> set (td_templates db)" "tr_id x = tr_id r" "in_scope scope owner x"
          using sql_get_SomeD by fastforce
        with uk r(1) show ?thesis using unique_keyD by metis
      qed
      then show ?thesis
        unfolding ok(4) by (intro outside_eqI) (auto intro!: filter_reorder_outside)
    qed
  qed
qed

subsection \<open>The effective list\<close>

text \<open>
  The list a composer is offered holds exactly the enabled templates that apply: those with
  the requested context that are shared or (when personal ones are asked for) the caller's own,
  and that are for all forums or select this forum; personal ones come before shared ones; and
  no other forum of a selected-forum template is disclosed.
\<close>

theorem template_effective_exact:
  "set (map mt_row (template_listEffective db identity ctx forum personal)) =
     {r \<in> set (td_templates db). tr_enabled r \<and> (tr_id r, ctx) \<in> set (td_contexts db)
        \<and> (tr_scope r = TS_system \<or> personal \<and> tr_scope r = TS_personal \<and> tr_owner r = Some identity)
        \<and> (tr_forum_scope r = TF_all \<or> (tr_id r, forum) \<in> set (td_forums db))}
   \<and> sorted (map (\<lambda>t. scope_rank (tr_scope (mt_row t))) (template_listEffective db identity ctx forum personal))
   \<and> (\<Union>t \<in> set (template_listEffective db identity ctx forum personal). set (mt_forumIds t)) \<subseteq> {forum}"
proof (intro conjI)
  let ?rows = "sql_select (effective_row db identity ctx forum personal) (td_templates db)"
  let ?key = "\<lambda>r. (scope_rank (tr_scope r), template_order r)"
  have rows: "map mt_row (template_listEffective db identity ctx forum personal) = sort_key ?key ?rows"
    by (simp add: template_listEffective_def template_hydrate_def sql_order_by_def o_def)
  have fs: "tr_forum_scope r = TF_selected \<longleftrightarrow> tr_forum_scope r \<noteq> TF_all" for r
    by (cases "tr_forum_scope r") auto
  show "set (map mt_row (template_listEffective db identity ctx forum personal)) =
     {r \<in> set (td_templates db). tr_enabled r \<and> (tr_id r, ctx) \<in> set (td_contexts db)
        \<and> (tr_scope r = TS_system \<or> personal \<and> tr_scope r = TS_personal \<and> tr_owner r = Some identity)
        \<and> (tr_forum_scope r = TF_all \<or> (tr_id r, forum) \<in> set (td_forums db))}"
    unfolding rows by (auto simp: effective_row_def fs)
  have "sorted (map ?key (sort_key ?key ?rows))" by (rule sorted_sort_key)
  then have "sorted (map (\<lambda>r. scope_rank (tr_scope r)) (sort_key ?key ?rows))"
    by (auto simp: sorted_map less_eq_prod_def elim!: sorted_wrt_mono_rel [rotated])
  then show "sorted (map (\<lambda>t. scope_rank (tr_scope (mt_row t)))
      (template_listEffective db identity ctx forum personal))"
    unfolding rows [symmetric] by (simp add: o_def)
  show "(\<Union>t \<in> set (template_listEffective db identity ctx forum personal). set (mt_forumIds t)) \<subseteq> {forum}"
    by (auto simp: template_listEffective_def split: if_splits)
qed

section \<open>Witnesses\<close>

definition demo_row :: "ident \<Rightarrow> int \<Rightarrow> template_row" where
  "demo_row i order = \<lparr>tr_id = i, tr_scope = TS_personal, tr_owner = Some ''ann'', tr_name = [65],
     tr_category = None, tr_body = [66], tr_thread_title = None, tr_forum_scope = TF_all,
     tr_enabled = True, tr_sort_order = order, tr_revision = 1, tr_created_by = Some ''ann'',
     tr_updated_by = Some ''ann'', tr_created_at = 0, tr_updated_at = 0\<rparr>"

definition demo_db :: template_db where
  "demo_db = \<lparr>td_templates = [demo_row ''a'' 0, demo_row ''b'' 1],
     td_contexts = [(''a'', TC_reply), (''b'', TC_reply)], td_forums = [],
     td_identity_ids = [''ann''], td_forum_ids = []\<rparr>"

definition demo_input :: template_write_input where
  "demo_input = \<lparr>tw_name = [67], tw_category = None, tw_body = [68], tw_threadTitle = None,
     tw_forumScope = TF_all, tw_forumIds = [], tw_contexts = [TC_reply], tw_enabled = True\<rparr>"

lemmas demo_defs = demo_row_def demo_db_def demo_input_def

lemma demo_inv: "template_inv demo_db"
  by (auto simp: demo_defs template_inv_defs template_assoc_ok_def unique_key_def sql_count_def in_scope_def)

lemma demo_validate: "template_validate demo_input = Inr demo_input"
  by (simp add: template_validate_def demo_input_def trimOptional_def opt_length_def js_trim_def
      is_space_def unit_bytes_def MESSAGE_TEMPLATE_LIMITS_def set_to_array_def)

lemma demo_update_ok:
  "\<exists>t db'. template_update 5 TS_personal (Some ''ann'') ''ann'' ''a'' (JsInt 1) demo_input demo_db = Inr (t, db')"
  unfolding template_update_def js_number.case demo_validate sum.case
  by (simp add: template_repo_update_def template_ownedRow_def demo_defs in_scope_def sql_simps Let_def replaceAssociations_def template_get_def
      template_hydrate_def template_unwrap_def apply_write_def)

lemma demo_reorder_ok:
  "\<exists>ts db'. template_reorder 5 TS_personal (Some ''ann'') ''ann'' [(''b'', JsInt 1), (''a'', JsInt 1)] demo_db
     = Inr (ts, db')"
  by (simp add: template_reorder_def template_repo_reorder_def demo_defs in_scope_def sql_simps
      Let_def template_unwrap_def)



theorem template_reorder_order_witness:
  "\<exists>ts db'. template_reorder 5 TS_personal (Some ''ann'') ''ann''
       [(''b'', JsInt 1), (''a'', JsInt 1)] demo_db = Inr (ts, db')
     \<and> map (\<lambda>t. tr_id (mt_row t)) ts = [''b'', ''a'']"
proof -
  obtain ts db' where r: "template_reorder 5 TS_personal (Some ''ann'') ''ann''
      [(''b'', JsInt 1), (''a'', JsInt 1)] demo_db = Inr (ts, db')"
    using demo_reorder_ok by blast
  with template_reorder_order [OF demo_inv r] show ?thesis by auto
qed

theorem template_isolation_witness:
  "\<exists>ts db'. template_reorder 5 TS_personal (Some ''ann'') ''ann''
       [(''b'', JsInt 1), (''a'', JsInt 1)] demo_db = Inr (ts, db')
     \<and> outside TS_personal (Some ''ann'') db' = outside TS_personal (Some ''ann'') demo_db"
proof -
  obtain ts db' where r: "template_reorder 5 TS_personal (Some ''ann'') ''ann''
      [(''b'', JsInt 1), (''a'', JsInt 1)] demo_db = Inr (ts, db')"
    using demo_reorder_ok by blast
  with template_isolation [OF demo_inv, of 5 TS_personal "Some ''ann''" "''ann''" "''a''" "JsInt 1" demo_input
      _ db' _ "[(''b'', JsInt 1), (''a'', JsInt 1)]" ts]
  show ?thesis by auto
qed

end
