(* ===== verification/Message_Drafts.thy ===== *)
theory Message_Drafts
  imports Notepad_Domain Prelude
begin

text \<open>
  Message drafts: \<^verbatim>\<open>core/domain/messageDrafts.ts\<close>, \<^verbatim>\<open>core/application/messageDraftService.ts\<close> and
  \<^verbatim>\<open>server/repositories/sqliteMessageDraftRepository.ts\<close>. A save returns its outcome together with
  the table after it, because a refused save still commits the removal of expired drafts; only a
  constraint failure rolls the transaction back. The JSON text of the options column is
  represented by the value it encodes (\<open>Some None\<close> is the text \<^verbatim>\<open>null\<close>).
\<close>

section \<open>Data\<close>

datatype draft_context = DC_reply | DC_new_thread | DC_notepad

record message_draft =
  md_id :: ident
  md_owner :: ident
  md_context :: draft_context
  md_forum :: "ident option"
  md_topic :: "ident option"
  md_title :: "js_string option"
  md_body :: js_string
  md_options :: "notepad_draft_options option"
  md_revision :: int
  md_created_at :: iso_time
  md_updated_at :: iso_time
  md_expires_at :: iso_time

record draft_row =
  dr_id :: ident
  dr_owner :: ident
  dr_context :: draft_context
  dr_forum :: "ident option"
  dr_topic :: "ident option"
  dr_title :: "js_string option"
  dr_body :: js_string
  dr_options_json :: "notepad_draft_options option option"
  dr_revision :: int
  dr_created_at :: iso_time
  dr_updated_at :: iso_time
  dr_expires_at :: iso_time

record draft_write_input =
  dw_title :: "js_string option"
  dw_body :: js_string
  dw_options :: "notepad_draft_options option"

record draft_limits =
  dl_titleCharacters :: nat
  dl_bodyUtf8Bytes :: nat
  dl_activePerIdentity :: nat
  dl_retentionDays :: int

definition MESSAGE_DRAFT_LIMITS :: draft_limits where
  "MESSAGE_DRAFT_LIMITS = \<lparr>dl_titleCharacters = 255, dl_bodyUtf8Bytes = 65536,
     dl_activePerIdentity = 500, dl_retentionDays = 30\<rparr>"

datatype draft_error =
    MessageDraftConflictError
  | MessageDraftNotFoundError
  | MessageDraftQuotaError nat
  | MessageDraftValidationError string
  | DraftTagError notepad_error
  | DraftSqliteConstraint

record draft_db =
  dd_drafts :: "draft_row table"
  dd_identity_ids :: "ident list"
  dd_forum_ids :: "ident list"
  dd_topic_ids :: "ident list"

section \<open>Repository\<close>

definition mapMessageDraftRowToDomain :: "draft_row \<Rightarrow> message_draft" where
  "mapMessageDraftRowToDomain row = \<lparr>md_id = dr_id row, md_owner = dr_owner row,
     md_context = dr_context row, md_forum = dr_forum row, md_topic = dr_topic row,
     md_title = dr_title row, md_body = dr_body row,
     md_options = (case dr_options_json row of None \<Rightarrow> None | Some v \<Rightarrow> v),
     md_revision = dr_revision row, md_created_at = dr_created_at row,
     md_updated_at = dr_updated_at row, md_expires_at = dr_expires_at row\<rparr>"

definition draft_one :: "(draft_row \<Rightarrow> bool) \<Rightarrow> draft_db \<Rightarrow> message_draft option" where
  "draft_one p db = map_option mapMessageDraftRowToDomain (sql_get p (dd_drafts db))"

definition draft_oneRaw :: "ident \<Rightarrow> ident \<Rightarrow> draft_db \<Rightarrow> message_draft option" where
  "draft_oneRaw i owner db = draft_one (\<lambda>r. dr_id r = i \<and> dr_owner r = owner) db"

definition draft_many :: "(draft_row \<Rightarrow> bool) \<Rightarrow> draft_db \<Rightarrow> message_draft list" where
  "draft_many p db = map mapMessageDraftRowToDomain
     (sql_order_by (\<lambda>r. - dr_updated_at r) (sql_select p (dd_drafts db)))"

definition draft_getById :: "ident \<Rightarrow> ident \<Rightarrow> iso_time \<Rightarrow> draft_db \<Rightarrow> message_draft option" where
  "draft_getById owner i now db =
    draft_one (\<lambda>r. dr_owner r = owner \<and> dr_id r = i \<and> dr_expires_at r > now) db"

definition draft_getReply :: "ident \<Rightarrow> ident \<Rightarrow> iso_time \<Rightarrow> draft_db \<Rightarrow> message_draft option" where
  "draft_getReply owner topic now db =
    draft_one (\<lambda>r. dr_owner r = owner \<and> dr_context r = DC_reply \<and> dr_topic r = Some topic
      \<and> dr_expires_at r > now) db"

definition draft_listOwner :: "ident \<Rightarrow> iso_time \<Rightarrow> draft_db \<Rightarrow> message_draft list" where
  "draft_listOwner owner now db = draft_many (\<lambda>r. dr_owner r = owner \<and> dr_expires_at r > now) db"

definition draft_listNewThreadByForum ::
  "ident \<Rightarrow> ident \<Rightarrow> iso_time \<Rightarrow> draft_db \<Rightarrow> message_draft list" where
  "draft_listNewThreadByForum owner forum now db =
    draft_many (\<lambda>r. dr_owner r = owner \<and> dr_context r = DC_new_thread \<and> dr_forum r = Some forum
      \<and> dr_expires_at r > now) db"

definition draft_purgeExpired :: "iso_time \<Rightarrow> draft_db \<Rightarrow> nat \<times> draft_db" where
  "draft_purgeExpired now db = (sql_count (\<lambda>r. dr_expires_at r \<le> now) (dd_drafts db),
     db\<lparr>dd_drafts := sql_delete (\<lambda>r. dr_expires_at r \<le> now) (dd_drafts db)\<rparr>)"

text \<open>The primary key, the two partial unique indexes, the check constraint and the foreign keys.\<close>

definition draft_shape_ok :: "draft_row \<Rightarrow> bool" where
  "draft_shape_ok r \<longleftrightarrow> (case dr_context r of
     DC_reply \<Rightarrow> dr_topic r \<noteq> None \<and> dr_forum r = None \<and> dr_title r = None \<and> dr_options_json r = None
   | DC_new_thread \<Rightarrow> dr_forum r \<noteq> None \<and> dr_topic r = None \<and> dr_options_json r = None
   | DC_notepad \<Rightarrow> dr_forum r = None \<and> dr_topic r = None)"

definition draft_same_slot :: "draft_row \<Rightarrow> draft_row \<Rightarrow> bool" where
  "draft_same_slot r x \<longleftrightarrow> dr_id x = dr_id r
     \<or> dr_context x = DC_reply \<and> dr_context r = DC_reply \<and> dr_owner x = dr_owner r \<and> dr_topic x = dr_topic r
     \<or> dr_context x = DC_notepad \<and> dr_context r = DC_notepad \<and> dr_owner x = dr_owner r"

definition draft_row_ok :: "draft_db \<Rightarrow> draft_row \<Rightarrow> bool" where
  "draft_row_ok db r \<longleftrightarrow> draft_shape_ok r \<and> \<not> sql_exists (draft_same_slot r) (dd_drafts db)
     \<and> dr_owner r \<in> set (dd_identity_ids db) \<and> set_option (dr_forum r) \<subseteq> set (dd_forum_ids db)
     \<and> set_option (dr_topic r) \<subseteq> set (dd_topic_ids db)"

datatype draft_outcome = Draft_saved message_draft | Draft_conflict | Draft_quota

definition draft_title_column :: "message_draft \<Rightarrow> draft_write_input \<Rightarrow> js_string option" where
  "draft_title_column draft v = (if md_context draft = DC_reply then None else dw_title v)"

definition draft_options_column ::
  "message_draft \<Rightarrow> draft_write_input \<Rightarrow> notepad_draft_options option option" where
  "draft_options_column draft v = (if md_context draft = DC_notepad then Some (dw_options v) else None)"

definition draft_existing :: "message_draft \<Rightarrow> int \<Rightarrow> draft_row table \<Rightarrow> draft_row option" where
  "draft_existing draft expectedRevision t =
    (case md_context draft of
       DC_reply \<Rightarrow> sql_get (\<lambda>r. dr_owner r = md_owner draft \<and> dr_context r = DC_reply
         \<and> dr_topic r = md_topic draft \<and> md_topic draft \<noteq> None) t
     | DC_notepad \<Rightarrow> sql_get (\<lambda>r. dr_owner r = md_owner draft \<and> dr_context r = DC_notepad) t
     | DC_new_thread \<Rightarrow> if expectedRevision > 0
         then sql_get (\<lambda>r. dr_owner r = md_owner draft \<and> dr_context r = DC_new_thread
           \<and> dr_id r = md_id draft) t
         else None)"

definition draft_rewrite ::
  "message_draft \<Rightarrow> draft_write_input \<Rightarrow> iso_time \<Rightarrow> draft_row \<Rightarrow> draft_row" where
  "draft_rewrite draft v now r = r\<lparr>dr_title := draft_title_column draft v, dr_body := dw_body v,
     dr_options_json := draft_options_column draft v, dr_revision := dr_revision r + 1,
     dr_updated_at := now, dr_expires_at := md_expires_at draft\<rparr>"

definition draft_new_row :: "message_draft \<Rightarrow> draft_write_input \<Rightarrow> iso_time \<Rightarrow> draft_row" where
  "draft_new_row draft v now = \<lparr>dr_id = md_id draft, dr_owner = md_owner draft,
     dr_context = md_context draft, dr_forum = md_forum draft, dr_topic = md_topic draft,
     dr_title = draft_title_column draft v, dr_body = dw_body v,
     dr_options_json = draft_options_column draft v, dr_revision = 1, dr_created_at = now,
     dr_updated_at = now, dr_expires_at = md_expires_at draft\<rparr>"

definition draft_unchanged :: "message_draft \<Rightarrow> draft_write_input \<Rightarrow> draft_row \<Rightarrow> bool" where
  "draft_unchanged draft v r \<longleftrightarrow> dr_title r = draft_title_column draft v \<and> dr_body r = dw_body v
     \<and> dr_options_json r = draft_options_column draft v"

definition draft_reread :: "ident \<Rightarrow> ident \<Rightarrow> draft_db \<Rightarrow> draft_outcome" where
  \<comment> \<open>\<^verbatim>\<open>return this.oneRaw(...)\<close> with the final \<^verbatim>\<open>result ?? 'conflict'\<close>\<close>
  "draft_reread i owner db = (case draft_oneRaw i owner db of None \<Rightarrow> Draft_conflict | Some d \<Rightarrow> Draft_saved d)"

definition draft_repo_save ::
  "message_draft \<Rightarrow> int \<Rightarrow> draft_write_input \<Rightarrow> iso_time \<Rightarrow> nat \<Rightarrow> draft_db \<Rightarrow>
   draft_error + (draft_outcome \<times> draft_db)" where
  "draft_repo_save draft expectedRevision v now quota db0 =
    (let db = snd (draft_purgeExpired now db0); t = dd_drafts db in
     if md_context draft = DC_new_thread \<and> \<not> expectedRevision > 0
        \<and> sql_exists (\<lambda>r. dr_id r = md_id draft) t
     then Inr (Draft_conflict, db)
     else case draft_existing draft expectedRevision t of
       Some existing \<Rightarrow>
         if dr_revision existing \<noteq> expectedRevision then Inr (Draft_conflict, db)
         else if draft_unchanged draft v existing
         then Inr (Draft_saved (mapMessageDraftRowToDomain existing), db)
         else let hit = (\<lambda>r. dr_id r = dr_id existing \<and> dr_owner r = md_owner draft
                \<and> dr_revision r = expectedRevision) in
           if sql_count hit t = 0 then Inr (Draft_conflict, db)
           else let db' = db\<lparr>dd_drafts := sql_update hit (draft_rewrite draft v now) t\<rparr>
             in Inr (draft_reread (dr_id existing) (md_owner draft) db', db')
     | None \<Rightarrow>
         if expectedRevision \<noteq> 0 then Inr (Draft_conflict, db)
         else if sql_count (\<lambda>r. dr_owner r = md_owner draft) t \<ge> quota then Inr (Draft_quota, db)
         else let row = draft_new_row draft v now in
           if \<not> draft_row_ok db row then Inl DraftSqliteConstraint
           else let db' = db\<lparr>dd_drafts := sql_insert row t\<rparr>
             in Inr (draft_reread (md_id draft) (md_owner draft) db', db'))"

datatype delete_outcome = Deleted | Delete_missing | Delete_conflict

definition draft_repo_delete ::
  "ident \<Rightarrow> ident \<Rightarrow> int option \<Rightarrow> draft_db \<Rightarrow> delete_outcome \<times> draft_db" where
  "draft_repo_delete owner i expectedRevision db =
    (let mine = (\<lambda>r. dr_owner r = owner \<and> dr_id r = i) in
     case sql_get mine (dd_drafts db) of
       None \<Rightarrow> (Delete_missing, db)
     | Some existing \<Rightarrow>
         if expectedRevision \<noteq> None \<and> expectedRevision \<noteq> Some (dr_revision existing)
         then (Delete_conflict, db)
         else (if sql_count mine (dd_drafts db) = 0 then Delete_missing else Deleted,
               db\<lparr>dd_drafts := sql_delete mine (dd_drafts db)\<rparr>))"

section \<open>Service\<close>

definition RETENTION_MS :: int where
  "RETENTION_MS = dl_retentionDays MESSAGE_DRAFT_LIMITS * 24 * 60 * 60 * 1000"

definition opt_text_blank :: "js_string option \<Rightarrow> bool" where
  "opt_text_blank t = (case t of None \<Rightarrow> True | Some s \<Rightarrow> js_trim s = [])"

definition draft_validate ::
  "draft_context \<Rightarrow> draft_write_input \<Rightarrow> draft_error + draft_write_input" where
  "draft_validate ctx input =
    (let title = dw_title input; bad = (\<lambda>m. Inl (MessageDraftValidationError m)) in
     if ctx = DC_reply \<and> title \<noteq> None then bad ''Reply drafts cannot have titles''
     else if ctx \<noteq> DC_notepad \<and> dw_options input \<noteq> None
     then bad ''Draft options are only supported for Notepad drafts''
     else if (case title of None \<Rightarrow> 0 | Some s \<Rightarrow> length s) > dl_titleCharacters MESSAGE_DRAFT_LIMITS
     then bad ''Draft title must be at most 255 characters''
     else if utf8_bytes (dw_body input) > dl_bodyUtf8Bytes MESSAGE_DRAFT_LIMITS
     then bad ''Draft body must be at most 64 KiB UTF-8''
     else if js_trim (dw_body input) = [] \<and> \<not> (ctx \<noteq> DC_reply \<and> \<not> opt_text_blank title)
     then bad ''Blank drafts are not stored''
     else Inr input)"

definition default_draft_options :: notepad_draft_options where
  "default_draft_options = \<lparr>opt_tags = [], opt_expiration = one_month\<rparr>"

definition draft_outcome_error ::
  "draft_error + (draft_outcome \<times> draft_db) \<Rightarrow> draft_db \<Rightarrow> (draft_error + message_draft) \<times> draft_db" where
  "draft_outcome_error res db = (case res of
     Inl e \<Rightarrow> (Inl e, db)
   | Inr (Draft_conflict, db') \<Rightarrow> (Inl MessageDraftConflictError, db')
   | Inr (Draft_quota, db') \<Rightarrow> (Inl (MessageDraftQuotaError (dl_activePerIdentity MESSAGE_DRAFT_LIMITS)), db')
   | Inr (Draft_saved d, db') \<Rightarrow> (Inr d, db'))"

definition draft_save ::
  "iso_time \<Rightarrow> ident \<Rightarrow> draft_context \<Rightarrow> ident option \<Rightarrow> ident option \<Rightarrow> js_number \<Rightarrow>
   draft_write_input \<Rightarrow> ident \<Rightarrow> draft_db \<Rightarrow> (draft_error + message_draft) \<times> draft_db" where
  \<comment> \<open>the identifier is the requested one, or the one drawn for a request without\<close>
  "draft_save now owner ctx forum topic expectedRevision input new_id db =
    (case expectedRevision of
       JsNonInteger \<Rightarrow> (Inl (MessageDraftValidationError ''Invalid draft revision''), db)
     | JsInt r \<Rightarrow>
         if r < 0 then (Inl (MessageDraftValidationError ''Invalid draft revision''), db)
         else case draft_validate ctx input of Inl e \<Rightarrow> (Inl e, db)
           | Inr v \<Rightarrow>
               let draft = \<lparr>md_id = new_id, md_owner = owner, md_context = ctx, md_forum = forum,
                     md_topic = topic, md_title = (if ctx = DC_reply then None else dw_title v),
                     md_body = dw_body v,
                     md_options = (if ctx = DC_notepad
                       then Some (case dw_options v of None \<Rightarrow> default_draft_options | Some x \<Rightarrow> x) else None),
                     md_revision = 1, md_created_at = now, md_updated_at = now,
                     md_expires_at = now + RETENTION_MS\<rparr>
               in draft_outcome_error (draft_repo_save draft r v now
                    (dl_activePerIdentity MESSAGE_DRAFT_LIMITS) db) db)"

definition saveReply where
  "saveReply now new_id owner topic expectedRevision v db =
    draft_save now owner DC_reply None (Some topic) expectedRevision v new_id db"

definition saveNewThread where
  "saveNewThread now new_id owner forum expectedRevision v requested db =
    draft_save now owner DC_new_thread (Some forum) None expectedRevision v
      (case requested of None \<Rightarrow> new_id | Some i \<Rightarrow> i) db"

definition saveNotepad where
  "saveNotepad U now new_id owner expectedRevision v db =
    (let options = (case dw_options v of None \<Rightarrow> default_draft_options | Some x \<Rightarrow> x) in
     case normalizeNotepadTags U (opt_tags options) of
       Inl e \<Rightarrow> (Inl (DraftTagError e), db)
     | Inr tags \<Rightarrow> draft_save now owner DC_notepad None None expectedRevision
         (v\<lparr>dw_options := Some (options\<lparr>opt_tags := tags\<rparr>)\<rparr>) new_id db)"

definition getNotepad :: "ident \<Rightarrow> iso_time \<Rightarrow> draft_db \<Rightarrow> message_draft option" where
  "getNotepad owner now db = List.find (\<lambda>d. md_context d = DC_notepad) (draft_listOwner owner now db)"

definition draft_delete ::
  "ident \<Rightarrow> ident \<Rightarrow> js_number option \<Rightarrow> draft_db \<Rightarrow> (draft_error + unit) \<times> draft_db" where
  "draft_delete owner i expectedRevision db =
    (let go = (\<lambda>r. case draft_repo_delete owner i r db of
         (Deleted, db') \<Rightarrow> (Inr (), db')
       | (Delete_missing, db') \<Rightarrow> (Inl MessageDraftNotFoundError, db')
       | (Delete_conflict, db') \<Rightarrow> (Inl MessageDraftConflictError, db'))
     in case expectedRevision of
          None \<Rightarrow> go None
        | Some JsNonInteger \<Rightarrow> (Inl (MessageDraftValidationError ''Invalid draft revision''), db)
        | Some (JsInt r) \<Rightarrow> if r < 1 then (Inl (MessageDraftValidationError ''Invalid draft revision''), db)
            else go (Some r))"

end
