(* ===== verification/Notepad.thy ===== *)
theory Notepad
  imports Complex_Main Message_Drafts Revisioned
begin

text \<open>
  The private notepad: \<^verbatim>\<open>core/application/notepadService.ts\<close> and
  \<^verbatim>\<open>server/repositories/sqliteNotepadRepository.ts\<close>. The state is the entry and tag tables
  together with the draft tables, because publishing a note consumes a draft in one transaction.
  A page cursor is represented by the triple its text decodes to, a malformed text by no cursor.
\<close>

section \<open>Data\<close>

record notepad_row =
  nr_id :: ident
  nr_owner :: ident
  nr_title :: "js_string option"
  nr_body :: js_string
  nr_pinned :: bool
  nr_revision :: int
  nr_created_at :: iso_time
  nr_updated_at :: iso_time
  nr_expires_at :: "iso_time option"

record notepad_entry =
  ne_row :: notepad_row
  ne_tags :: "js_string list"

record notepad_write_input =
  nw_title :: "js_string option"
  nw_body :: js_string
  nw_tags :: "js_string list option"

record notepad_db =
  nd_entries :: "notepad_row table"
  nd_tags :: "(ident \<times> js_string) table"
  nd_drafts :: draft_db

datatype note_failure = NoteError notepad_error | NoteSqliteConstraint

datatype note_outcome = Note_ok notepad_entry | Note_missing | Note_conflict | Note_quota

section \<open>SQLite's LIKE\<close>

text \<open>
  Text as SQLite sees it: code points, a lone surrogate having become U+FFFD on the way in.
  \<^verbatim>\<open>like ... escape '\'\<close> folds the ASCII letters, reads \<^verbatim>\<open>%\<close> as any text, \<^verbatim>\<open>_\<close> as one character and
  takes the character after the escape literally (an escape that ends the pattern matches nothing).
\<close>

definition sql_text :: "js_string \<Rightarrow> nat list" where
  "sql_text s = map (\<lambda>p. if 0xD800 \<le> p \<and> p \<le> 0xDFFF then 0xFFFD else p) (code_points s)"

definition fold_case :: "nat \<Rightarrow> nat" where
  "fold_case p = (if 65 \<le> p \<and> p \<le> 90 then p + 32 else p)"

function sql_like :: "nat list \<Rightarrow> nat list \<Rightarrow> bool" where
  "sql_like [] s \<longleftrightarrow> s = []"
| "sql_like (p # ps) s \<longleftrightarrow>
     (if p = 37 then sql_like ps s \<or> (case s of [] \<Rightarrow> False | c # cs \<Rightarrow> sql_like (p # ps) cs)
      else if p = 92 then (case (ps, s) of (q # qs, c # cs) \<Rightarrow> fold_case q = fold_case c \<and> sql_like qs cs
        | _ \<Rightarrow> False)
      else (case s of [] \<Rightarrow> False | c # cs \<Rightarrow> (p = 95 \<or> fold_case p = fold_case c) \<and> sql_like ps cs))"
  by pat_completeness auto
termination by (relation "measure (\<lambda>(p, s). length p + length s)") auto

definition escape_like :: "js_string \<Rightarrow> js_string" where
  \<comment> \<open>\<^verbatim>\<open>replace(/[\\%_]/g, (value) => `\\${value}`)\<close>\<close>
  "escape_like q = concat (map (\<lambda>c. if c = 92 \<or> c = 37 \<or> c = 95 then [92, c] else [c]) q)"

section \<open>Repository\<close>

type_synonym notepad_cursor = "bool \<times> iso_time \<times> ident"

definition encodeCursor :: "notepad_row \<Rightarrow> notepad_cursor" where
  "encodeCursor r = (nr_pinned r, nr_created_at r, nr_id r)"

definition notepad_matches ::
  "notepad_db \<Rightarrow> ident \<Rightarrow> js_string option \<Rightarrow> js_string list \<Rightarrow> notepad_row \<Rightarrow> bool" where
  \<comment> \<open>the \<^verbatim>\<open>where\<close> conditions of a listing other than the cursor\<close>
  "notepad_matches db owner query tags e \<longleftrightarrow> nr_owner e = owner
     \<and> (case query of None \<Rightarrow> True
        | Some q \<Rightarrow> (let pattern = sql_text ([37] @ escape_like q @ [37]) in
            sql_like pattern (sql_text (case nr_title e of None \<Rightarrow> [] | Some t \<Rightarrow> t))
            \<or> sql_like pattern (sql_text (nr_body e))))
     \<and> list_all (\<lambda>tag. sql_exists (\<lambda>(i, t). i = nr_id e \<and> t = tag) (nd_tags db)) tags"

definition before_cursor :: "notepad_cursor \<Rightarrow> notepad_row \<Rightarrow> bool" where
  "before_cursor c e = (case c of (pinned, createdAt, i) \<Rightarrow>
     nr_pinned e < pinned \<or> nr_pinned e = pinned
       \<and> (nr_created_at e < createdAt \<or> nr_created_at e = createdAt \<and> nr_id e < i))"

definition notepad_map :: "notepad_db \<Rightarrow> notepad_row \<Rightarrow> notepad_entry" where
  "notepad_map db r = \<lparr>ne_row = r, ne_tags = sql_order_by code_points
     (map snd (sql_select (\<lambda>(i, _). i = nr_id r) (nd_tags db)))\<rparr>"

definition order_desc :: "notepad_row list \<Rightarrow> notepad_row list" where
  \<comment> \<open>\<^verbatim>\<open>order by pinned desc, created_at desc, id desc\<close>\<close>
  "order_desc rs = rev (sql_order_by encodeCursor rs)"

definition notepad_repo_list ::
  "ident \<Rightarrow> js_string option \<Rightarrow> js_string list \<Rightarrow> notepad_cursor option \<Rightarrow> nat \<Rightarrow> notepad_db \<Rightarrow>
   notepad_entry list \<times> notepad_cursor option" where
  "notepad_repo_list owner query tags cursor limit db =
    (let rows = take (limit + 1) (order_desc (sql_select
           (\<lambda>e. notepad_matches db owner query tags e
              \<and> (case cursor of None \<Rightarrow> True | Some c \<Rightarrow> before_cursor c e)) (nd_entries db)));
         hasMore = length rows > limit;
         selected = take limit rows
     in (map (notepad_map db) selected,
         if hasMore \<and> selected \<noteq> [] then Some (encodeCursor (last selected)) else None))"

definition notepad_row_of :: "ident \<Rightarrow> ident \<Rightarrow> notepad_db \<Rightarrow> notepad_row option" where
  "notepad_row_of i owner db = sql_get (\<lambda>r. nr_id r = i \<and> nr_owner r = owner) (nd_entries db)"

definition notepad_get :: "ident \<Rightarrow> ident \<Rightarrow> notepad_db \<Rightarrow> notepad_entry option" where
  "notepad_get owner i db = map_option (notepad_map db) (notepad_row_of i owner db)"

definition notepad_tags :: "ident \<Rightarrow> notepad_db \<Rightarrow> (js_string \<times> nat) list" where
  "notepad_tags owner db =
    (let mine = map snd (sql_select (\<lambda>(i, _). sql_exists (\<lambda>e. nr_id e = i \<and> nr_owner e = owner)
            (nd_entries db)) (nd_tags db))
     in sql_order_by (\<lambda>(tag, n). (- int n, code_points tag))
          (map (\<lambda>tag. (tag, count_list mine tag)) (set_to_array mine)))"

definition replaceTags :: "ident \<Rightarrow> js_string list \<Rightarrow> notepad_db \<Rightarrow> notepad_db option" where
  \<comment> \<open>fails on the primary key when a tag is listed twice\<close>
  "replaceTags i tags db = (if \<not> distinct tags then None
     else Some (db\<lparr>nd_tags := sql_delete (\<lambda>(j, _). j = i) (nd_tags db) @ map (Pair i) tags\<rparr>))"

definition one_pinned :: "notepad_row table \<Rightarrow> bool" where
  \<comment> \<open>the partial unique index on the owner of pinned entries\<close>
  "one_pinned t \<longleftrightarrow> distinct (map nr_owner (filter nr_pinned t))"

definition notepad_draft_ok ::
  "ident \<Rightarrow> (ident \<times> js_number) option \<Rightarrow> iso_time \<Rightarrow> draft_row table \<Rightarrow> bool" where
  \<comment> \<open>the draft to consume exists, is the owner's unexpired notepad draft and has the given revision\<close>
  "notepad_draft_ok owner draft now t = (case draft of None \<Rightarrow> True | Some (i, n) \<Rightarrow>
     (case sql_get (\<lambda>d. dr_id d = i \<and> dr_owner d = owner \<and> dr_context d = DC_notepad
          \<and> dr_expires_at d > now) t of
        None \<Rightarrow> False | Some d \<Rightarrow> n = JsInt (dr_revision d)))"

definition notepad_repo_create ::
  "notepad_entry \<Rightarrow> (ident \<times> js_number) option \<Rightarrow> nat \<Rightarrow> iso_time \<Rightarrow> notepad_db \<Rightarrow>
   note_failure + (note_outcome \<times> notepad_db)" where
  "notepad_repo_create entry draft quota now db =
    (let row = (ne_row entry)\<lparr>nr_revision := 1\<rparr>; owner = nr_owner row; drafts = nd_drafts db
     in if \<not> notepad_draft_ok owner draft now (dd_drafts drafts) then Inr (Note_conflict, db)
        else if sql_count (\<lambda>r. nr_owner r = owner) (nd_entries db) \<ge> quota then Inr (Note_quota, db)
        else if sql_exists (\<lambda>r. nr_id r = nr_id row) (nd_entries db)
          \<or> owner \<notin> set (dd_identity_ids drafts)
          \<or> \<not> one_pinned (sql_insert row (nd_entries db))
        then Inl NoteSqliteConstraint
        else case replaceTags (nr_id row) (ne_tags entry) (db\<lparr>nd_entries := sql_insert row (nd_entries db)\<rparr>) of
            None \<Rightarrow> Inl NoteSqliteConstraint
          | Some db1 \<Rightarrow>
              let db2 = (case draft of None \<Rightarrow> db1 | Some (i, _) \<Rightarrow>
                db1\<lparr>nd_drafts := drafts\<lparr>dd_drafts :=
                  sql_delete (\<lambda>d. dr_id d = i \<and> dr_owner d = owner) (dd_drafts drafts)\<rparr>\<rparr>)
              in case notepad_row_of (nr_id row) owner db2 of
                   None \<Rightarrow> Inl NoteSqliteConstraint
                 | Some r \<Rightarrow> Inr (Note_ok (notepad_map db2 r), db2))"

record notepad_update_value =
  nu_title :: "js_string option"
  nu_body :: js_string
  nu_tags :: "js_string list"
  nu_pinned :: "bool option"
  nu_expiresAt :: "iso_time option option"

definition notepad_unpin :: "iso_time \<Rightarrow> notepad_row \<Rightarrow> notepad_row" where
  "notepad_unpin now r = r\<lparr>nr_pinned := False, nr_revision := nr_revision r + 1, nr_updated_at := now\<rparr>"

definition notepad_rewrite ::
  "notepad_update_value \<Rightarrow> bool \<Rightarrow> iso_time option \<Rightarrow> iso_time \<Rightarrow> notepad_row \<Rightarrow> notepad_row" where
  "notepad_rewrite v pinned expiresAt now r = r\<lparr>nr_title := nu_title v, nr_body := nu_body v,
     nr_pinned := pinned, nr_expires_at := expiresAt, nr_revision := nr_revision r + 1,
     nr_updated_at := now\<rparr>"

definition notepad_repo_update ::
  "ident \<Rightarrow> ident \<Rightarrow> int \<Rightarrow> notepad_update_value \<Rightarrow> iso_time \<Rightarrow> notepad_db \<Rightarrow>
   note_failure + (note_outcome \<times> notepad_db)" where
  "notepad_repo_update owner i expectedRevision v now db =
    (case notepad_row_of i owner db of
       None \<Rightarrow> Inr (Note_missing, db)
     | Some existing \<Rightarrow>
        if nr_revision existing \<noteq> expectedRevision then Inr (Note_conflict, db)
        else let pinned = (case nu_pinned v of None \<Rightarrow> nr_pinned existing | Some b \<Rightarrow> b);
                 t1 = (if pinned then sql_update (\<lambda>r. nr_owner r = owner \<and> nr_pinned r \<and> nr_id r \<noteq> i)
                         (notepad_unpin now) (nd_entries db) else nd_entries db);
                 expiresAt = (case nu_expiresAt v of None \<Rightarrow> nr_expires_at existing | Some e \<Rightarrow> e);
                 hit = (\<lambda>r. nr_id r = i \<and> nr_owner r = owner \<and> nr_revision r = expectedRevision);
                 t2 = sql_update hit (notepad_rewrite v pinned expiresAt now) t1
             in if sql_count hit t1 = 0 then Inr (Note_conflict, db\<lparr>nd_entries := t1\<rparr>)
                else if \<not> one_pinned t2 then Inl NoteSqliteConstraint
                else case replaceTags i (nu_tags v) (db\<lparr>nd_entries := t2\<rparr>) of
                    None \<Rightarrow> Inl NoteSqliteConstraint
                  | Some db2 \<Rightarrow> (case notepad_row_of i owner db2 of
                        None \<Rightarrow> Inl NoteSqliteConstraint
                      | Some r \<Rightarrow> Inr (Note_ok (notepad_map db2 r), db2)))"

definition notepad_repo_delete ::
  "ident \<Rightarrow> ident \<Rightarrow> js_number \<Rightarrow> notepad_db \<Rightarrow> delete_outcome \<times> notepad_db" where
  "notepad_repo_delete owner i expectedRevision db =
    (case notepad_row_of i owner db of
       None \<Rightarrow> (Delete_missing, db)
     | Some existing \<Rightarrow>
         if JsInt (nr_revision existing) \<noteq> expectedRevision then (Delete_conflict, db)
         else (Deleted, db\<lparr>nd_tags := sql_delete (\<lambda>(j, _). j = i) (nd_tags db),
                nd_entries := sql_delete (\<lambda>r. nr_id r = i \<and> nr_owner r = owner) (nd_entries db)\<rparr>))"

definition entry_expired :: "iso_time \<Rightarrow> notepad_row \<Rightarrow> bool" where
  "entry_expired now r = (case nr_expires_at r of None \<Rightarrow> False | Some e \<Rightarrow> e \<le> now)"

definition notepad_purgeExpired :: "iso_time \<Rightarrow> notepad_db \<Rightarrow> nat \<times> notepad_db" where
  "notepad_purgeExpired now db =
    (let ids = map nr_id (sql_select (entry_expired now) (nd_entries db)) in
     if ids = [] then (0, db)
     else (length ids, db\<lparr>nd_tags := sql_delete (\<lambda>(j, _). j \<in> set ids) (nd_tags db),
            nd_entries := sql_delete (entry_expired now) (nd_entries db)\<rparr>))"

section \<open>Service\<close>

definition notepad_validate ::
  "unicode \<Rightarrow> notepad_write_input \<Rightarrow> notepad_error + (js_string option \<times> js_string \<times> js_string list)" where
  "notepad_validate U input =
    (let title = (case nw_title input of None \<Rightarrow> None
           | Some t \<Rightarrow> if js_trim t = [] then None else Some (js_trim t)) in
     if (case title of None \<Rightarrow> 0 | Some t \<Rightarrow> length t) > np_titleCharacters NOTEPAD_LIMITS
     then Inl (NotepadValidationError ''Note title must be at most 255 characters'')
     else if js_trim (nw_body input) = [] then Inl (NotepadValidationError ''Note body is required'')
     else if utf8_bytes (nw_body input) > np_bodyUtf8Bytes NOTEPAD_LIMITS
     then Inl (NotepadValidationError ''Note body must be at most 64 KiB UTF-8'')
     else case normalizeNotepadTags U (case nw_tags input of None \<Rightarrow> [] | Some ts \<Rightarrow> ts) of
         Inl e \<Rightarrow> Inl e
       | Inr tags \<Rightarrow> Inr (title, nw_body input, tags))"

text \<open>A requested page size is any JavaScript number: finite ones are truncated towards zero.\<close>

datatype js_real = Finite rat | NonFinite

definition math_trunc :: "rat \<Rightarrow> int" where
  "math_trunc x = (if 0 \<le> x then \<lfloor>x\<rfloor> else \<lceil>x\<rceil>)"

definition page_limit :: "js_real option \<Rightarrow> nat" where
  "page_limit limit = (case limit of
     None \<Rightarrow> 30 | Some NonFinite \<Rightarrow> 30 | Some (Finite x) \<Rightarrow> nat (max 1 (min 100 (math_trunc x))))"

definition notepad_list ::
  "unicode \<Rightarrow> ident \<Rightarrow> js_string option \<Rightarrow> js_string list option \<Rightarrow> notepad_cursor option \<Rightarrow> js_real option \<Rightarrow>
   notepad_db \<Rightarrow> notepad_error + (notepad_entry list \<times> notepad_cursor option)" where
  "notepad_list U owner query tags cursor limit db =
    (case normalizeNotepadTags U (case tags of None \<Rightarrow> [] | Some ts \<Rightarrow> ts) of
       Inl e \<Rightarrow> Inl e
     | Inr ts \<Rightarrow>
         let q = (case query of None \<Rightarrow> None | Some s \<Rightarrow> if js_trim s = [] then None else Some (js_trim s))
         in Inr (notepad_repo_list owner q ts cursor (page_limit limit) db))"

definition note_result ::
  "note_failure + (note_outcome \<times> notepad_db) \<Rightarrow> string \<Rightarrow> note_failure + (notepad_entry \<times> notepad_db)" where
  \<comment> \<open>the service's translation of outcomes into thrown errors; every refused outcome that can
    occur leaves the tables as they were (\<open>repo_update_refused\<close> in the laws)\<close>
  "note_result x conflict = (case x of
     Inl e \<Rightarrow> Inl e
   | Inr (Note_ok e, db) \<Rightarrow> Inr (e, db)
   | Inr (Note_missing, db) \<Rightarrow> Inl (NoteError (NotepadNotFoundError ''Note not found''))
   | Inr (Note_conflict, db) \<Rightarrow> Inl (NoteError (NotepadConflictError conflict))
   | Inr (Note_quota, db) \<Rightarrow> Inl (NoteError (NotepadQuotaError ''Notepad entry quota reached'')))"

definition notepad_create ::
  "unicode \<Rightarrow> iso_time \<Rightarrow> ident \<Rightarrow> ident \<Rightarrow> notepad_write_input \<Rightarrow> expiration_preset option \<Rightarrow>
   (ident \<times> js_number) option \<Rightarrow> notepad_db \<Rightarrow> note_failure + (notepad_entry \<times> notepad_db)" where
  "notepad_create U now new_id owner input expiration draft db =
    (case notepad_validate U input of
       Inl e \<Rightarrow> Inl (NoteError e)
     | Inr (title, body, tags) \<Rightarrow>
         note_result (notepad_repo_create
           \<lparr>ne_row = \<lparr>nr_id = new_id, nr_owner = owner, nr_title = title, nr_body = body, nr_pinned = False,
              nr_revision = 1, nr_created_at = now, nr_updated_at = now,
              nr_expires_at = notepadExpiresAt (case expiration of None \<Rightarrow> one_month | Some p \<Rightarrow> p) now\<rparr>,
            ne_tags = tags\<rparr> draft (np_entriesPerIdentity NOTEPAD_LIMITS) now db)
           ''Draft changed in another session'')"

datatype expiration_request = Keep | Preset expiration_preset

definition notepad_update ::
  "unicode \<Rightarrow> iso_time \<Rightarrow> ident \<Rightarrow> ident \<Rightarrow> js_number \<Rightarrow> notepad_write_input \<Rightarrow> expiration_request option \<Rightarrow>
   bool option \<Rightarrow> notepad_db \<Rightarrow> note_failure + (notepad_entry \<times> notepad_db)" where
  "notepad_update U now owner i expectedRevision input expiration pinned db =
    (case expectedRevision of
       JsNonInteger \<Rightarrow> Inl (NoteError (NotepadValidationError ''Invalid revision''))
     | JsInt r \<Rightarrow>
         if r < 1 then Inl (NoteError (NotepadValidationError ''Invalid revision''))
         else case notepad_validate U input of
             Inl e \<Rightarrow> Inl (NoteError e)
           | Inr (title, body, tags) \<Rightarrow>
               note_result (notepad_repo_update owner i r
                 \<lparr>nu_title = title, nu_body = body, nu_tags = tags, nu_pinned = pinned,
                  nu_expiresAt = (case expiration of Some (Preset p) \<Rightarrow> Some (notepadExpiresAt p now)
                    | _ \<Rightarrow> None)\<rparr> now db) ''Note changed in another session'')"

definition notepad_delete ::
  "ident \<Rightarrow> ident \<Rightarrow> js_number \<Rightarrow> notepad_db \<Rightarrow> note_failure + (unit \<times> notepad_db)" where
  "notepad_delete owner i expectedRevision db =
    (case notepad_repo_delete owner i expectedRevision db of
       (Deleted, db') \<Rightarrow> Inr ((), db')
     | (Delete_missing, _) \<Rightarrow> Inl (NoteError (NotepadNotFoundError ''Note not found''))
     | (Delete_conflict, _) \<Rightarrow> Inl (NoteError (NotepadConflictError ''Note changed in another session'')))"

end
