(* ===== verification/Draft_Laws.thy ===== *)
theory Draft_Laws
  imports Message_Drafts
begin

text \<open>
  What the draft store promises: one reply draft per owner and topic and one notepad draft per
  owner within the quota, a saved draft is read back until it expires, a save on a stale revision
  is refused, and no operation touches an unexpired draft other than the one it names.
\<close>

definition draft_text_ok :: "draft_row \<Rightarrow> bool" where
  "draft_text_ok r \<longleftrightarrow> (case dr_title r of None \<Rightarrow> True | Some s \<Rightarrow> length s \<le> 255)
     \<and> utf8_bytes (dr_body r) \<le> 65536 \<and> 1 \<le> dr_revision r"

definition draft_inv :: "draft_db \<Rightarrow> bool" where
  "draft_inv db \<longleftrightarrow> unique_key dr_id (dd_drafts db)
     \<and> (\<forall>r \<in> set (dd_drafts db). draft_shape_ok r \<and> draft_text_ok r)
     \<and> (\<forall>r \<in> set (dd_drafts db). \<forall>x \<in> set (dd_drafts db). draft_same_slot r x \<longrightarrow> x = r)
     \<and> (\<forall>owner. sql_count (\<lambda>r. dr_owner r = owner) (dd_drafts db) \<le> 500)"

definition draft_purged :: "iso_time \<Rightarrow> draft_db \<Rightarrow> draft_db" where
  "draft_purged now db = snd (draft_purgeExpired now db)"

lemma draft_inv_key: "draft_inv db \<Longrightarrow> unique_key dr_id (dd_drafts db)"
  by (simp add: draft_inv_def)

lemma dd_drafts_purged [simp]:
  "dd_drafts (draft_purged now db) = sql_delete (\<lambda>r. dr_expires_at r \<le> now) (dd_drafts db)"
  by (simp add: draft_purged_def draft_purgeExpired_def)

lemma draft_inv_delete:
  assumes "draft_inv db"
  shows "draft_inv (db\<lparr>dd_drafts := sql_delete p (dd_drafts db)\<rparr>)"
proof -
  have "sql_count (\<lambda>r. dr_owner r = w) (sql_delete p (dd_drafts db)) \<le> 500" for w
    using assms sql_count_delete_le [of "\<lambda>r. dr_owner r = w" p "dd_drafts db"]
    by (auto simp: draft_inv_def intro: le_trans)
  with assms show ?thesis
    by (simp add: draft_inv_def unique_key_delete)
qed

lemma draft_inv_purged: "draft_inv db \<Longrightarrow> draft_inv (draft_purged now db)"
  by (simp add: draft_purged_def draft_purgeExpired_def draft_inv_delete)

lemma draft_inv_insert:
  assumes "draft_inv db" and "draft_row_ok db row" and "draft_text_ok row"
    and "sql_count (\<lambda>r. dr_owner r = dr_owner row) (dd_drafts db) < 500"
  shows "draft_inv (db\<lparr>dd_drafts := sql_insert row (dd_drafts db)\<rparr>)"
proof -
  have fresh: "\<not> draft_same_slot row x" "\<not> draft_same_slot x row" if "x \<in> set (dd_drafts db)" for x
    using assms(2) that by (auto simp: draft_row_ok_def draft_same_slot_def)
  have k: "unique_key dr_id (sql_insert row (dd_drafts db))"
    using assms(1) fresh by (intro unique_key_insert) (auto simp: draft_inv_def draft_same_slot_def)
  have c: "sql_count (\<lambda>r. dr_owner r = w) (sql_insert row (dd_drafts db)) \<le> 500" for w
    using assms(1,4) by (auto simp: draft_inv_def)
  show ?thesis
    using k c fresh assms(1,2,3) by (auto simp: draft_inv_def draft_row_ok_def)
qed

lemma same_slot_rewrite [simp]:
  "draft_same_slot (draft_rewrite d v now r) x = draft_same_slot r x"
  "draft_same_slot r (draft_rewrite d v now x) = draft_same_slot r x"
  by (simp_all add: draft_same_slot_def draft_rewrite_def)

lemma rewrite_simps [simp]:
  "dr_id (draft_rewrite d v now r) = dr_id r" "dr_owner (draft_rewrite d v now r) = dr_owner r"
  "dr_context (draft_rewrite d v now r) = dr_context r" "dr_topic (draft_rewrite d v now r) = dr_topic r"
  "dr_forum (draft_rewrite d v now r) = dr_forum r"
  "dr_expires_at (draft_rewrite d v now r) = md_expires_at d"
  "dr_revision (draft_rewrite d v now r) = dr_revision r + 1"
  "dr_body (draft_rewrite d v now r) = dw_body v"
  "dr_title (draft_rewrite d v now r) = draft_title_column d v"
  by (simp_all add: draft_rewrite_def)

lemma draft_inv_rewrite:
  assumes inv: "draft_inv db" and e: "e \<in> set (dd_drafts db)" and "dr_context e = md_context d"
    and "draft_text_ok (draft_rewrite d v now e)" and "dr_owner e = w" and "dr_revision e = n"
  shows "draft_inv (db\<lparr>dd_drafts := sql_update
    (\<lambda>r. dr_id r = dr_id e \<and> dr_owner r = w \<and> dr_revision r = n) (draft_rewrite d v now) (dd_drafts db)\<rparr>)"
    (is "draft_inv (db\<lparr>dd_drafts := ?t\<rparr>)")
proof -
  have key: "unique_key dr_id (dd_drafts db)" using inv by (rule draft_inv_key)
  have s: "set ?t = insert (draft_rewrite d v now e) {r \<in> set (dd_drafts db). dr_id r \<noteq> dr_id e}"
    using assms by (intro sql_update_key_hit [OF key e]) auto
  have k: "unique_key dr_id ?t" using key by (intro unique_key_update) simp_all
  have c: "sql_count (\<lambda>r. dr_owner r = w') ?t \<le> 500" for w'
    using inv by (subst sql_count_update_same) (auto simp: draft_inv_def)
  have sh: "draft_shape_ok (draft_rewrite d v now e)"
    using inv e assms(3) by (auto simp: draft_inv_def draft_shape_ok_def draft_rewrite_def
        draft_title_column_def draft_options_column_def split: draft_context.splits)
  have slot: "draft_same_slot r x \<Longrightarrow> x = r" if "r \<in> set (dd_drafts db)" "x \<in> set (dd_drafts db)" for r x
    using inv that by (auto simp: draft_inv_def)
  have "x = r" if "r \<in> set ?t" "x \<in> set ?t" "draft_same_slot r x" for r x
    using that slot e unfolding s by fastforce
  moreover have "draft_shape_ok r \<and> draft_text_ok r" if "r \<in> set ?t" for r
    using that inv sh assms(4) unfolding s by (auto simp: draft_inv_def)
  ultimately show ?thesis using k c by (simp add: draft_inv_def)
qed

section \<open>The outcomes of a save\<close>

lemma draft_existing_SomeD:
  assumes "draft_existing d r t = Some e"
  shows "e \<in> set t \<and> dr_owner e = md_owner d \<and> dr_context e = md_context d
    \<and> (md_context d = DC_reply \<longrightarrow> dr_topic e = md_topic d)"
  using assms by (auto simp: draft_existing_def dest!: sql_get_SomeD split: draft_context.splits if_splits)

lemma draft_reread_unique:
  assumes "unique_key dr_id (dd_drafts db)" and "r \<in> set (dd_drafts db)"
  shows "draft_reread (dr_id r) (dr_owner r) db = Draft_saved (mapMessageDraftRowToDomain r)"
proof -
  have "sql_get (\<lambda>x. dr_id x = dr_id r \<and> dr_owner x = dr_owner r) (dd_drafts db) = Some r"
    using assms by (intro sql_get_only) (auto dest: unique_keyD)
  then show ?thesis by (simp add: draft_reread_def draft_oneRaw_def draft_one_def)
qed

lemma draft_repo_save_cases:
  assumes save: "draft_repo_save d r v now quota db = Inr (out, db')" and inv: "draft_inv db"
  obtains
    (refused) "out = Draft_conflict \<or> out = Draft_quota" and "db' = draft_purged now db"
  | (same) e where "draft_existing d r (dd_drafts (draft_purged now db)) = Some e"
      and "dr_revision e = r" and "draft_unchanged d v e"
      and "out = Draft_saved (mapMessageDraftRowToDomain e)" and "db' = draft_purged now db"
  | (rewritten) e where "draft_existing d r (dd_drafts (draft_purged now db)) = Some e"
      and "dr_revision e = r" and "out = Draft_saved (mapMessageDraftRowToDomain (draft_rewrite d v now e))"
      and "db' = (draft_purged now db)\<lparr>dd_drafts := sql_update (\<lambda>x. dr_id x = dr_id e
        \<and> dr_owner x = md_owner d \<and> dr_revision x = r) (draft_rewrite d v now) (dd_drafts (draft_purged now db))\<rparr>"
  | (inserted) "r = 0" and "draft_row_ok (draft_purged now db) (draft_new_row d v now)"
      and "sql_count (\<lambda>x. dr_owner x = md_owner d) (dd_drafts (draft_purged now db)) < quota"
      and "out = Draft_saved (mapMessageDraftRowToDomain (draft_new_row d v now))"
      and "db' = (draft_purged now db)\<lparr>dd_drafts := sql_insert (draft_new_row d v now)
        (dd_drafts (draft_purged now db))\<rparr>"
proof (cases "draft_existing d r (dd_drafts (draft_purged now db))")
  case None
  let ?row = "draft_new_row d v now" and ?db = "draft_purged now db"
  have row: "dr_id ?row = md_id d" "dr_owner ?row = md_owner d" by (simp_all add: draft_new_row_def)
  show thesis
  proof (cases "r = 0 \<and> sql_count (\<lambda>x. dr_owner x = md_owner d) (dd_drafts ?db) < quota
      \<and> draft_row_ok ?db ?row \<and> db' = ?db\<lparr>dd_drafts := sql_insert ?row (dd_drafts ?db)\<rparr>")
    case True
    then have "unique_key dr_id (dd_drafts db')"
      using draft_inv_purged [OF inv, of now]
      by (auto simp: draft_inv_def draft_row_ok_def draft_same_slot_def simp del: dd_drafts_purged
        intro!: unique_key_insert)
    then have "draft_reread (md_id d) (md_owner d) db' = Draft_saved (mapMessageDraftRowToDomain ?row)"
      using True draft_reread_unique [of db' ?row] row by simp
    with True None save inserted refused show thesis
      by (auto simp: draft_repo_save_def draft_purged_def [symmetric] Let_def
          simp del: dd_drafts_purged split: if_splits)
  next
    case False
    with None save refused show thesis
      by (auto simp: draft_repo_save_def draft_purged_def [symmetric] Let_def
          simp del: dd_drafts_purged split: if_splits)
  qed
next
  case (Some e)
  let ?db = "draft_purged now db"
  let ?hit = "\<lambda>x. dr_id x = dr_id e \<and> dr_owner x = md_owner d \<and> dr_revision x = r"
  let ?db2 = "?db\<lparr>dd_drafts := sql_update ?hit (draft_rewrite d v now) (dd_drafts ?db)\<rparr>"
  note e = draft_existing_SomeD [OF Some]
  have key: "unique_key dr_id (dd_drafts ?db)"
    using draft_inv_purged [OF inv] by (rule draft_inv_key)
  have reread: "draft_reread (dr_id e) (md_owner d) ?db2
      = Draft_saved (mapMessageDraftRowToDomain (draft_rewrite d v now e))" if "dr_revision e = r"
  proof -
    have "draft_rewrite d v now e \<in> set (dd_drafts ?db2)"
      using e that by (auto simp: set_sql_update)
    moreover have "unique_key dr_id (dd_drafts ?db2)" using key by (auto intro!: unique_key_update)
    ultimately show ?thesis using draft_reread_unique [of ?db2 "draft_rewrite d v now e"] e by simp
  qed
  show thesis
    using save Some refused same [OF Some] rewritten [OF Some] reread
    by (auto simp: draft_repo_save_def draft_purged_def [symmetric] Let_def
        simp del: dd_drafts_purged split: if_splits)
qed

section \<open>Preservation\<close>

definition draft_value_ok :: "draft_write_input \<Rightarrow> bool" where
  "draft_value_ok v \<longleftrightarrow> (case dw_title v of None \<Rightarrow> True | Some s \<Rightarrow> length s \<le> 255)
     \<and> utf8_bytes (dw_body v) \<le> 65536"

lemma draft_validate_ok: "draft_validate ctx input = Inr v \<Longrightarrow> v = input \<and> draft_value_ok v"
  by (auto simp: draft_validate_def draft_value_ok_def MESSAGE_DRAFT_LIMITS_def Let_def
      split: if_splits option.splits)

lemma draft_text_new: "draft_value_ok v \<Longrightarrow> draft_text_ok (draft_new_row d v now)"
  by (simp add: draft_value_ok_def draft_text_ok_def draft_new_row_def draft_title_column_def)

lemma draft_text_rewrite:
  "draft_value_ok v \<Longrightarrow> draft_text_ok e \<Longrightarrow> draft_text_ok (draft_rewrite d v now e)"
  by (simp add: draft_value_ok_def draft_text_ok_def draft_title_column_def)

lemma draft_repo_save_inv:
  assumes "draft_repo_save d r v now 500 db = Inr (out, db')" and inv: "draft_inv db" and "draft_value_ok v"
  shows "draft_inv db'"
  using assms(1) inv
proof (cases rule: draft_repo_save_cases)
  case refused
  then show ?thesis by (simp add: draft_inv_purged inv)
next
  case (same e)
  then show ?thesis by (simp add: draft_inv_purged inv)
next
  case (rewritten e)
  note e = draft_existing_SomeD [OF rewritten(1)]
  have "draft_text_ok e" using e draft_inv_purged [OF inv] by (auto simp: draft_inv_def simp del: dd_drafts_purged)
  then show ?thesis unfolding rewritten(4)
    using e rewritten(2) assms(3) by (intro draft_inv_rewrite draft_inv_purged inv draft_text_rewrite) auto
next
  case inserted
  have "dr_owner (draft_new_row d v now) = md_owner d" by (simp add: draft_new_row_def)
  with inserted assms(3) show ?thesis
    by (auto intro!: draft_inv_insert draft_inv_purged inv draft_text_new simp del: dd_drafts_purged)
qed

lemma draft_save_cases:
  assumes "draft_save now owner ctx forum topic n input i db = (res, db')"
  obtains
    (early) e where "res = Inl e" and "db' = db"
  | (repo) r d out where "n = JsInt r" and "0 \<le> r" and "draft_validate ctx input = Inr input"
      and "d = \<lparr>md_id = i, md_owner = owner, md_context = ctx, md_forum = forum, md_topic = topic,
        md_title = (if ctx = DC_reply then None else dw_title input), md_body = dw_body input,
        md_options = (if ctx = DC_notepad then Some (case dw_options input of
          None \<Rightarrow> default_draft_options | Some x \<Rightarrow> x) else None),
        md_revision = 1, md_created_at = now, md_updated_at = now, md_expires_at = now + RETENTION_MS\<rparr>"
      and "draft_repo_save d r input now 500 db = Inr (out, db')"
      and "res = (case out of Draft_saved x \<Rightarrow> Inr x | Draft_conflict \<Rightarrow> Inl MessageDraftConflictError
        | Draft_quota \<Rightarrow> Inl (MessageDraftQuotaError 500))"
proof (cases n)
  case (JsInt r)
  have lim: "dl_activePerIdentity MESSAGE_DRAFT_LIMITS = 500" by (simp add: MESSAGE_DRAFT_LIMITS_def)
  show thesis
  proof (cases "r < 0 \<or> (\<exists>e. draft_validate ctx input = Inl e)")
    case True
    with assms JsInt early show thesis by (auto simp: draft_save_def split: if_splits)
  next
    case False
    then have v: "draft_validate ctx input = Inr input" and r: "0 \<le> r"
      using draft_validate_ok by (metis sum.exhaust, simp)
    show thesis
      using assms JsInt v r early repo [OF JsInt r v refl]
      by (auto simp: draft_save_def Let_def draft_outcome_error_def lim
          split: sum.splits prod.splits draft_outcome.splits)
  qed
qed (use assms early in \<open>auto simp: draft_save_def\<close>)

lemma draft_save_inv:
  assumes "draft_inv db" and "draft_save now owner ctx forum topic n input i db = (res, db')"
  shows "draft_inv db'"
  using assms(2)
proof (cases rule: draft_save_cases)
  case (repo r d out)
  with assms(1) draft_validate_ok show ?thesis by (meson draft_repo_save_inv)
qed (use assms in simp)

inductive draft_step :: "draft_db \<Rightarrow> draft_db \<Rightarrow> bool" where
  reply: "saveReply now i owner topic n v db = (res, db') \<Longrightarrow> draft_step db db'"
| new_thread: "saveNewThread now i owner forum n v req db = (res, db') \<Longrightarrow> draft_step db db'"
| save_notepad: "saveNotepad U now i owner n v db = (res, db') \<Longrightarrow> draft_step db db'"
| remove: "draft_delete owner i n db = (res', db') \<Longrightarrow> draft_step db db'"
| purge: "draft_purgeExpired now db = (k, db') \<Longrightarrow> draft_step db db'"

lemma draft_delete_db:
  "draft_delete owner i n db = (res, db') \<Longrightarrow>
   db' = db \<or> res = Inr () \<and> db' = db\<lparr>dd_drafts := sql_delete (\<lambda>r. dr_owner r = owner \<and> dr_id r = i) (dd_drafts db)\<rparr>"
  by (auto simp: draft_delete_def draft_repo_delete_def Let_def sql_count_0_iff
      dest!: sql_get_SomeD split: option.splits js_number.splits if_splits)

lemma draft_step_inv: "draft_step db db' \<Longrightarrow> draft_inv db \<Longrightarrow> draft_inv db'"
proof (induction rule: draft_step.induct)
  case (remove owner i n db res' db')
  then show ?case using draft_delete_db [of owner i n db res' db'] draft_inv_delete by auto
next
  case (purge now db k db')
  then have "db' = draft_purged now db" by (simp add: draft_purged_def)
  with purge draft_inv_purged show ?case by simp
next
  case (save_notepad U now i owner n v db res db')
  then show ?case
    by (auto simp: saveNotepad_def Let_def split: sum.splits elim: draft_save_inv [rotated])
qed (auto simp: saveReply_def saveNewThread_def elim: draft_save_inv [rotated])

text \<open>
  C23. Whatever sequence of saves, deletions and purges runs on the drafts, an owner never has two
  reply drafts for one topic nor two notepad drafts, never more than 500 drafts, and every stored
  draft has the columns its context calls for and texts within the limits.
\<close>

theorem drafts_keep_inv: "draft_step\<^sup>*\<^sup>* db db' \<Longrightarrow> draft_inv db \<Longrightarrow> draft_inv db'"
  by (induction rule: rtranclp_induct) (auto intro: draft_step_inv)

section \<open>Reading a saved draft back\<close>

lemma draft_getById_row:
  assumes "unique_key dr_id (dd_drafts db)" and "r \<in> set (dd_drafts db)"
  shows "draft_getById (dr_owner r) (dr_id r) later db =
    (if later < dr_expires_at r then Some (mapMessageDraftRowToDomain r) else None)"
proof (cases "later < dr_expires_at r")
  case True
  then have "sql_get (\<lambda>x. dr_owner x = dr_owner r \<and> dr_id x = dr_id r \<and> later < dr_expires_at x)
      (dd_drafts db) = Some r"
    using assms by (intro sql_get_only) (auto dest: unique_keyD)
  with True show ?thesis by (simp add: draft_getById_def draft_one_def)
next
  case False
  then have "sql_get (\<lambda>x. dr_owner x = dr_owner r \<and> dr_id x = dr_id r \<and> later < dr_expires_at x)
      (dd_drafts db) = None"
    using assms unfolding sql_get_None_iff by (auto dest: unique_keyD)
  with False show ?thesis by (simp add: draft_getById_def draft_one_def)
qed

lemma RETENTION_MS_pos [simp]: "0 < RETENTION_MS"
  by (simp add: RETENTION_MS_def MESSAGE_DRAFT_LIMITS_def)

text \<open>The row a successful save leaves behind.\<close>

lemma draft_save_row:
  assumes inv: "draft_inv db" and save: "draft_save now owner ctx forum topic n input i db = (Inr d, db')"
  obtains row where "row \<in> set (dd_drafts db')" and "d = mapMessageDraftRowToDomain row"
    and "dr_owner row = owner" and "dr_context row = ctx" and "dr_body row = dw_body input"
    and "dr_title row = (if ctx = DC_reply then None else dw_title input)"
    and "dr_options_json row = (if ctx = DC_notepad then Some (dw_options input) else None)"
    and "now < dr_expires_at row"
    and "n = JsInt (dr_revision row) \<or> n = JsInt (dr_revision row - 1) \<and> dr_expires_at row = now + RETENTION_MS"
    and "sql_select (\<lambda>r. now < dr_expires_at r \<and> dr_id r \<noteq> dr_id row) (dd_drafts db') =
         sql_select (\<lambda>r. now < dr_expires_at r \<and> dr_id r \<noteq> dr_id row) (dd_drafts db)"
  using save
proof (cases rule: draft_save_cases)
  case (repo r dr out)
  have purged: "sql_select (\<lambda>x. now < dr_expires_at x \<and> p x) (dd_drafts (draft_purged now db)) =
      sql_select (\<lambda>x. now < dr_expires_at x \<and> p x) (dd_drafts db)" for p
    by (auto simp: sql_select_def sql_delete_def intro!: filter_cong)
  note cols = draft_title_column_def draft_options_column_def
  from repo(5) inv show thesis
  proof (cases rule: draft_repo_save_cases)
    case refused
    with repo show thesis by auto
  next
    case (same e)
    note e = draft_existing_SomeD [OF same(1)]
    show thesis
      using e same repo purged [of "\<lambda>x. dr_id x \<noteq> dr_id e"]
      by (intro that [of e]) (auto simp: draft_unchanged_def cols)
  next
    case (rewritten e)
    note e = draft_existing_SomeD [OF rewritten(1)]
    have "sql_select (\<lambda>x. now < dr_expires_at x \<and> dr_id x \<noteq> dr_id e) (sql_update (\<lambda>x. dr_id x = dr_id e
        \<and> dr_owner x = md_owner dr \<and> dr_revision x = r) (draft_rewrite dr input now) t) =
        sql_select (\<lambda>x. now < dr_expires_at x \<and> dr_id x \<noteq> dr_id e) t" for t
      by (induction t) (auto simp: sql_select_def sql_update_def)
    then show thesis
      using e rewritten repo purged [of "\<lambda>x. dr_id x \<noteq> dr_id e"]
      by (intro that [of "draft_rewrite dr input now e"])
        (auto simp: set_sql_update cols draft_rewrite_def simp del: dd_drafts_purged)
  next
    case inserted
    have "sql_select p (sql_insert x t) = sql_select p t" if "\<not> p x" for p and x :: draft_row and t
      using that by (simp add: sql_select_def sql_insert_def)
    then show thesis
      using inserted repo purged [of "\<lambda>x. dr_id x \<noteq> i"]
      by (intro that [of "draft_new_row dr input now"])
        (auto simp: cols draft_new_row_def simp del: dd_drafts_purged)
  qed
qed simp

text \<open>
  C24. A draft that was saved is the draft that is read back: it has the owner, context, title and
  body of the request and a revision that is the expected one (nothing changed) or the next; until
  it expires every read by its owner returns it, after that none does; and every other unexpired
  draft in the table is what it was.
\<close>

theorem draft_save_roundtrip:
  assumes "draft_inv db" and "draft_save now owner ctx forum topic n input i db = (Inr d, db')"
  shows "md_owner d = owner \<and> md_context d = ctx \<and> md_body d = dw_body input
    \<and> md_title d = (if ctx = DC_reply then None else dw_title input)
    \<and> (n = JsInt (md_revision d) \<or> n = JsInt (md_revision d - 1) \<and> md_expires_at d = now + RETENTION_MS)
    \<and> now < md_expires_at d
    \<and> draft_getById owner (md_id d) later db' = (if later < md_expires_at d then Some d else None)
    \<and> sql_select (\<lambda>r. now < dr_expires_at r \<and> dr_id r \<noteq> md_id d) (dd_drafts db') =
      sql_select (\<lambda>r. now < dr_expires_at r \<and> dr_id r \<noteq> md_id d) (dd_drafts db)"
  using assms
proof (rule draft_save_row)
  fix row assume r: "row \<in> set (dd_drafts db')" "d = mapMessageDraftRowToDomain row" "dr_owner row = owner"
  assume "dr_context row = ctx" "dr_body row = dw_body input" "now < dr_expires_at row"
    "dr_title row = (if ctx = DC_reply then None else dw_title input)"
    "n = JsInt (dr_revision row) \<or> n = JsInt (dr_revision row - 1) \<and> dr_expires_at row = now + RETENTION_MS"
    "sql_select (\<lambda>r. now < dr_expires_at r \<and> dr_id r \<noteq> dr_id row) (dd_drafts db') =
      sql_select (\<lambda>r. now < dr_expires_at r \<and> dr_id r \<noteq> dr_id row) (dd_drafts db)"
  moreover have "draft_getById (dr_owner row) (dr_id row) later db' =
      (if later < dr_expires_at row then Some (mapMessageDraftRowToDomain row) else None)"
    using draft_inv_key [OF draft_save_inv [OF assms]] r(1) by (rule draft_getById_row)
  ultimately show ?thesis using r(2,3) by (simp add: mapMessageDraftRowToDomain_def)
qed

section \<open>Stale revisions\<close>

lemma draft_stale_lookup:
  assumes "draft_inv db" and "e \<in> set (dd_drafts db)" and "now < dr_expires_at e"
    and "dr_owner e = owner" and "dr_context e = DC_reply" and "dr_topic e = Some topic"
  shows "sql_get (\<lambda>x. dr_owner x = owner \<and> dr_context x = DC_reply \<and> dr_topic x = Some topic)
    (dd_drafts (draft_purged now db)) = Some e"
proof (rule sql_get_only)
  fix x assume x: "x \<in> set (dd_drafts (draft_purged now db))"
    and "dr_owner x = owner \<and> dr_context x = DC_reply \<and> dr_topic x = Some topic"
  then have "draft_same_slot e x" using assms by (auto simp: draft_same_slot_def)
  with x assms(1,2) show "x = e" by (auto simp: draft_inv_def)
qed (use assms in auto)

lemma sql_select_delete_same:
  "sql_select (\<lambda>x. now < dr_expires_at x) (sql_delete (\<lambda>x. dr_expires_at x \<le> now) t) =
   sql_select (\<lambda>x. now < dr_expires_at x) t"
  by (auto simp: sql_select_def sql_delete_def intro: filter_cong)

text \<open>
  A save that names a revision other than the stored one never overwrites: when the owner has
  an unexpired reply draft for the topic at another revision, the save is refused (as a conflict
  when the request itself is valid) and every unexpired draft stays as it is.
\<close>

theorem draft_stale_save_refused:
  assumes "draft_inv db" and "e \<in> set (dd_drafts db)" and "now < dr_expires_at e"
    and "dr_owner e = owner" and "dr_context e = DC_reply" and "dr_topic e = Some topic"
    and "dr_revision e \<noteq> r"
  shows "fst (saveReply now i owner topic (JsInt r) v db) =
      (if r < 0 then Inl (MessageDraftValidationError ''Invalid draft revision'')
       else case draft_validate DC_reply v of Inl x \<Rightarrow> Inl x | Inr w \<Rightarrow> Inl MessageDraftConflictError)
    \<and> sql_select (\<lambda>x. now < dr_expires_at x) (dd_drafts (snd (saveReply now i owner topic (JsInt r) v db))) =
      sql_select (\<lambda>x. now < dr_expires_at x) (dd_drafts db)"
proof (cases "r < 0 \<or> (\<exists>x. draft_validate DC_reply v = Inl x)")
  case True
  then show ?thesis by (auto simp: saveReply_def draft_save_def)
next
  case False
  then obtain w where w: "draft_validate DC_reply v = Inr w" by (metis sum.exhaust)
  have ex: "draft_existing d r (dd_drafts (draft_purged now db)) = Some e"
    if "md_context d = DC_reply" "md_owner d = owner" "md_topic d = Some topic" for d
    using that draft_stale_lookup [OF assms(1-6)] by (simp add: draft_existing_def)
  have "saveReply now i owner topic (JsInt r) v db = (Inl MessageDraftConflictError, draft_purged now db)"
    using False w assms(7) by (simp add: saveReply_def draft_save_def draft_repo_save_def Let_def ex
        draft_purged_def [symmetric] draft_outcome_error_def del: dd_drafts_purged)
  with False w show ?thesis by (simp add: sql_select_delete_same)
qed

section \<open>Witnesses\<close>

definition demo_draft_db :: draft_db where
  "demo_draft_db = \<lparr>dd_drafts = [], dd_identity_ids = [''ann''], dd_forum_ids = [], dd_topic_ids = [''t'']\<rparr>"

definition demo_draft_input :: draft_write_input where
  "demo_draft_input = \<lparr>dw_title = None, dw_body = [72, 105], dw_options = None\<rparr>"

lemma demo_draft_inv: "draft_inv demo_draft_db"
  by (simp add: demo_draft_db_def draft_inv_def sql_count_def)

lemma demo_draft_valid: "draft_validate DC_reply demo_draft_input = Inr demo_draft_input"
  by (simp add: draft_validate_def demo_draft_input_def MESSAGE_DRAFT_LIMITS_def js_trim_def
      is_space_def unit_bytes_def Let_def)

definition demo_draft_row :: draft_row where
  "demo_draft_row = \<lparr>dr_id = ''d'', dr_owner = ''ann'', dr_context = DC_reply, dr_forum = None,
     dr_topic = Some ''t'', dr_title = None, dr_body = [72, 105], dr_options_json = None,
     dr_revision = 1, dr_created_at = 7, dr_updated_at = 7, dr_expires_at = 7 + RETENTION_MS\<rparr>"

lemma demo_draft_saved:
  "draft_save 7 ''ann'' DC_reply None (Some ''t'') (JsInt 0) demo_draft_input ''d'' demo_draft_db =
     (Inr (mapMessageDraftRowToDomain demo_draft_row), demo_draft_db\<lparr>dd_drafts := [demo_draft_row]\<rparr>)"
  unfolding draft_save_def js_number.case demo_draft_valid sum.case
  by (simp add: draft_repo_save_def draft_purgeExpired_def demo_draft_db_def demo_draft_input_def
      demo_draft_row_def draft_existing_def draft_new_row_def draft_title_column_def
      draft_options_column_def draft_row_ok_def draft_shape_ok_def sql_simps draft_reread_def
      draft_oneRaw_def draft_one_def draft_outcome_error_def MESSAGE_DRAFT_LIMITS_def Let_def)

theorem drafts_keep_inv_witness:
  "draft_step\<^sup>*\<^sup>* demo_draft_db (demo_draft_db\<lparr>dd_drafts := [demo_draft_row]\<rparr>)
   \<and> draft_inv (demo_draft_db\<lparr>dd_drafts := [demo_draft_row]\<rparr>)"
proof -
  have st: "draft_step\<^sup>*\<^sup>* demo_draft_db (demo_draft_db\<lparr>dd_drafts := [demo_draft_row]\<rparr>)"
    using demo_draft_saved
    by (intro r_into_rtranclp draft_step.reply [of 7 "''d''" "''ann''" "''t''" "JsInt 0" demo_draft_input])
      (simp add: saveReply_def)
  with drafts_keep_inv [OF st demo_draft_inv] show ?thesis by blast
qed

theorem draft_save_roundtrip_witness:
  "draft_getById ''ann'' ''d'' 8 (demo_draft_db\<lparr>dd_drafts := [demo_draft_row]\<rparr>)
     = Some (mapMessageDraftRowToDomain demo_draft_row)"
  using draft_save_roundtrip [OF demo_draft_inv demo_draft_saved, of 8]
  by (simp add: mapMessageDraftRowToDomain_def demo_draft_row_def demo_draft_input_def RETENTION_MS_def MESSAGE_DRAFT_LIMITS_def)

theorem draft_stale_save_refused_witness:
  "fst (saveReply 8 ''x'' ''ann'' ''t'' (JsInt 0) demo_draft_input
     (demo_draft_db\<lparr>dd_drafts := [demo_draft_row]\<rparr>)) = Inl MessageDraftConflictError"
proof -
  let ?db = "demo_draft_db\<lparr>dd_drafts := [demo_draft_row]\<rparr>"
  have "draft_inv ?db" using draft_save_inv [OF demo_draft_inv demo_draft_saved] .
  then show ?thesis
    using draft_stale_save_refused [of ?db demo_draft_row 8 "''ann''" "''t''" 0 "''x''" demo_draft_input]
      demo_draft_valid
    by (simp add: demo_draft_row_def RETENTION_MS_def MESSAGE_DRAFT_LIMITS_def)
qed

end
