(* ===== verification/Notepad_Laws.thy ===== *)
theory Notepad_Laws
  imports Notepad Draft_Laws
begin

text \<open>
  What the notepad promises: pages enumerate the feed without loss or repetition, a search finds
  exactly the notes containing the text, publishing consumes its draft atomically, at most one
  note per owner is pinned, and no update is lost (the revision contract of \<open>Revisioned\<close>).
\<close>

section \<open>Pagination\<close>

lemma page_limit_bounds: "1 \<le> page_limit l" "page_limit l \<le> 100"
  by (auto simp: page_limit_def split: option.splits js_real.splits)

lemma before_cursor_iff: "before_cursor c e \<longleftrightarrow> encodeCursor e < c"
  by (cases c) (auto simp: before_cursor_def encodeCursor_def less_prod_def')

lemma order_desc_filter: "order_desc (filter p rs) = filter p (order_desc rs)"
  by (simp add: order_desc_def sql_order_by_def filter_sort [symmetric] rev_filter)

lemma order_desc_strict:
  assumes "unique_key nr_id t"
  shows "sorted_wrt (\<lambda>x y. encodeCursor y < encodeCursor x) (order_desc (filter p t))"
proof -
  let ?s = "sort_key encodeCursor (filter p t)"
  have "distinct (map nr_id (filter p t))"
    using assms by (simp add: unique_key_def distinct_map_filter)
  then have inj: "inj_on encodeCursor (set (filter p t))" and d: "distinct (filter p t)"
    by (auto simp: distinct_map inj_on_def encodeCursor_def)
  then have "distinct (map encodeCursor ?s)" by (simp add: distinct_map)
  then have "sorted_wrt (<) (map encodeCursor ?s)"
    using sorted_sort_key [of encodeCursor "filter p t"] strict_sorted_iff by blast
  then show ?thesis
    by (simp add: order_desc_def sql_order_by_def sorted_wrt_rev sorted_wrt_map)
qed

text \<open>A client that follows the cursors of the pages.\<close>

fun notepad_pages ::
  "nat \<Rightarrow> ident \<Rightarrow> js_string option \<Rightarrow> js_string list \<Rightarrow> notepad_cursor option \<Rightarrow> nat \<Rightarrow> notepad_db \<Rightarrow>
   notepad_entry list list" where
  "notepad_pages 0 owner q tags cursor limit db = []"
| "notepad_pages (Suc fuel) owner q tags cursor limit db =
    (let (entries, next_cursor) = notepad_repo_list owner q tags cursor limit db in
     entries # (case next_cursor of None \<Rightarrow> []
       | Some c \<Rightarrow> notepad_pages fuel owner q tags (Some c) limit db))"

definition notepad_feed :: "ident \<Rightarrow> js_string option \<Rightarrow> js_string list \<Rightarrow> notepad_db \<Rightarrow> notepad_row list" where
  "notepad_feed owner q tags db = order_desc (sql_select (notepad_matches db owner q tags) (nd_entries db))"

lemma notepad_repo_list_feed:
  "notepad_repo_list owner q tags cursor limit db =
    (let D = filter (\<lambda>e. case cursor of None \<Rightarrow> True | Some c \<Rightarrow> encodeCursor e < c) (notepad_feed owner q tags db)
     in (map (notepad_map db) (take limit D),
         if limit < length D \<and> limit \<noteq> 0 then Some (encodeCursor (last (take limit D))) else None))"
proof -
  let ?c = "\<lambda>e. case cursor of None \<Rightarrow> True | Some c \<Rightarrow> encodeCursor e < c"
  let ?D = "filter ?c (notepad_feed owner q tags db)"
  have rows: "order_desc (sql_select (\<lambda>e. notepad_matches db owner q tags e
      \<and> (case cursor of None \<Rightarrow> True | Some c \<Rightarrow> before_cursor c e)) (nd_entries db)) = ?D"
    by (simp add: notepad_feed_def sql_select_def order_desc_filter [symmetric] conj_commute
        before_cursor_iff cong: option.case_cong)
  have "take limit (take (limit + 1) ?D) = take limit ?D" by (simp add: min_def)
  moreover have "length (take (limit + 1) ?D) > limit \<longleftrightarrow> limit < length ?D" by auto
  moreover have "limit < length ?D \<Longrightarrow> take limit ?D = [] \<longleftrightarrow> limit = 0"
    by (metis le_0_eq length_0_conv less_imp_le not_less0 take_eq_Nil)
  ultimately show ?thesis
    unfolding notepad_repo_list_def rows Let_def by (simp cong: conj_cong)
qed

lemma filter_below_suffix:
  assumes "sorted_wrt (\<lambda>x y. (k y :: 'b::linorder) < k x) (P @ D)" and "0 < n" and "n < length D"
  shows "filter (\<lambda>e. k e < k (last (take n D))) (P @ D) = drop n D"
proof -
  obtain A x where A: "take n D = A @ [x]"
    using assms(2,3) by (cases "take n D" rule: rev_cases) auto
  then have D: "P @ D = (P @ A) @ x # drop n D" by (metis append.assoc append_Cons append_Nil append_take_drop_id)
  have s: "sorted_wrt (\<lambda>x y. k y < k x) ((P @ A) @ x # drop n D)" using assms(1) D by simp
  have "\<forall>e \<in> set (P @ A). \<not> k e < k x" "\<forall>e \<in> set (drop n D). k e < k x"
    using s by (auto simp: sorted_wrt_append)
  then have "filter (\<lambda>e. k e < k x) (P @ A) = []" "filter (\<lambda>e. k e < k x) (drop n D) = drop n D"
    by (auto simp: filter_empty_conv filter_id_conv)
  with A D show ?thesis by (simp del: append_assoc)
qed

lemma notepad_pages_suffix:
  assumes "sorted_wrt (\<lambda>x y. encodeCursor y < encodeCursor x) (notepad_feed owner q tags db)" and "0 < limit"
  shows "notepad_feed owner q tags db = P @ D \<Longrightarrow>
    filter (\<lambda>e. case cursor of None \<Rightarrow> True | Some c \<Rightarrow> encodeCursor e < c) (notepad_feed owner q tags db) = D \<Longrightarrow>
    length D < fuel \<Longrightarrow> concat (notepad_pages fuel owner q tags cursor limit db) = map (notepad_map db) D"
proof (induction fuel arbitrary: cursor P D)
  case (Suc fuel)
  show ?case
  proof (cases "limit < length D")
    case True
    let ?c = "encodeCursor (last (take limit D))"
    have "filter (\<lambda>e. encodeCursor e < ?c) (notepad_feed owner q tags db) = drop limit D"
      using assms True filter_below_suffix [of encodeCursor P D limit] Suc.prems(1) by simp
    then have "concat (notepad_pages fuel owner q tags (Some ?c) limit db) = map (notepad_map db) (drop limit D)"
      using Suc.prems True assms(2) by (intro Suc.IH [of "P @ take limit D"]) auto
    then show ?thesis
      using True assms(2) Suc.prems(2)
      by (simp add: notepad_repo_list_feed Let_def flip: map_append)
  next
    case False
    then show ?thesis using Suc.prems(2) by (simp add: notepad_repo_list_feed Let_def)
  qed
qed simp

text \<open>
  C27. Following the cursors from the first page, whatever page size is requested, shows every
  matching note of the owner exactly once and in the order of the feed (pinned first, then newest
  first), and ends.
\<close>

theorem notepad_pages_complete:
  assumes "unique_key nr_id (nd_entries db)" and "length (nd_entries db) < fuel"
  shows "concat (notepad_pages fuel owner q tags None (page_limit limit) db) =
    map (notepad_map db) (notepad_feed owner q tags db)"
proof (rule notepad_pages_suffix [where P = "[]"])
  show "sorted_wrt (\<lambda>x y. encodeCursor y < encodeCursor x) (notepad_feed owner q tags db)"
    unfolding notepad_feed_def sql_select_def using assms(1) by (rule order_desc_strict)
  have "length (notepad_feed owner q tags db) \<le> length (nd_entries db)"
    by (simp add: notepad_feed_def order_desc_def sql_order_by_def sql_select_def)
  with assms(2) show "length (notepad_feed owner q tags db) < fuel" by simp
qed (use page_limit_bounds(1) [of limit] in auto)

section \<open>Search\<close>

lemma code_points_plain:
  "\<not> is_high_surrogate c \<Longrightarrow> code_points (c # s) = unat c # code_points s"
  by (cases s) auto

lemma marks_not_surrogate:
  "c = 92 \<or> c = 37 \<or> c = 95 \<Longrightarrow> \<not> is_high_surrogate c \<and> \<not> is_low_surrogate c"
  by (auto simp: is_high_surrogate_def is_low_surrogate_def word_le_nat_alt)

definition escape_points :: "nat list \<Rightarrow> nat list" where
  "escape_points q = concat (map (\<lambda>p. if p = 92 \<or> p = 37 \<or> p = 95 then [92, p] else [p]) q)"

lemma escape_like_simps:
  "escape_like [] = []"
  "escape_like (c # s) = (if c = 92 \<or> c = 37 \<or> c = 95 then [92, c] else [c]) @ escape_like s"
  by (simp_all add: escape_like_def)

lemma escape_points_simps:
  "escape_points [] = []"
  "escape_points (p # s) = (if p = 92 \<or> p = 37 \<or> p = 95 then [92, p] else [p]) @ escape_points s"
  by (simp_all add: escape_points_def)

lemma unat_marks: "unat (c :: code_unit) = 92 \<longleftrightarrow> c = 92" "unat c = 37 \<longleftrightarrow> c = 37" "unat c = 95 \<longleftrightarrow> c = 95"
  by (simp_all add: word_unat_eq_iff)

lemma code_points_high:
  "is_high_surrogate c \<Longrightarrow> s = [] \<or> \<not> is_low_surrogate (hd s) \<Longrightarrow> code_points (c # s) = unat c # code_points s"
  by (cases s) auto

lemma code_points_escape: "code_points (escape_like q) = escape_points (code_points q)"
proof (induction q rule: code_points.induct)
  case (2 c)
  then show ?case
    by (auto simp: escape_like_simps escape_points_simps unat_marks is_high_surrogate_def)
next
  case (3 c d s)
  have mark: "\<not> is_low_surrogate 92" by (simp add: is_low_surrogate_def)
  show ?case
  proof (cases "is_high_surrogate c \<and> is_low_surrogate d")
    case True
    with marks_not_surrogate [of c] marks_not_surrogate [of d] have
      "escape_like (c # d # s) = c # d # escape_like s" by (auto simp: escape_like_simps)
    with True "3.IH"(1) show ?thesis by (simp add: escape_points_simps)
  next
    case False
    have hd: "\<not> is_low_surrogate (hd (escape_like (d # s)))" if "is_high_surrogate c"
      using that False mark by (simp add: escape_like_simps)
    have "code_points (c # escape_like (d # s)) = unat c # code_points (escape_like (d # s))"
      using hd code_points_high code_points_plain by (cases "is_high_surrogate c") auto
    moreover have "code_points (92 # c # escape_like (d # s)) = 92 # code_points (c # escape_like (d # s))"
      using code_points_plain [of 92] marks_not_surrogate [of 92] by simp
    ultimately show ?thesis
      using False "3.IH"(2) [OF False]
      by (auto simp: escape_like_simps(2) [of c] escape_points_simps(2) [of "unat c"] unat_marks)
  qed
qed (simp add: escape_like_simps escape_points_simps)

lemma code_points_snoc_mark: "code_points (s @ [37]) = code_points s @ [37]"
  by (induction s rule: code_points.induct) (auto simp: is_low_surrogate_def)

lemma sql_text_pattern: "sql_text ([37] @ escape_like q @ [37]) = 37 # escape_points (sql_text q) @ [37]"
proof -
  let ?f = "\<lambda>p :: nat. if 0xD800 \<le> p \<and> p \<le> 0xDFFF then 0xFFFD else p"
  have f: "map ?f (escape_points ps) = escape_points (map ?f ps)" for ps
    by (induction ps) (auto simp: escape_points_simps)
  have "code_points (37 # escape_like q @ [37]) = 37 # escape_points (code_points q) @ [37]"
    using code_points_plain [of 37] marks_not_surrogate [of 37]
    by (simp add: code_points_snoc_mark code_points_escape)
  then show ?thesis by (simp add: sql_text_def f)
qed

lemma sql_like_any: "sql_like (37 # ps) s \<longleftrightarrow> (\<exists>pre post. s = pre @ post \<and> sql_like ps post)"
proof (induction s)
  case Nil
  show ?case by simp
next
  case (Cons c cs)
  have "sql_like (37 # ps) (c # cs) \<longleftrightarrow> sql_like ps (c # cs) \<or> (\<exists>pre post. cs = pre @ post \<and> sql_like ps post)"
    using Cons.IH by simp
  also have "\<dots> \<longleftrightarrow> (\<exists>pre post. c # cs = pre @ post \<and> sql_like ps post)"
    by (auto simp: Cons_eq_append_conv)
  finally show ?case .
qed

lemma sql_like_literal:
  "sql_like (escape_points q @ ps) s \<longleftrightarrow>
    (\<exists>a b. s = a @ b \<and> map fold_case a = map fold_case q \<and> sql_like ps b)"
proof (induction q arbitrary: s)
  case (Cons p q)
  show ?case
  proof (cases s)
    case Nil
    then show ?thesis by (auto simp: escape_points_simps)
  next
    case [simp]: (Cons c cs)
    have "sql_like (escape_points (p # q) @ ps) s \<longleftrightarrow>
        fold_case p = fold_case c \<and> sql_like (escape_points q @ ps) cs"
      by (auto simp: escape_points_simps)
    also have "\<dots> \<longleftrightarrow> (\<exists>a b. s = a @ b \<and> map fold_case a = map fold_case (p # q) \<and> sql_like ps b)"
      (is "?l \<longleftrightarrow> ?r")
    proof
      assume ?l
      then obtain a b where "cs = a @ b" "map fold_case a = map fold_case q" "sql_like ps b"
        "fold_case p = fold_case c"
        unfolding Cons.IH by blast
      then show ?r by (intro exI [of _ "c # a"] exI [of _ b]) simp
    next
      assume ?r
      then show ?l unfolding Cons.IH by (auto simp: Cons_eq_append_conv)
    qed
    finally show ?thesis .
  qed
qed (simp add: escape_points_simps)

definition contains_text :: "js_string \<Rightarrow> js_string \<Rightarrow> bool" where
  "contains_text t q \<longleftrightarrow>
    (\<exists>pre post. map fold_case (sql_text t) = pre @ map fold_case (sql_text q) @ post)"

lemma sql_like_contains:
  "sql_like (sql_text ([37] @ escape_like q @ [37])) (sql_text t) \<longleftrightarrow> contains_text t q"
proof -
  have all: "sql_like [37] x" for x unfolding sql_like_any by (auto intro: exI [of _ x])
  have "sql_like (sql_text ([37] @ escape_like q @ [37])) (sql_text t) \<longleftrightarrow>
      (\<exists>pre a b. sql_text t = pre @ a @ b \<and> map fold_case a = map fold_case (sql_text q))"
    unfolding sql_text_pattern sql_like_any [of "escape_points (sql_text q) @ [37]"] sql_like_literal
    using all by blast
  also have "\<dots> \<longleftrightarrow> contains_text t q"
  proof
    assume "\<exists>pre a b. sql_text t = pre @ a @ b \<and> map fold_case a = map fold_case (sql_text q)"
    then obtain pre a b where "sql_text t = pre @ a @ b" "map fold_case a = map fold_case (sql_text q)"
      by blast
    then have "map fold_case (sql_text t) = map fold_case pre @ map fold_case (sql_text q) @ map fold_case b"
      by simp
    then show "contains_text t q" unfolding contains_text_def by blast
  next
    assume "contains_text t q"
    then obtain pre post where "map fold_case (sql_text t) = pre @ map fold_case (sql_text q) @ post"
      unfolding contains_text_def by blast
    then obtain us vs where "sql_text t = us @ vs" "map fold_case vs = map fold_case (sql_text q) @ post"
      by (auto dest!: map_eq_append_conv [THEN iffD1])
    moreover from this obtain a b where "vs = a @ b" "map fold_case a = map fold_case (sql_text q)"
      by (auto simp: map_eq_append_conv [of fold_case vs])
    ultimately show "\<exists>pre a b. sql_text t = pre @ a @ b \<and> map fold_case a = map fold_case (sql_text q)"
      by blast
  qed
  finally show ?thesis .
qed

text \<open>
  C28. A notepad search is a plain text search: whatever characters the query holds (\<^verbatim>\<open>%\<close>, \<^verbatim>\<open>_\<close> and the
  escape character included), a note matches exactly when it is the owner's, its title or body
  contains the query up to the case of ASCII letters, and it carries every requested tag.
\<close>

theorem notepad_search_literal:
  "notepad_matches db owner (Some q) tags e \<longleftrightarrow> nr_owner e = owner
     \<and> (contains_text (case nr_title e of None \<Rightarrow> [] | Some t \<Rightarrow> t) q \<or> contains_text (nr_body e) q)
     \<and> Pair (nr_id e) ` set tags \<subseteq> set (nd_tags db)"
proof -
  have "list_all (\<lambda>tag. sql_exists (\<lambda>(i, t). i = nr_id e \<and> t = tag) (nd_tags db)) tags
      \<longleftrightarrow> Pair (nr_id e) ` set tags \<subseteq> set (nd_tags db)"
    by (auto simp: list_all_iff)
  then show ?thesis
    unfolding notepad_matches_def option.case(2) Let_def sql_like_contains by simp
qed

section \<open>Invariant\<close>

definition note_text_ok :: "notepad_row \<Rightarrow> bool" where
  "note_text_ok r \<longleftrightarrow> (case nr_title r of None \<Rightarrow> True | Some t \<Rightarrow> length t \<le> 255)
     \<and> utf8_bytes (nr_body r) \<le> 65536 \<and> 1 \<le> nr_revision r"

definition notepad_inv :: "notepad_db \<Rightarrow> bool" where
  "notepad_inv db \<longleftrightarrow> unique_key nr_id (nd_entries db) \<and> one_pinned (nd_entries db)
     \<and> (\<forall>r \<in> set (nd_entries db). note_text_ok r)
     \<and> (\<forall>owner. sql_count (\<lambda>r. nr_owner r = owner) (nd_entries db) \<le> 5000)
     \<and> distinct (nd_tags db) \<and> fst ` set (nd_tags db) \<subseteq> nr_id ` set (nd_entries db)
     \<and> draft_inv (nd_drafts db)"

lemma notepad_inv_key: "notepad_inv db \<Longrightarrow> unique_key nr_id (nd_entries db)"
  by (simp add: notepad_inv_def)

lemma sql_count_mono: "(\<And>r. r \<in> set t \<Longrightarrow> p r \<Longrightarrow> q r) \<Longrightarrow> sql_count p t \<le> sql_count q t"
  by (induction t) (auto simp: sql_count_def)

lemma at_most_one_iff:
  "c a = (0 :: nat) \<and> (\<forall>w. c w \<le> 1) \<longleftrightarrow> (\<forall>w. (if a = w then 1 else 0) + c w \<le> 1)"
proof
  assume r: "\<forall>w. (if a = w then 1 else 0) + c w \<le> 1"
  have "c w \<le> 1" for w using r [rule_format, of w] by simp
  moreover have "c a = 0" using r [rule_format, of a] by simp
  ultimately show "c a = 0 \<and> (\<forall>w. c w \<le> 1)" by blast
qed auto

lemma one_pinned_iff: "one_pinned t \<longleftrightarrow> (\<forall>w. sql_count (\<lambda>r. nr_owner r = w \<and> nr_pinned r) t \<le> 1)"
proof (induction t)
  case (Cons r t)
  have notin: "nr_owner r \<notin> nr_owner ` {x \<in> set t. nr_pinned x} \<longleftrightarrow>
      sql_count (\<lambda>x. nr_owner x = nr_owner r \<and> nr_pinned x) t = 0"
    unfolding sql_count_0_iff image_iff by (simp add: eq_commute) blast
  have step: "sql_count (\<lambda>x. nr_owner x = w \<and> nr_pinned x) (r # t) =
      (if nr_owner r = w \<and> nr_pinned r then 1 else 0) + sql_count (\<lambda>x. nr_owner x = w \<and> nr_pinned x) t" for w
    by (simp add: sql_count_def)
  show ?case
  proof (cases "nr_pinned r")
    case True
    then have "one_pinned (r # t) \<longleftrightarrow> sql_count (\<lambda>x. nr_owner x = nr_owner r \<and> nr_pinned x) t = 0 \<and> one_pinned t"
      using notin by (simp add: one_pinned_def)
    then show ?thesis unfolding step Cons.IH using True
      at_most_one_iff [of "\<lambda>w. sql_count (\<lambda>x. nr_owner x = w \<and> nr_pinned x) t" "nr_owner r"] by simp
  next
    case False
    then have "one_pinned (r # t) \<longleftrightarrow> one_pinned t" by (simp add: one_pinned_def)
    with False show ?thesis unfolding step Cons.IH by simp
  qed
qed (simp add: one_pinned_def sql_count_def)

lemma one_pinned_sublist: "one_pinned t \<Longrightarrow> one_pinned (sql_delete p t)"
  unfolding one_pinned_iff using sql_count_delete_le le_trans by blast

text \<open>The two updates of a pinning edit: afterwards the edited note is the owner's only pinned one.\<close>

lemma note_row_simps [simp]:
  "nr_id (notepad_unpin now r) = nr_id r" "nr_owner (notepad_unpin now r) = nr_owner r"
  "nr_pinned (notepad_unpin now r) = False" "nr_revision (notepad_unpin now r) = nr_revision r + 1"
  "nr_id (notepad_rewrite v b x now r) = nr_id r" "nr_owner (notepad_rewrite v b x now r) = nr_owner r"
  "nr_pinned (notepad_rewrite v b x now r) = b" "nr_revision (notepad_rewrite v b x now r) = nr_revision r + 1"
  by (simp_all add: notepad_unpin_def notepad_rewrite_def)

definition note_updates ::
  "ident \<Rightarrow> ident \<Rightarrow> int \<Rightarrow> notepad_update_value \<Rightarrow> bool \<Rightarrow> iso_time option \<Rightarrow> iso_time \<Rightarrow>
   notepad_row table \<Rightarrow> notepad_row table" where
  "note_updates owner i n v b x now t =
    sql_update (\<lambda>r. nr_id r = i \<and> nr_owner r = owner \<and> nr_revision r = n) (notepad_rewrite v b x now)
     (if b then sql_update (\<lambda>r. nr_owner r = owner \<and> nr_pinned r \<and> nr_id r \<noteq> i) (notepad_unpin now) t else t)"

lemma note_updates_row:
  "r \<in> set (note_updates owner i n v b x now t) \<Longrightarrow> \<exists>r0 \<in> set t. nr_id r = nr_id r0 \<and> nr_owner r = nr_owner r0
     \<and> nr_revision r0 \<le> nr_revision r
     \<and> (nr_title r = nr_title r0 \<and> nr_body r = nr_body r0 \<or> nr_title r = nu_title v \<and> nr_body r = nu_body v)
     \<and> (b \<and> nr_owner r = owner \<and> nr_pinned r \<longrightarrow> nr_id r = i)"
proof -
  let ?t1 = "if b then sql_update (\<lambda>r. nr_owner r = owner \<and> nr_pinned r \<and> nr_id r \<noteq> i) (notepad_unpin now) t else t"
  assume "r \<in> set (note_updates owner i n v b x now t)"
  then obtain r1 where r1: "r1 \<in> set ?t1" and r: "r = (if nr_id r1 = i \<and> nr_owner r1 = owner \<and> nr_revision r1 = n
      then notepad_rewrite v b x now r1 else r1)"
    unfolding note_updates_def set_sql_update by blast
  obtain r0 where r0: "r0 \<in> set t" and e: "r1 = (if b \<and> nr_owner r0 = owner \<and> nr_pinned r0 \<and> nr_id r0 \<noteq> i
      then notepad_unpin now r0 else r0)"
    using r1 by (cases b) (auto simp: set_sql_update)
  show ?thesis
    by (rule bexI [OF _ r0]) (simp add: r e notepad_unpin_def notepad_rewrite_def)
qed

lemma one_pinned_updates:
  assumes "unique_key nr_id t" and "one_pinned t"
  shows "one_pinned (note_updates owner i n v b x now t)" (is "one_pinned ?t2")
  unfolding one_pinned_iff
proof
  fix w
  have le: "sql_count (\<lambda>r. nr_owner r = w \<and> nr_pinned r) t \<le> 1" using assms(2) by (simp add: one_pinned_iff)
  show "sql_count (\<lambda>r. nr_owner r = w \<and> nr_pinned r) ?t2 \<le> 1"
  proof (cases "b \<and> w = owner")
    case True
    have key: "unique_key nr_id ?t2"
      using assms(1) by (auto simp: note_updates_def intro!: unique_key_update)
    have "sql_count (\<lambda>r. nr_owner r = w \<and> nr_pinned r) ?t2 \<le> sql_count (\<lambda>r. nr_id r = i \<and> True) ?t2"
      using True by (intro sql_count_mono) (auto dest!: note_updates_row)
    with sql_count_key_le_1 [OF key, of i "\<lambda>_. True"] show ?thesis by simp
  next
    case False
    then have "sql_count (\<lambda>r. nr_owner r = w \<and> nr_pinned r) ?t2 \<le> sql_count (\<lambda>r. nr_owner r = w \<and> nr_pinned r) t"
      by (auto simp: note_updates_def intro!: sql_count_update_le order_trans [OF sql_count_update_le])
    with le show ?thesis by simp
  qed
qed

section \<open>The operations on well-formed tables\<close>

lemma notepad_validate_ok:
  assumes "notepad_validate U input = Inr (title, body, tags)"
  shows "distinct tags" and "(case title of None \<Rightarrow> True | Some t \<Rightarrow> length t \<le> 255) \<and> utf8_bytes body \<le> 65536"
  using assms normalizeNotepadTags_ok(1)
  by (auto simp: notepad_validate_def NOTEPAD_LIMITS_def Let_def split: if_splits sum.splits option.splits)

lemma notepad_row_of_unique:
  assumes "unique_key nr_id (nd_entries db)" and "r \<in> set (nd_entries db)"
  shows "notepad_row_of (nr_id r) (nr_owner r) db = Some r"
  unfolding notepad_row_of_def using assms by (intro sql_get_only) (auto dest: unique_keyD)

lemma notepad_row_ofD:
  "notepad_row_of i owner db = Some r \<Longrightarrow> r \<in> set (nd_entries db) \<and> nr_id r = i \<and> nr_owner r = owner"
  unfolding notepad_row_of_def by (drule sql_get_SomeD) simp

definition tags_replaced :: "ident \<Rightarrow> js_string list \<Rightarrow> (ident \<times> js_string) table \<Rightarrow> (ident \<times> js_string) table" where
  "tags_replaced i tags t = sql_delete (\<lambda>(j, _). j = i) t @ map (Pair i) tags"

lemma tags_replaced_ok:
  assumes "distinct t" and "distinct tags" and "fst ` set t \<subseteq> insert i ids"
  shows "distinct (tags_replaced i tags t)" and "fst ` set (tags_replaced i tags t) \<subseteq> insert i ids"
  using assms by (auto simp: tags_replaced_def sql_delete_def distinct_map inj_on_def)

lemma notepad_draft_okD:
  assumes "notepad_draft_ok owner (Some (i, n)) now t"
  obtains d where "d \<in> set t" and "dr_id d = i" and "dr_owner d = owner" and "dr_context d = DC_notepad"
    and "now < dr_expires_at d" and "n = JsInt (dr_revision d)"
  using assms by (auto simp: notepad_draft_ok_def split: option.splits dest!: sql_get_SomeD)

lemma repo_create_ok:
  assumes "notepad_repo_create entry draft quota now db = Inr (out, db')"
  obtains
    (refused) "out = Note_conflict \<or> out = Note_quota" and "db' = db"
  | (created) row where "row = (ne_row entry)\<lparr>nr_revision := 1\<rparr>" and "\<forall>r \<in> set (nd_entries db). nr_id r \<noteq> nr_id row"
      and "sql_count (\<lambda>r. nr_owner r = nr_owner row) (nd_entries db) < quota"
      and "one_pinned (sql_insert row (nd_entries db))" and "distinct (ne_tags entry)"
      and "db' = db\<lparr>nd_entries := sql_insert row (nd_entries db),
        nd_tags := tags_replaced (nr_id row) (ne_tags entry) (nd_tags db),
        nd_drafts := (nd_drafts db)\<lparr>dd_drafts := (case draft of None \<Rightarrow> dd_drafts (nd_drafts db)
          | Some (i, _) \<Rightarrow> sql_delete (\<lambda>d. dr_id d = i \<and> dr_owner d = nr_owner row) (dd_drafts (nd_drafts db)))\<rparr>\<rparr>"
      and "out = Note_ok (notepad_map db' row)"
      and "notepad_draft_ok (nr_owner row) draft now (dd_drafts (nd_drafts db))"
proof -
  let ?row = "(ne_row entry)\<lparr>nr_revision := 1\<rparr>"
  let ?db2 = "db\<lparr>nd_entries := sql_insert ?row (nd_entries db),
        nd_tags := tags_replaced (nr_id ?row) (ne_tags entry) (nd_tags db),
        nd_drafts := (nd_drafts db)\<lparr>dd_drafts := (case draft of None \<Rightarrow> dd_drafts (nd_drafts db)
          | Some (i, _) \<Rightarrow> sql_delete (\<lambda>d. dr_id d = i \<and> dr_owner d = nr_owner ?row) (dd_drafts (nd_drafts db)))\<rparr>\<rparr>"
  show thesis
  proof (cases "out = Note_conflict \<or> out = Note_quota")
    case True
    with assms refused show thesis
      by (auto simp: notepad_repo_create_def Let_def split: if_splits option.splits)
  next
    case False
    have pre: "\<forall>r \<in> set (nd_entries db). nr_id r \<noteq> nr_id ?row"
      "sql_count (\<lambda>r. nr_owner r = nr_owner ?row) (nd_entries db) < quota"
      "one_pinned (sql_insert ?row (nd_entries db))" "distinct (ne_tags entry)"
      "notepad_draft_ok (nr_owner ?row) draft now (dd_drafts (nd_drafts db))"
      using assms False by (auto simp: notepad_repo_create_def Let_def replaceTags_def
          split: if_splits option.splits)
    have db2: "out = (case notepad_row_of (nr_id ?row) (nr_owner ?row) ?db2 of
        None \<Rightarrow> out | Some r \<Rightarrow> Note_ok (notepad_map ?db2 r)) \<and> db' = ?db2"
      using assms False by (auto simp: notepad_repo_create_def Let_def replaceTags_def tags_replaced_def
          split: if_splits option.splits)
    have "notepad_row_of (nr_id ?row) (nr_owner ?row) ?db2 = Some ?row"
      unfolding notepad_row_of_def using pre(1) by (intro sql_get_only) auto
    with db2 show thesis using created [OF refl pre(1-4)] pre(5) by simp
  qed
qed

definition note_pinned_after :: "notepad_update_value \<Rightarrow> notepad_row \<Rightarrow> bool" where
  "note_pinned_after v x = (case nu_pinned v of None \<Rightarrow> nr_pinned x | Some b \<Rightarrow> b)"

definition note_expiry_after :: "notepad_update_value \<Rightarrow> notepad_row \<Rightarrow> iso_time option" where
  "note_expiry_after v x = (case nu_expiresAt v of None \<Rightarrow> nr_expires_at x | Some e \<Rightarrow> e)"

definition note_updated ::
  "ident \<Rightarrow> ident \<Rightarrow> int \<Rightarrow> notepad_update_value \<Rightarrow> notepad_row \<Rightarrow> iso_time \<Rightarrow> notepad_db \<Rightarrow> notepad_db" where
  "note_updated owner i n v x now db = db\<lparr>
     nd_entries := note_updates owner i n v (note_pinned_after v x) (note_expiry_after v x) now (nd_entries db),
     nd_tags := tags_replaced i (nu_tags v) (nd_tags db)\<rparr>"

lemma note_updates_hit:
  assumes "x \<in> set t" and "nr_id x = i" and "nr_owner x = owner" and "nr_revision x = n"
  shows "notepad_rewrite v b e now x \<in> set (note_updates owner i n v b e now t)"
  using assms by (auto simp: note_updates_def set_sql_update split: if_splits intro!: image_eqI [of _ _ x])

lemma repo_update_eq:
  assumes inv: "notepad_inv db" and x: "notepad_row_of i owner db = Some x" and "distinct (nu_tags v)"
  shows "notepad_repo_update owner i n v now db =
    (if nr_revision x \<noteq> n then Inr (Note_conflict, db)
     else let db' = note_updated owner i n v x now db in
       Inr (Note_ok (notepad_map db' (notepad_rewrite v (note_pinned_after v x) (note_expiry_after v x) now x)), db'))"
proof (cases "nr_revision x = n")
  case True
  let ?b = "note_pinned_after v x" and ?e = "note_expiry_after v x"
  let ?t1 = "if ?b then sql_update (\<lambda>r. nr_owner r = owner \<and> nr_pinned r \<and> nr_id r \<noteq> i)
      (notepad_unpin now) (nd_entries db) else nd_entries db"
  let ?db' = "note_updated owner i n v x now db"
  note xs = notepad_row_ofD [OF x]
  have "x \<in> set ?t1" using xs by (auto simp: set_sql_update intro!: image_eqI [of _ _ x])
  then have "sql_count (\<lambda>r. nr_id r = i \<and> nr_owner r = owner \<and> nr_revision r = n) ?t1 \<noteq> 0"
    using xs True unfolding sql_count_0_iff by blast
  moreover have "one_pinned (note_updates owner i n v ?b ?e now (nd_entries db))"
    using inv by (intro one_pinned_updates) (auto simp: notepad_inv_def)
  moreover have "notepad_row_of i owner ?db' = Some (notepad_rewrite v ?b ?e now x)"
  proof -
    have "unique_key nr_id (nd_entries ?db')"
      using notepad_inv_key [OF inv] by (auto simp: note_updated_def note_updates_def intro!: unique_key_update)
    moreover have "notepad_rewrite v ?b ?e now x \<in> set (nd_entries ?db')"
      using xs True by (auto simp: note_updated_def intro!: note_updates_hit)
    ultimately show ?thesis using notepad_row_of_unique [of ?db' "notepad_rewrite v ?b ?e now x"] xs by simp
  qed
  moreover have "replaceTags i (nu_tags v) (db\<lparr>nd_entries := note_updates owner i n v ?b ?e now (nd_entries db)\<rparr>) = Some ?db'"
    using assms(3) by (simp add: replaceTags_def note_updated_def tags_replaced_def)
  ultimately show ?thesis
    using x True unfolding notepad_repo_update_def
    by (simp add: note_pinned_after_def [symmetric] note_expiry_after_def [symmetric] Let_def
        note_updates_def [symmetric])
qed (use x in \<open>simp add: notepad_repo_update_def\<close>)

text \<open>A refused update leaves the tables as they were, and no update fails on a constraint.\<close>

lemma repo_update_refused:
  assumes "notepad_inv db" and "distinct (nu_tags v)"
  shows "\<exists>out db'. notepad_repo_update owner i n v now db = Inr (out, db') \<and> (db' = db \<or> (\<exists>e. out = Note_ok e))"
proof (cases "notepad_row_of i owner db")
  case None
  then show ?thesis by (simp add: notepad_repo_update_def)
next
  case (Some x)
  then show ?thesis using repo_update_eq [OF assms(1) Some assms(2)] by (simp add: Let_def)
qed

lemma notepad_inv_updated:
  assumes inv: "notepad_inv db" and x: "notepad_row_of i owner db = Some x" and "distinct (nu_tags v)"
    and v: "(case nu_title v of None \<Rightarrow> True | Some t \<Rightarrow> length t \<le> 255) \<and> utf8_bytes (nu_body v) \<le> 65536"
  shows "notepad_inv (note_updated owner i n v x now db)" (is "notepad_inv ?db'")
proof -
  let ?t2 = "nd_entries ?db'"
  have t2: "?t2 = note_updates owner i n v (note_pinned_after v x) (note_expiry_after v x) now (nd_entries db)"
    by (simp add: note_updated_def)
  have "note_text_ok r" if "r \<in> set ?t2" for r
    using note_updates_row [OF that [unfolded t2]] inv v by (auto simp: notepad_inv_def note_text_ok_def)
  moreover have ids: "map nr_id ?t2 = map nr_id (nd_entries db)" "map nr_owner ?t2 = map nr_owner (nd_entries db)"
    unfolding t2 note_updates_def by (auto simp: map_sql_update)
  have "sql_count (\<lambda>r. nr_owner r = w) ?t2 = sql_count (\<lambda>r. nr_owner r = w) (nd_entries db)" for w
    unfolding t2 note_updates_def by (simp add: sql_count_update_same)
  then have "sql_count (\<lambda>r. nr_owner r = w) ?t2 \<le> 5000" for w
    using inv by (simp add: notepad_inv_def)
  moreover have "one_pinned ?t2" "unique_key nr_id ?t2"
    using inv ids unfolding t2 by (auto simp: notepad_inv_def unique_key_def intro!: one_pinned_updates)
  moreover have "i \<in> nr_id ` set (nd_entries db)" using notepad_row_ofD [OF x] by blast
  then have "distinct (nd_tags ?db')" "fst ` set (nd_tags ?db') \<subseteq> nr_id ` set (nd_entries db)"
    using inv assms(3) tags_replaced_ok [of "nd_tags db" "nu_tags v" i "nr_id ` set (nd_entries db)"]
    by (auto simp: note_updated_def notepad_inv_def insert_absorb)
  moreover have "nr_id ` set ?t2 = nr_id ` set (nd_entries db)"
    using ids(1) by (metis list.set_map)
  ultimately show ?thesis using inv by (simp add: notepad_inv_def note_updated_def)
qed

lemma notepad_inv_deleted:
  assumes inv: "notepad_inv db" and gone: "\<And>r t. r \<in> set (nd_entries db) \<Longrightarrow> p r \<Longrightarrow> q (nr_id r, t)"
  shows "notepad_inv (db\<lparr>nd_tags := sql_delete q (nd_tags db), nd_entries := sql_delete p (nd_entries db)\<rparr>)"
proof -
  have "sql_count (\<lambda>r. nr_owner r = w) (sql_delete p (nd_entries db)) \<le> 5000" for w
    using inv le_trans [OF sql_count_delete_le] unfolding notepad_inv_def by blast
  moreover have "fst ` set (sql_delete q (nd_tags db)) \<subseteq> nr_id ` set (sql_delete p (nd_entries db))"
  proof
    fix j assume "j \<in> fst ` set (sql_delete q (nd_tags db))"
    then obtain t where t: "(j, t) \<in> set (nd_tags db)" "\<not> q (j, t)" by auto
    then obtain r where "r \<in> set (nd_entries db)" "nr_id r = j"
      using inv by (force simp: notepad_inv_def)
    with t gone show "j \<in> nr_id ` set (sql_delete p (nd_entries db))" by auto
  qed
  ultimately show ?thesis
    using inv by (simp add: notepad_inv_def unique_key_delete one_pinned_sublist)
      (simp add: sql_delete_def)
qed

lemma notepad_inv_created:
  assumes inv: "notepad_inv db" and "\<forall>r \<in> set (nd_entries db). nr_id r \<noteq> nr_id row"
    and "sql_count (\<lambda>r. nr_owner r = nr_owner row) (nd_entries db) < 5000"
    and "one_pinned (sql_insert row (nd_entries db))" and "distinct tags" and "note_text_ok row"
    and "draft_inv drafts"
  shows "notepad_inv (db\<lparr>nd_entries := sql_insert row (nd_entries db),
    nd_tags := tags_replaced (nr_id row) tags (nd_tags db), nd_drafts := drafts\<rparr>)"
proof -
  have "unique_key nr_id (sql_insert row (nd_entries db))"
    using assms(1,2) by (intro unique_key_insert) (auto simp: notepad_inv_def)
  moreover have "distinct (tags_replaced (nr_id row) tags (nd_tags db))"
    "fst ` set (tags_replaced (nr_id row) tags (nd_tags db)) \<subseteq> insert (nr_id row) (nr_id ` set (nd_entries db))"
  proof -
    have t: "distinct (nd_tags db)" "fst ` set (nd_tags db) \<subseteq> insert (nr_id row) (nr_id ` set (nd_entries db))"
      using inv unfolding notepad_inv_def by blast+
    show "distinct (tags_replaced (nr_id row) tags (nd_tags db))"
      "fst ` set (tags_replaced (nr_id row) tags (nd_tags db)) \<subseteq> insert (nr_id row) (nr_id ` set (nd_entries db))"
      using tags_replaced_ok [OF t(1) assms(5) t(2)] .
  qed
  ultimately show ?thesis using assms by (auto simp: notepad_inv_def)
qed

lemma notepad_create_cases:
  assumes "notepad_create U now i owner input expiration draft db = Inr (e, db')"
  obtains title body tags where "notepad_validate U input = Inr (title, body, tags)"
    and "notepad_repo_create \<lparr>ne_row = \<lparr>nr_id = i, nr_owner = owner, nr_title = title, nr_body = body,
        nr_pinned = False, nr_revision = 1, nr_created_at = now, nr_updated_at = now,
        nr_expires_at = notepadExpiresAt (case expiration of None \<Rightarrow> one_month | Some p \<Rightarrow> p) now\<rparr>,
        ne_tags = tags\<rparr> draft 5000 now db = Inr (Note_ok e, db')"
  using assms by (auto simp: notepad_create_def note_result_def NOTEPAD_LIMITS_def
      split: sum.splits prod.splits note_outcome.splits)

lemma notepad_create_inv:
  assumes "notepad_inv db" and "notepad_create U now i owner input expiration draft db = Inr (e, db')"
  shows "notepad_inv db'"
  using assms(2)
proof (rule notepad_create_cases)
  fix title body tags
  assume v: "notepad_validate U input = Inr (title, body, tags)"
  assume "notepad_repo_create \<lparr>ne_row = \<lparr>nr_id = i, nr_owner = owner, nr_title = title, nr_body = body,
        nr_pinned = False, nr_revision = 1, nr_created_at = now, nr_updated_at = now,
        nr_expires_at = notepadExpiresAt (case expiration of None \<Rightarrow> one_month | Some p \<Rightarrow> p) now\<rparr>,
        ne_tags = tags\<rparr> draft 5000 now db = Inr (Note_ok e, db')"
  then show ?thesis
  proof (cases rule: repo_create_ok)
    case (created row)
    have "note_text_ok row" using created(1) notepad_validate_ok [OF v] by (simp add: note_text_ok_def)
    moreover have "draft_inv ((nd_drafts db)\<lparr>dd_drafts := (case draft of None \<Rightarrow> dd_drafts (nd_drafts db)
        | Some (j, _) \<Rightarrow> sql_delete (\<lambda>d. dr_id d = j \<and> dr_owner d = nr_owner row) (dd_drafts (nd_drafts db)))\<rparr>)"
      using assms(1) by (cases draft) (auto simp: notepad_inv_def intro: draft_inv_delete)
    ultimately show ?thesis
      unfolding created(6) using created(2-5) assms(1) by (intro notepad_inv_created) auto
  qed auto
qed

lemma notepad_update_cases:
  assumes inv: "notepad_inv db" and upd: "notepad_update U now owner i n input expiration pinned db = Inr (e, db')"
  obtains r x v where "n = JsInt r" and "notepad_row_of i owner db = Some x" and "nr_revision x = r"
    and "distinct (nu_tags v)" and "nu_pinned v = pinned"
    and "(case nu_title v of None \<Rightarrow> True | Some t \<Rightarrow> length t \<le> 255) \<and> utf8_bytes (nu_body v) \<le> 65536"
    and "db' = note_updated owner i r v x now db"
    and "e = notepad_map db' (notepad_rewrite v (note_pinned_after v x) (note_expiry_after v x) now x)"
proof -
  from upd obtain r title body tags where n: "n = JsInt r" and v: "notepad_validate U input = Inr (title, body, tags)"
    by (auto simp: notepad_update_def split: js_number.splits if_splits sum.splits prod.splits)
  define val where "val = \<lparr>nu_title = title, nu_body = body, nu_tags = tags, nu_pinned = pinned,
    nu_expiresAt = (case expiration of Some (Preset p) \<Rightarrow> Some (notepadExpiresAt p now) | _ \<Rightarrow> None)\<rparr>"
  have d: "distinct (nu_tags val)"
    and t: "(case nu_title val of None \<Rightarrow> True | Some t \<Rightarrow> length t \<le> 255) \<and> utf8_bytes (nu_body val) \<le> 65536"
    using notepad_validate_ok [OF v] by (auto simp: val_def)
  have repo: "notepad_repo_update owner i r val now db = Inr (Note_ok e, db')"
    using upd v n by (auto simp: notepad_update_def val_def note_result_def
        split: if_splits sum.splits prod.splits note_outcome.splits)
  then obtain x where x: "notepad_row_of i owner db = Some x"
    by (auto simp: notepad_repo_update_def split: option.splits)
  have rx: "nr_revision x = r" and "db' = note_updated owner i r val x now db"
    and "e = notepad_map db' (notepad_rewrite val (note_pinned_after val x) (note_expiry_after val x) now x)"
    using repo repo_update_eq [OF inv x d, of r now] by (auto simp: Let_def split: if_splits)
  with n x d t show thesis by (intro that [of r x val]) (auto simp: val_def)
qed

lemma notepad_update_inv:
  "notepad_inv db \<Longrightarrow> notepad_update U now owner i n input expiration pinned db = Inr (e, db') \<Longrightarrow> notepad_inv db'"
  using notepad_update_cases notepad_inv_updated by metis

lemma notepad_delete_cases:
  assumes "notepad_delete owner i n db = Inr (u, db')"
  obtains x where "notepad_row_of i owner db = Some x" and "n = JsInt (nr_revision x)"
    and "db' = db\<lparr>nd_tags := sql_delete (\<lambda>(j, _). j = i) (nd_tags db),
      nd_entries := sql_delete (\<lambda>r. nr_id r = i \<and> nr_owner r = owner) (nd_entries db)\<rparr>"
  using assms by (auto simp: notepad_delete_def notepad_repo_delete_def split: option.splits if_splits)

lemma notepad_delete_inv:
  "notepad_inv db \<Longrightarrow> notepad_delete owner i n db = Inr (u, db') \<Longrightarrow> notepad_inv db'"
  by (erule notepad_delete_cases) (auto intro!: notepad_inv_deleted)

lemma notepad_purge_inv: "notepad_inv db \<Longrightarrow> notepad_inv (snd (notepad_purgeExpired now db))"
  by (auto simp: notepad_purgeExpired_def Let_def intro!: notepad_inv_deleted)

inductive notepad_step :: "notepad_db \<Rightarrow> notepad_db \<Rightarrow> bool" where
  create: "notepad_create U now i owner input expiration draft db = Inr (e, db') \<Longrightarrow> notepad_step db db'"
| update: "notepad_update U now owner i n input expire_at pinned db = Inr (e, db') \<Longrightarrow> notepad_step db db'"
| delete: "notepad_delete owner i n db = Inr (u, db') \<Longrightarrow> notepad_step db db'"
| purge: "notepad_step db (snd (notepad_purgeExpired now db))"
| draft: "draft_step (nd_drafts db) d \<Longrightarrow> notepad_step db (db\<lparr>nd_drafts := d\<rparr>)"

lemma notepad_step_inv: "notepad_step db db' \<Longrightarrow> notepad_inv db \<Longrightarrow> notepad_inv db'"
proof (induction rule: notepad_step.induct)
  case (draft db d)
  then show ?case using draft_step_inv by (auto simp: notepad_inv_def)
qed (auto intro: notepad_create_inv notepad_update_inv notepad_delete_inv notepad_purge_inv)

text \<open>
  C25. Whatever sequence of note creations, edits, deletions, purges and draft operations runs, the
  notepad stays well formed: note ids are unique, an owner has at most one pinned note and at most
  5000 notes, tag rows belong to existing notes and texts are within their limits; and on such
  tables an edit is never refused by a database constraint.
\<close>

theorem notepad_keeps_inv:
  assumes "notepad_step\<^sup>*\<^sup>* db db'" and "notepad_inv db"
  shows "notepad_inv db'
    \<and> notepad_update U now owner i n input expiration pinned db' \<noteq> Inl NoteSqliteConstraint"
proof -
  have inv: "notepad_inv db'"
    using assms by (induction rule: rtranclp_induct) (auto intro: notepad_step_inv)
  have "notepad_update U now owner i n input expiration pinned db' \<noteq> Inl NoteSqliteConstraint"
  proof (cases "notepad_validate U input")
    case (Inr v)
    obtain title body tags where v: "v = (title, body, tags)" by (cases v)
    let ?v = "\<lparr>nu_title = title, nu_body = body, nu_tags = tags, nu_pinned = pinned,
      nu_expiresAt = (case expiration of Some (Preset p) \<Rightarrow> Some (notepadExpiresAt p now) | _ \<Rightarrow> None)\<rparr>"
    have "distinct tags" using notepad_validate_ok(1) Inr v by blast
    then show ?thesis
      using repo_update_refused [OF inv, of ?v owner i _ now] Inr v
      by (auto simp: notepad_update_def note_result_def split: js_number.splits note_outcome.splits sum.splits)
        (metis sum.distinct(1))
  qed (simp add: notepad_update_def split: js_number.splits)
  with inv show ?thesis by blast
qed

section \<open>Optimistic concurrency\<close>

definition note_rev_of :: "notepad_db \<Rightarrow> ident \<Rightarrow> int option" where
  "note_rev_of db k = map_option nr_revision (sql_get (\<lambda>r. nr_id r = k) (nd_entries db))"

type_synonym note_write_request =
  "unicode \<times> iso_time \<times> ident \<times> notepad_write_input \<times> expiration_request option \<times> bool option"

definition note_writer :: "note_write_request \<Rightarrow> ident \<Rightarrow> int \<Rightarrow> notepad_db \<Rightarrow> notepad_db option" where
  "note_writer w k r db = (case w of (U, now, owner, input, expiration, pinned) \<Rightarrow>
     (case notepad_update U now owner k (JsInt r) input expiration pinned db of
        Inl _ \<Rightarrow> None | Inr (_, db') \<Rightarrow> Some db'))"

definition note_deleter :: "ident \<Rightarrow> ident \<Rightarrow> int \<Rightarrow> notepad_db \<Rightarrow> notepad_db option" where
  "note_deleter owner k r db =
    (case notepad_delete owner k (JsInt r) db of Inl _ \<Rightarrow> None | Inr (_, db') \<Rightarrow> Some db')"

lemma note_writer_SomeD:
  assumes "note_writer w k r db = Some db'"
  obtains U now owner input expiration pinned e where
    "notepad_update U now owner k (JsInt r) input expiration pinned db = Inr (e, db')"
  using assms by (auto simp: note_writer_def split: prod.splits sum.splits)

lemma note_deleter_SomeD:
  "note_deleter owner k r db = Some db' \<Longrightarrow> notepad_delete owner k (JsInt r) db = Inr ((), db')"
  by (auto simp: note_deleter_def split: prod.splits sum.splits)

lemma note_rev_row:
  assumes "notepad_inv db" and "notepad_row_of k owner db = Some x"
  shows "note_rev_of db k = Some (nr_revision x)"
  using sql_get_unique [OF notepad_inv_key [OF assms(1)]] notepad_row_ofD [OF assms(2)]
  by (auto simp: note_rev_of_def)

lemma note_rev_updated:
  "note_rev_of (note_updated owner i n v x now db) k =
    map_option (\<lambda>r. nr_revision r + (if note_pinned_after v x \<and> nr_owner r = owner \<and> nr_pinned r \<and> k \<noteq> i
        \<or> k = i \<and> nr_owner r = owner \<and> nr_revision r = n then 1 else 0))
      (sql_get (\<lambda>r. nr_id r = k) (nd_entries db))"
proof (cases "sql_get (\<lambda>r. nr_id r = k) (nd_entries db)")
  case None
  then show ?thesis by (simp add: note_rev_of_def note_updated_def note_updates_def sql_get_update_key)
next
  case (Some r)
  moreover have "nr_id r = k" using sql_get_SomeD [OF Some] by simp
  ultimately show ?thesis
    by (cases "note_pinned_after v x")
      (simp_all add: note_rev_of_def note_updated_def note_updates_def sql_get_update_key)
qed

interpretation note_store: revisioned_store note_rev_of note_writer note_deleter notepad_inv
proof
  fix s s' :: notepad_db and w k r j q d
  {
    assume inv: "notepad_inv s" and "note_writer w k r s = Some s'"
    then obtain U now owner input expiration pinned e where
      u: "notepad_update U now owner k (JsInt r) input expiration pinned s = Inr (e, s')"
      by (blast elim: note_writer_SomeD)
    show "notepad_inv s'" using inv u by (rule notepad_update_inv)
    from inv u obtain x v where x: "notepad_row_of k owner s = Some x" "nr_revision x = r"
      and s': "s' = note_updated owner k r v x now s"
      by (auto elim: notepad_update_cases)
    have get: "sql_get (\<lambda>r. nr_id r = k) (nd_entries s) = Some x"
      using sql_get_unique [OF notepad_inv_key [OF inv]] notepad_row_ofD [OF x(1)] by auto
    show "note_rev_of s k = Some r \<and> note_rev_of s' k = Some (r + 1)"
      using note_rev_row [OF inv x(1)] x(2) notepad_row_ofD [OF x(1)]
      unfolding s' note_rev_updated get by simp
    show "\<exists>p. note_rev_of s j = Some p \<and> p \<le> q" if "note_rev_of s' j = Some q"
      using that unfolding s' note_rev_updated by (auto simp: note_rev_of_def)
  }
  {
    assume inv: "notepad_inv s" and "note_deleter d k r s = Some s'"
    then have dl: "notepad_delete d k (JsInt r) s = Inr ((), s')" by (blast dest: note_deleter_SomeD)
    show "notepad_inv s'" using inv dl by (rule notepad_delete_inv)
    from dl obtain x where x: "notepad_row_of k d s = Some x" "nr_revision x = r"
      and s': "nd_entries s' = sql_delete (\<lambda>r. nr_id r = k \<and> nr_owner r = d) (nd_entries s)"
      by (auto elim: notepad_delete_cases)
    have get: "sql_get (\<lambda>r. nr_id r = k) (nd_entries s) = Some x"
      using sql_get_unique [OF notepad_inv_key [OF inv]] notepad_row_ofD [OF x(1)] by auto
    show "note_rev_of s k = Some r" using note_rev_row [OF inv x(1)] x(2) by simp
    show "j \<noteq> k \<and> note_rev_of s j = Some q" if "note_rev_of s' j = Some q"
    proof -
      have *: "(case sql_get (\<lambda>r. nr_id r = j) (nd_entries s) of None \<Rightarrow> None
          | Some r \<Rightarrow> if nr_id r = k \<and> nr_owner r = d then None else Some r) = Some y \<Longrightarrow>
          sql_get (\<lambda>r. nr_id r = j) (nd_entries s) = Some y \<and> j \<noteq> k" for y
        using get notepad_row_ofD [OF x(1)] by (auto split: option.splits if_splits dest: sql_get_SomeD)
      show ?thesis
        using that * unfolding note_rev_of_def s' sql_get_delete_key [OF notepad_inv_key [OF inv]]
        by fastforce
    qed
  }
qed

text \<open>
  No note edit is lost: once an edit on revision \<open>r\<close> has gone through, every other edit or deletion
  that still names revision \<open>r\<close> of that note is refused, whatever edits and deletions of any notes
  (pinning included, which also moves the revision of the note it unpins) happen in between.
\<close>

theorem notepad_no_lost_update:
  assumes "notepad_inv db" and "note_writer w k r db = Some db'"
  shows "note_writer v k r (rev_run note_writer note_deleter ops db') = None
    \<and> note_deleter owner k r (rev_run note_writer note_deleter ops db') = None"
  using note_store.no_lost_update [OF assms] by blast

section \<open>Publishing a draft\<close>

text \<open>
  C26. Publishing a note consumes exactly its draft or does nothing: when the note is created from a
  draft, that draft was the owner's unexpired notepad draft at the named revision, it is gone
  afterwards, no other draft is touched, and the note is stored and can be read; so a second
  publication of the same draft is refused and leaves the tables unchanged.
\<close>

theorem notepad_publish_consumes_draft:
  assumes "notepad_inv db" and "notepad_create U now i owner input expiration (Some (k, n)) db = Inr (e, db')"
  shows "(\<exists>d \<in> set (dd_drafts (nd_drafts db)). dr_id d = k \<and> dr_owner d = owner \<and> dr_context d = DC_notepad
      \<and> now < dr_expires_at d \<and> n = JsInt (dr_revision d))
    \<and> set (dd_drafts (nd_drafts db')) = {d \<in> set (dd_drafts (nd_drafts db)). dr_id d \<noteq> k}
    \<and> notepad_get owner i db' = Some e
    \<and> nd_entries db' = sql_insert (ne_row e) (nd_entries db)
    \<and> (\<forall>U2 now2 i2 input2 x2 m. \<exists>err. notepad_create U2 now2 i2 owner input2 x2 (Some (k, m)) db' = Inl err)"
  using assms(2)
proof (rule notepad_create_cases)
  fix title body tags
  assume "notepad_repo_create \<lparr>ne_row = \<lparr>nr_id = i, nr_owner = owner, nr_title = title, nr_body = body,
        nr_pinned = False, nr_revision = 1, nr_created_at = now, nr_updated_at = now,
        nr_expires_at = notepadExpiresAt (case expiration of None \<Rightarrow> one_month | Some p \<Rightarrow> p) now\<rparr>,
        ne_tags = tags\<rparr> (Some (k, n)) 5000 now db = Inr (Note_ok e, db')"
  then show ?thesis
  proof (cases rule: repo_create_ok)
    case (created row)
    have row: "nr_id row = i" "nr_owner row = owner" using created(1) by simp_all
    obtain d where d: "d \<in> set (dd_drafts (nd_drafts db))" "dr_id d = k" "dr_owner d = owner"
      "dr_context d = DC_notepad" "now < dr_expires_at d" "n = JsInt (dr_revision d)"
      using created(8) row by (auto elim: notepad_draft_okD)
    have key: "unique_key dr_id (dd_drafts (nd_drafts db))"
      using assms(1) draft_inv_key by (auto simp: notepad_inv_def)
    have left: "dd_drafts (nd_drafts db') = sql_delete (\<lambda>d. dr_id d = k \<and> dr_owner d = owner) (dd_drafts (nd_drafts db))"
      using created(6) row by simp
    have gone: "set (dd_drafts (nd_drafts db')) = {d \<in> set (dd_drafts (nd_drafts db)). dr_id d \<noteq> k}"
      unfolding left using sql_delete_key_hit [OF key d(1), of k "\<lambda>x. dr_owner x = owner"] d by simp
    then have no: "\<not> notepad_draft_ok owner (Some (k, m)) t2 (dd_drafts (nd_drafts db'))" for m t2
      by (auto elim!: notepad_draft_okD)
    have again: "\<exists>err. notepad_create U2 now2 i2 owner input2 x2 (Some (k, m)) db' = Inl err" for U2 now2 i2 input2 x2 m
      using no by (auto simp: notepad_create_def notepad_repo_create_def note_result_def Let_def split: sum.splits prod.splits)
    have rows: "nd_entries db' = sql_insert row (nd_entries db)" using created(6) by simp
    have "notepad_row_of i owner db' = Some row"
      using notepad_row_of_unique [of db' row] notepad_inv_key [OF notepad_create_inv [OF assms]] rows row by simp
    then have "notepad_get owner i db' = Some e" and "ne_row e = row"
      using created(7) by (simp_all add: notepad_get_def notepad_map_def)
    with d gone again rows show ?thesis by blast
  qed auto
qed

section \<open>Witnesses\<close>

definition demo_note :: "ident \<Rightarrow> bool \<Rightarrow> notepad_row" where
  "demo_note i pinned = \<lparr>nr_id = i, nr_owner = ''ann'', nr_title = None, nr_body = [72, 105],
     nr_pinned = pinned, nr_revision = 1, nr_created_at = 0, nr_updated_at = 0, nr_expires_at = None\<rparr>"

definition demo_note_draft :: draft_row where
  "demo_note_draft = \<lparr>dr_id = ''d'', dr_owner = ''ann'', dr_context = DC_notepad, dr_forum = None,
     dr_topic = None, dr_title = None, dr_body = [72], dr_options_json = Some None,
     dr_revision = 3, dr_created_at = 0, dr_updated_at = 0, dr_expires_at = 100\<rparr>"

definition demo_notepad :: notepad_db where
  "demo_notepad = \<lparr>nd_entries = [demo_note ''a'' True, demo_note ''b'' False, demo_note ''c'' False],
     nd_tags = [(''a'', [120])],
     nd_drafts = \<lparr>dd_drafts = [demo_note_draft], dd_identity_ids = [''ann''], dd_forum_ids = [], dd_topic_ids = []\<rparr>\<rparr>"

definition demo_note_input :: notepad_write_input where
  "demo_note_input = \<lparr>nw_title = None, nw_body = [72], nw_tags = None\<rparr>"

lemmas demo_note_defs = demo_note_def demo_note_draft_def demo_notepad_def demo_note_input_def

lemma demo_notepad_inv: "notepad_inv demo_notepad"
  by (auto simp: demo_note_defs notepad_inv_def draft_inv_def one_pinned_def note_text_ok_def draft_text_ok_def
      draft_shape_ok_def unique_key_def sql_count_def unit_bytes_def)

lemma demo_note_valid: "notepad_validate U demo_note_input = Inr (None, [72], [])"
  by (simp add: notepad_validate_def demo_note_input_def js_trim_def is_space_def NOTEPAD_LIMITS_def
      normalizeNotepadTags_def unit_bytes_def Let_def)

lemma demo_note_pin:
  "\<exists>e db'. notepad_update U 5 ''ann'' ''b'' (JsInt 1) demo_note_input None (Some True) demo_notepad = Inr (e, db')
     \<and> db' \<noteq> demo_notepad"
proof -
  let ?v = "\<lparr>nu_title = None, nu_body = [72], nu_tags = [], nu_pinned = Some True, nu_expiresAt = None\<rparr>"
  have x: "notepad_row_of ''b'' ''ann'' demo_notepad = Some (demo_note ''b'' False)"
    by (simp add: notepad_row_of_def demo_note_defs sql_get_def)
  let ?db' = "note_updated ''ann'' ''b'' 1 ?v (demo_note ''b'' False) 5 demo_notepad"
  have "\<exists>e. notepad_repo_update ''ann'' ''b'' 1 ?v 5 demo_notepad = Inr (Note_ok e, ?db')"
    using repo_update_eq [OF demo_notepad_inv x, of ?v 1 5] by (simp add: Let_def demo_note_def)
  moreover have "note_rev_of ?db' ''a'' = Some 2"
    unfolding note_rev_updated by (simp add: note_pinned_after_def demo_note_defs sql_get_def)
  moreover have "note_rev_of demo_notepad ''a'' = Some 1"
    by (simp add: demo_note_defs sql_get_def note_rev_of_def)
  ultimately show ?thesis
    unfolding notepad_update_def js_number.case demo_note_valid sum.case prod.case
    by (auto simp: note_result_def)
qed

theorem notepad_keeps_inv_witness:
  "\<exists>db'. notepad_step\<^sup>*\<^sup>* demo_notepad db' \<and> db' \<noteq> demo_notepad \<and> notepad_inv db'"
proof -
  obtain e db' where "notepad_update ascii_unicode 5 ''ann'' ''b'' (JsInt 1) demo_note_input None (Some True) demo_notepad = Inr (e, db')"
    and ne: "db' \<noteq> demo_notepad" using demo_note_pin by blast
  then have st: "notepad_step\<^sup>*\<^sup>* demo_notepad db'" by (intro r_into_rtranclp notepad_step.update)
  with ne notepad_keeps_inv [OF st demo_notepad_inv] show ?thesis by blast
qed

theorem notepad_no_lost_update_witness:
  "\<exists>db'. note_writer (ascii_unicode, 5, ''ann'', demo_note_input, None, Some True) ''b'' 1 demo_notepad = Some db'
     \<and> note_writer (ascii_unicode, 6, ''ann'', demo_note_input, None, None) ''b'' 1
         (rev_run note_writer note_deleter [Rev_delete ''ann'' ''a'' 2] db') = None"
proof -
  obtain e db' where "notepad_update ascii_unicode 5 ''ann'' ''b'' (JsInt 1) demo_note_input None (Some True) demo_notepad = Inr (e, db')"
    using demo_note_pin by blast
  then have w: "note_writer (ascii_unicode, 5, ''ann'', demo_note_input, None, Some True) ''b'' 1 demo_notepad = Some db'"
    by (simp add: note_writer_def)
  with notepad_no_lost_update [OF demo_notepad_inv w] show ?thesis by blast
qed

theorem notepad_pages_complete_witness:
  "map (\<lambda>e. nr_id (ne_row e))
     (concat (notepad_pages 4 ''ann'' None [] None (page_limit (Some (Finite 1))) demo_notepad)) = [''a'', ''c'', ''b'']"
proof -
  have "unique_key nr_id (nd_entries demo_notepad)" "length (nd_entries demo_notepad) < 4"
    using demo_notepad_inv by (simp_all add: notepad_inv_def demo_note_defs)
  from notepad_pages_complete [OF this, of "''ann''" None "[]" "Some (Finite 1)"] show ?thesis
    by (simp add: notepad_feed_def order_desc_def sql_order_by_def sql_select_def notepad_matches_def
        demo_note_defs encodeCursor_def notepad_map_def)
qed

theorem notepad_publish_consumes_draft_witness:
  "\<exists>e db'. notepad_create ascii_unicode 7 ''n'' ''ann'' demo_note_input None (Some (''d'', JsInt 3)) demo_notepad = Inr (e, db')
     \<and> set (dd_drafts (nd_drafts db')) = {}"
proof -
  have "\<exists>e db'. notepad_create ascii_unicode 7 ''n'' ''ann'' demo_note_input None (Some (''d'', JsInt 3)) demo_notepad = Inr (e, db')"
    unfolding notepad_create_def demo_note_valid sum.case prod.case
    by (simp add: notepad_repo_create_def notepad_draft_ok_def demo_note_defs sql_simps NOTEPAD_LIMITS_def
        replaceTags_def notepad_row_of_def one_pinned_def note_result_def Let_def)
  then obtain e db' where c: "notepad_create ascii_unicode 7 ''n'' ''ann'' demo_note_input None (Some (''d'', JsInt 3)) demo_notepad = Inr (e, db')"
    by blast
  have "set (dd_drafts (nd_drafts db')) = {d \<in> set (dd_drafts (nd_drafts demo_notepad)). dr_id d \<noteq> ''d''}"
    using notepad_publish_consumes_draft [OF demo_notepad_inv c] by (elim conjE)
  then have "set (dd_drafts (nd_drafts db')) = {}" by (simp add: demo_note_defs)
  with c show ?thesis by blast
qed

end
