(* ===== verification/Deployment_Admission.thy ===== *)
theory Deployment_Admission
  imports Js_String
begin

text \<open>
  The deployment fence: \<^verbatim>\<open>server/services/deploymentAdmissionCoordinator.ts\<close> and the guard it
  installs in \<^verbatim>\<open>server/store.ts\<close>. The object's fields are a record; the suspended continuations of
  the asynchronous \<^verbatim>\<open>finishAcquire\<close> are the list \<open>ad_pending\<close>, resumed by a separate step that is
  given what \<^verbatim>\<open>waitForIdle\<close> and \<^verbatim>\<open>getBlockers\<close> did; the release functions handed to admitted robot work
  are the tokens \<open>ad_tokens\<close>. The current time is an argument.
\<close>

section \<open>State\<close>

datatype admission_state = Adm_idle | Adm_preparing | Adm_acquired
datatype result_state = Res_acquired | Res_blocked | Res_revoked | Res_expired | Res_cancelled
datatype blocker = Blocker string | Blocker_owned "js_string option" | Blocker_in_flight nat

record admission_result =
  res_acquired :: bool
  res_operationId :: js_string
  res_state :: result_state
  res_blockers :: "blocker list"
  res_expiresAt :: "int option"

datatype admission_error = Adm_RangeError string | DispatchAdmissionFencedError | Adm_owned_by_another | Adm_missing_operation

datatype store_guard = Guard_none | Guard_coordinator | Guard_closed

record admission =
  ad_state :: admission_state
  ad_operationId :: "js_string option"
  ad_expiresAtMs :: "int option"
  ad_expiryTimer :: "(js_string \<times> int) option"
  ad_inFlight :: bool
  ad_robotWorkInFlight :: nat
  ad_shutdownClosed :: bool
  ad_completed :: "(js_string \<times> admission_result) list"
  ad_sync_paused :: bool
  ad_guard :: store_guard
  ad_pending :: "(js_string \<times> int) list"
  ad_tokens :: "nat list"
  ad_next_token :: nat

definition MAX_OPERATION_ID_LENGTH :: nat where "MAX_OPERATION_ID_LENGTH = 200"
definition MAX_WAIT_TIMEOUT_MS :: int where "MAX_WAIT_TIMEOUT_MS = 5 * 60000"
definition MAX_LEASE_MS :: int where "MAX_LEASE_MS = 24 * 60 * 60000"

definition admission_init :: admission where
  \<comment> \<open>the constructor, which installs the guard\<close>
  "admission_init = \<lparr>ad_state = Adm_idle, ad_operationId = None, ad_expiresAtMs = None,
     ad_expiryTimer = None, ad_inFlight = False, ad_robotWorkInFlight = 0, ad_shutdownClosed = False,
     ad_completed = [], ad_sync_paused = False, ad_guard = Guard_coordinator, ad_pending = [],
     ad_tokens = [], ad_next_token = 0\<rparr>"

section \<open>Private operations\<close>

definition boundedPositiveMilliseconds :: "js_number \<Rightarrow> int \<Rightarrow> string \<Rightarrow> admission_error + int" where
  "boundedPositiveMilliseconds v maximum field = (case v of
     JsNonInteger \<Rightarrow> Inl (Adm_RangeError field)
   | JsInt n \<Rightarrow> if n \<le> 0 \<or> n > maximum then Inl (Adm_RangeError field) else Inr n)"

definition clearExpiryTimer :: "admission \<Rightarrow> admission" where
  "clearExpiryTimer s = s\<lparr>ad_expiryTimer := None\<rparr>"

definition release_result :: "result_state \<Rightarrow> js_string \<Rightarrow> blocker list \<Rightarrow> admission_result" where
  "release_result outcome operationId blockers = \<lparr>res_acquired = False, res_operationId = operationId,
     res_state = outcome, res_blockers = blockers, res_expiresAt = None\<rparr>"

definition remember :: "js_string \<Rightarrow> admission_result \<Rightarrow> (js_string \<times> admission_result) list \<Rightarrow>
    (js_string \<times> admission_result) list" where
  "remember k r m = (let m' = map_set k r m in if length m' > 100 then tl m' else m')"

definition release :: "result_state \<Rightarrow> js_string \<Rightarrow> blocker list \<Rightarrow> admission \<Rightarrow> admission_result \<times> admission" where
  "release outcome operationId blockers s =
    (let result = release_result outcome operationId blockers in
     (result, (clearExpiryTimer (s\<lparr>ad_completed := remember operationId result (ad_completed s)\<rparr>))
        \<lparr>ad_state := Adm_idle, ad_operationId := None, ad_expiresAtMs := None, ad_inFlight := False,
         ad_sync_paused := False\<rparr>))"

definition op_truthy :: "js_string option \<Rightarrow> bool" where
  "op_truthy p = (case p of None \<Rightarrow> False | Some s \<Rightarrow> s \<noteq> [])"

definition expireIfNeeded :: "int \<Rightarrow> admission \<Rightarrow> admission" where
  "expireIfNeeded now s =
    (if ad_state s = Adm_acquired \<and> (case ad_expiresAtMs s of None \<Rightarrow> False | Some e \<Rightarrow> e \<le> now)
        \<and> op_truthy (ad_operationId s)
     then snd (release Res_expired (the (ad_operationId s)) [] s) else s)"

definition renewLease :: "int \<Rightarrow> js_string \<Rightarrow> int \<Rightarrow> admission \<Rightarrow> admission_error + admission" where
  "renewLease now operationId leaseMs s =
    (if ad_state s \<noteq> Adm_acquired \<or> ad_operationId s \<noteq> Some operationId then Inl DispatchAdmissionFencedError
     else Inr ((clearExpiryTimer (s\<lparr>ad_expiresAtMs := Some (now + leaseMs)\<rparr>))
       \<lparr>ad_expiryTimer := Some (operationId, now + leaseMs)\<rparr>))"

definition admission_result_of :: "admission \<Rightarrow> admission_error + admission_result" where
  "admission_result_of s = (if \<not> op_truthy (ad_operationId s) then Inl Adm_missing_operation
     else Inr \<lparr>res_acquired = True, res_operationId = the (ad_operationId s), res_state = Res_acquired,
       res_blockers = [], res_expiresAt = ad_expiresAtMs s\<rparr>)"

section \<open>Acquisition\<close>

datatype acquire_reply = Resolved admission_result | In_flight_acquisition js_string

definition validOperationId :: "js_string \<Rightarrow> admission_error + js_string" where
  "validOperationId raw = (let i = js_trim raw in
     if i = [] \<or> length i > MAX_OPERATION_ID_LENGTH then Inl (Adm_RangeError ''operationId'') else Inr i)"

definition acquire_valid :: "int \<Rightarrow> js_string \<Rightarrow> int \<Rightarrow> admission \<Rightarrow>
    (admission_error + acquire_reply) \<times> admission" where
  \<comment> \<open>the body of \<^verbatim>\<open>acquire\<close> once its arguments are validated\<close>
  "acquire_valid now operationId leaseMs s0 =
    (let s = expireIfNeeded now s0 in
     case map_of (ad_completed s) operationId of
       Some r \<Rightarrow> (Inr (Resolved r), s)
     | None \<Rightarrow>
        if ad_operationId s = Some operationId \<and> ad_inFlight s
        then (Inr (In_flight_acquisition operationId), s)
        else if ad_operationId s = Some operationId \<and> ad_state s = Adm_acquired
        then (case renewLease now operationId leaseMs s of
                Inl e \<Rightarrow> (Inl e, s)
              | Inr s' \<Rightarrow> (case admission_result_of s' of Inl e \<Rightarrow> (Inl e, s') | Inr r \<Rightarrow> (Inr (Resolved r), s')))
        else if ad_state s \<noteq> Adm_idle
        then (Inr (Resolved \<lparr>res_acquired = False, res_operationId = operationId, res_state = Res_blocked,
                res_blockers = [Blocker_owned (ad_operationId s)], res_expiresAt = ad_expiresAtMs s\<rparr>), s)
        else (Inr (In_flight_acquisition operationId),
              s\<lparr>ad_state := Adm_preparing, ad_operationId := Some operationId, ad_sync_paused := True,
                ad_inFlight := True, ad_pending := ad_pending s @ [(operationId, leaseMs)]\<rparr>))"

definition acquire :: "int \<Rightarrow> js_string \<Rightarrow> js_number \<Rightarrow> js_number \<Rightarrow> admission \<Rightarrow>
    (admission_error + acquire_reply) \<times> admission" where
  "acquire now rawId waitTimeoutMs leaseMs s =
    (case validOperationId rawId of Inl e \<Rightarrow> (Inl e, s)
     | Inr operationId \<Rightarrow>
        (case boundedPositiveMilliseconds waitTimeoutMs MAX_WAIT_TIMEOUT_MS ''waitTimeoutMs'' of
           Inl e \<Rightarrow> (Inl e, s)
         | Inr _ \<Rightarrow> (case boundedPositiveMilliseconds leaseMs MAX_LEASE_MS ''leaseMs'' of
              Inl e \<Rightarrow> (Inl e, s)
            | Inr lease \<Rightarrow> acquire_valid now operationId lease s)))"

text \<open>
  The continuation of \<^verbatim>\<open>finishAcquire\<close> after the wait: \<open>None\<close> when \<^verbatim>\<open>waitForIdle\<close> rejected, otherwise
  whether it reported idleness; \<^verbatim>\<open>getBlockers\<close> likewise throws (\<open>None\<close>) or returns a list.
\<close>

definition superseded_result :: "admission \<Rightarrow> js_string \<Rightarrow> admission_result" where
  "superseded_result s operationId = (case map_of (ad_completed s) operationId of
     Some r \<Rightarrow> r | None \<Rightarrow> release_result Res_revoked operationId [Blocker ''robot_work_arrived''])"

definition finishAcquire :: "int \<Rightarrow> bool option \<Rightarrow> blocker list option \<Rightarrow> js_string \<Rightarrow> int \<Rightarrow> admission \<Rightarrow>
    (admission_error + admission_result) \<times> admission" where
  "finishAcquire now waited evaluated operationId leaseMs s =
    (if ad_operationId s \<noteq> Some operationId \<or> ad_state s \<noteq> Adm_preparing
     then (Inr (superseded_result s operationId), s)
     else let releaseWithBlockers = (\<lambda>bs. case release Res_blocked operationId bs s of (r, s') \<Rightarrow> (Inr r, s')) in
       case waited of
         None \<Rightarrow> releaseWithBlockers [Blocker ''pi_session_sync_wait_failed'']
       | Some False \<Rightarrow> releaseWithBlockers [Blocker ''pi_session_sync_wait_timeout'']
       | Some True \<Rightarrow>
          (case evaluated of
             None \<Rightarrow> releaseWithBlockers [Blocker ''forum_blocker_evaluation_failed'']
           | Some bs \<Rightarrow>
              let blockers = bs @ (if ad_robotWorkInFlight s > 0
                    then [Blocker_in_flight (ad_robotWorkInFlight s)] else []) in
              if blockers \<noteq> [] then releaseWithBlockers blockers
              else case renewLease now operationId leaseMs (s\<lparr>ad_state := Adm_acquired\<rparr>) of
                  Inl e \<Rightarrow> (Inl e, s\<lparr>ad_state := Adm_acquired\<rparr>)
                | Inr s' \<Rightarrow> (admission_result_of s', s'\<lparr>ad_inFlight := False\<rparr>)))"

section \<open>Robot work\<close>

definition beginRobotWork :: "int \<Rightarrow> admission \<Rightarrow> (admission_error + nat) \<times> admission" where
  "beginRobotWork now s0 =
    (if ad_shutdownClosed s0 then (Inl DispatchAdmissionFencedError, s0)
     else let s = expireIfNeeded now s0 in
       if ad_state s = Adm_acquired then (Inl DispatchAdmissionFencedError, s)
       else let s' = (if ad_state s = Adm_preparing \<and> op_truthy (ad_operationId s)
              then snd (release Res_revoked (the (ad_operationId s)) [Blocker ''robot_work_arrived''] s) else s)
         in (Inr (ad_next_token s'), s'\<lparr>ad_robotWorkInFlight := ad_robotWorkInFlight s' + 1,
               ad_tokens := ad_next_token s' # ad_tokens s', ad_next_token := ad_next_token s' + 1\<rparr>))"

definition endRobotWork :: "nat \<Rightarrow> admission \<Rightarrow> admission" where
  \<comment> \<open>the returned release function; a second call finds \<^verbatim>\<open>released\<close> set and does nothing\<close>
  "endRobotWork tok s = (if tok \<notin> set (ad_tokens s) then s
     else s\<lparr>ad_tokens := remove1 tok (ad_tokens s), ad_robotWorkInFlight := ad_robotWorkInFlight s - 1\<rparr>)"

definition store_beginRobotWork :: "int \<Rightarrow> admission \<Rightarrow> (admission_error + nat option) \<times> admission" where
  \<comment> \<open>\<^verbatim>\<open>ForumStore.beginRobotWork\<close>: through the guard, or unguarded\<close>
  "store_beginRobotWork now s = (case ad_guard s of
     Guard_none \<Rightarrow> (Inr None, s)
   | Guard_closed \<Rightarrow> (Inl DispatchAdmissionFencedError, s)
   | Guard_coordinator \<Rightarrow> (case beginRobotWork now s of (Inl e, s') \<Rightarrow> (Inl e, s') | (Inr t, s') \<Rightarrow> (Inr (Some t), s')))"

definition assertRobotWorkAdmission :: "int \<Rightarrow> admission \<Rightarrow> (admission_error + unit) \<times> admission" where
  "assertRobotWorkAdmission now s = (case store_beginRobotWork now s of
     (Inl e, s') \<Rightarrow> (Inl e, s')
   | (Inr None, s') \<Rightarrow> (Inr (), s')
   | (Inr (Some t), s') \<Rightarrow> (Inr (), endRobotWork t s'))"

section \<open>Cancellation, close and shutdown\<close>

definition cancel :: "int \<Rightarrow> js_string \<Rightarrow> admission \<Rightarrow> (admission_error + bool) \<times> admission" where
  \<comment> \<open>the boolean is the \<^verbatim>\<open>released\<close> field of the reply\<close>
  "cancel now rawId s0 =
    (case validOperationId rawId of Inl e \<Rightarrow> (Inl e, s0)
     | Inr operationId \<Rightarrow>
        let s = expireIfNeeded now s0 in
        if op_truthy (ad_operationId s) \<and> ad_operationId s \<noteq> Some operationId then (Inl Adm_owned_by_another, s)
        else if ad_operationId s = Some operationId then (Inr True, snd (release Res_cancelled operationId [] s))
        else (Inr False, s))"

definition close :: "admission \<Rightarrow> admission" where
  "close s0 = (let s = s0\<lparr>ad_guard := Guard_none\<rparr> in
     if op_truthy (ad_operationId s) then snd (release Res_cancelled (the (ad_operationId s)) [] s)
     else (clearExpiryTimer s)\<lparr>ad_sync_paused := False\<rparr>)"

definition shutdown :: "admission \<Rightarrow> admission" where
  "shutdown s0 = (if ad_shutdownClosed s0 then s0
     else let s1 = s0\<lparr>ad_shutdownClosed := True\<rparr>;
              s2 = (if op_truthy (ad_operationId s1)
                    then snd (release Res_cancelled (the (ad_operationId s1)) [] s1) else s1)
          in (clearExpiryTimer s2)\<lparr>ad_sync_paused := True, ad_guard := Guard_closed\<rparr>)"

definition timer_fires :: "int \<Rightarrow> admission \<Rightarrow> admission" where
  \<comment> \<open>the callback of the expiry timer, once due\<close>
  "timer_fires now s = (case ad_expiryTimer s of
     None \<Rightarrow> s
   | Some (operationId, due) \<Rightarrow>
       if due \<le> now \<and> ad_operationId s = Some operationId \<and> ad_state s = Adm_acquired
       then snd (release Res_expired operationId [] s) else s)"

definition admission_status :: "int \<Rightarrow> admission \<Rightarrow> (admission_state \<times> js_string option \<times> int option) \<times> admission" where
  "admission_status now s0 = (let s = expireIfNeeded now s0 in
     ((ad_state s, ad_operationId s, ad_expiresAtMs s), s))"

end
