(* ===== verification/Admission_Laws.thy ===== *)
theory Admission_Laws
  imports Deployment_Admission
begin

text \<open>
  The deployment fence as a transition system: every public operation, the resumption of a
  suspended acquisition and the expiry timer are steps, in any order. The invariant ties the
  fields together; the properties are the fence itself, its exclusive ownership, and that it
  always opens again.
\<close>

definition adm_owner_ok :: "admission \<Rightarrow> bool" where
  "adm_owner_ok s \<longleftrightarrow> (case ad_state s of
     Adm_idle \<Rightarrow> ad_operationId s = None \<and> ad_expiresAtMs s = None \<and> ad_expiryTimer s = None \<and> \<not> ad_inFlight s
   | Adm_preparing \<Rightarrow> (\<exists>op. ad_operationId s = Some op \<and> op \<noteq> [] \<and> ad_expiresAtMs s = None \<and> ad_expiryTimer s = None
       \<and> ad_inFlight s \<and> ad_sync_paused s \<and> map_of (ad_completed s) op = None \<and> op \<in> fst ` set (ad_pending s))
   | Adm_acquired \<Rightarrow> (\<exists>op e. ad_operationId s = Some op \<and> op \<noteq> [] \<and> ad_expiresAtMs s = Some e \<and> ad_expiryTimer s = Some (op, e)
       \<and> \<not> ad_inFlight s \<and> ad_sync_paused s \<and> map_of (ad_completed s) op = None \<and> ad_robotWorkInFlight s = 0))"

definition adm_work_ok :: "admission \<Rightarrow> bool" where
  "adm_work_ok s \<longleftrightarrow> ad_robotWorkInFlight s = length (ad_tokens s) \<and> distinct (ad_tokens s)
     \<and> (\<forall>t \<in> set (ad_tokens s). t < ad_next_token s)"

definition adm_completed_ok :: "(js_string \<times> admission_result) list \<Rightarrow> bool" where
  "adm_completed_ok m \<longleftrightarrow> length m \<le> 100 \<and> distinct (map fst m)
     \<and> (\<forall>(k, r) \<in> set m. \<not> res_acquired r \<and> res_operationId r = k)"

definition adm_inv :: "admission \<Rightarrow> bool" where
  "adm_inv s \<longleftrightarrow> adm_owner_ok s \<and> adm_work_ok s \<and> adm_completed_ok (ad_completed s)
     \<and> (\<forall>(op, l) \<in> set (ad_pending s). op \<noteq> [] \<and> 0 < l \<and> l \<le> MAX_LEASE_MS)
     \<and> (ad_shutdownClosed s \<longrightarrow> ad_guard s \<noteq> Guard_coordinator)"

inductive adm_step :: "admission \<Rightarrow> admission \<Rightarrow> bool" where
  acquire: "acquire now i w l s = (r, s') \<Longrightarrow> adm_step s s'"
| finish: "(op, l) \<in> set (ad_pending s) \<Longrightarrow> finishAcquire now waited evaluated op l s = (r, s') \<Longrightarrow>
    adm_step s (s'\<lparr>ad_pending := remove1 (op, l) (ad_pending s')\<rparr>)"
| begin_work: "store_beginRobotWork now s = (r, s') \<Longrightarrow> adm_step s s'"
| end_work: "adm_step s (endRobotWork t s)"
| assert_work: "assertRobotWorkAdmission now s = (r, s') \<Longrightarrow> adm_step s s'"
| cancel: "cancel now i s = (r, s') \<Longrightarrow> adm_step s s'"
| close: "adm_step s (close s)"
| shutdown: "adm_step s (shutdown s)"
| timer: "adm_step s (timer_fires now s)"
| status: "admission_status now s = (r, s') \<Longrightarrow> adm_step s s'"

section \<open>Remembered results\<close>

lemma remember_ok:
  assumes "adm_completed_ok m" and "\<not> res_acquired r" and "res_operationId r = k"
  shows "adm_completed_ok (remember k r m)"
proof -
  let ?m = "map_set k r m"
  have d: "distinct (map fst ?m)" using assms(1) keys_map_set [of m k r] unfolding adm_completed_ok_def by blast
  have l: "length ?m \<le> 101" using assms(1) length_map_set [of k r m] by (simp add: adm_completed_ok_def)
  have e: "\<not> res_acquired b \<and> res_operationId b = a" if "(a, b) \<in> set ?m" for a b
    using that set_map_set [of k r m] assms by (auto simp: adm_completed_ok_def)
  have sub: "set (tl ?m) \<subseteq> set ?m" by (cases ?m) auto
  show ?thesis
  proof (cases "length ?m > 100")
    case True
    then have "remember k r m = tl ?m" by (simp add: remember_def Let_def)
    moreover have "distinct (map fst (tl ?m))" using d by (simp add: map_tl distinct_tl)
    ultimately show ?thesis using l e sub by (auto simp: adm_completed_ok_def)
  next
    case False
    then show ?thesis using d e by (auto simp: adm_completed_ok_def remember_def)
  qed
qed

section \<open>Every step keeps the invariant\<close>

lemma release_fields [simp]:
  "ad_state (snd (release out op bs s)) = Adm_idle" "ad_operationId (snd (release out op bs s)) = None"
  "ad_expiresAtMs (snd (release out op bs s)) = None" "ad_expiryTimer (snd (release out op bs s)) = None"
  "ad_inFlight (snd (release out op bs s)) = False"
  "ad_robotWorkInFlight (snd (release out op bs s)) = ad_robotWorkInFlight s"
  "ad_tokens (snd (release out op bs s)) = ad_tokens s" "ad_next_token (snd (release out op bs s)) = ad_next_token s"
  "ad_pending (snd (release out op bs s)) = ad_pending s" "ad_guard (snd (release out op bs s)) = ad_guard s"
  "ad_shutdownClosed (snd (release out op bs s)) = ad_shutdownClosed s"
  "ad_sync_paused (snd (release out op bs s)) = False"
  "ad_completed (snd (release out op bs s)) = remember op (release_result out op bs) (ad_completed s)"
  "fst (release out op bs s) = release_result out op bs"
  by (simp_all add: release_def clearExpiryTimer_def Let_def)

lemma release_result_fields [simp]:
  "res_acquired (release_result out op bs) = False" "res_operationId (release_result out op bs) = op"
  "res_state (release_result out op bs) = out"
  by (simp_all add: release_result_def)

lemma adm_inv_release: "adm_inv s \<Longrightarrow> adm_inv (snd (release out op bs s))"
  by (auto simp: adm_inv_def adm_owner_ok_def adm_work_ok_def intro: remember_ok)

lemma adm_inv_expire: "adm_inv s \<Longrightarrow> adm_inv (expireIfNeeded now s)"
  by (simp add: expireIfNeeded_def adm_inv_release)

lemma adm_op_truthy: "adm_inv s \<Longrightarrow> op_truthy (ad_operationId s) \<longleftrightarrow> ad_state s \<noteq> Adm_idle"
  by (auto simp: adm_inv_def adm_owner_ok_def op_truthy_def split: admission_state.splits option.splits)

lemma boundedPositiveMilliseconds_ok:
  "boundedPositiveMilliseconds v m f = Inr n \<Longrightarrow> 0 < n \<and> n \<le> m"
  by (auto simp: boundedPositiveMilliseconds_def split: js_number.splits if_splits)

lemma acquire_valid_inv:
  assumes inv: "adm_inv s0" and op: "op \<noteq> []" "0 < l" "l \<le> MAX_LEASE_MS"
    and acq: "acquire_valid now op l s0 = (r, s')"
  shows "adm_inv s'"
proof -
  have inv': "adm_inv (expireIfNeeded now s0)" using inv by (rule adm_inv_expire)
  show ?thesis
    using acq inv' op
    by (auto simp: acquire_valid_def Let_def renewLease_def admission_result_of_def clearExpiryTimer_def
        adm_inv_def adm_owner_ok_def adm_work_ok_def
        split: option.splits if_splits sum.splits admission_state.splits)
qed

lemma acquire_inv: "adm_inv s \<Longrightarrow> acquire now i w l s = (r, s') \<Longrightarrow> adm_inv s'"
  by (auto simp: acquire_def validOperationId_def Let_def split: sum.splits if_splits
      dest!: boundedPositiveMilliseconds_ok intro: acquire_valid_inv)

lemma finishAcquire_cases:
  assumes inv: "adm_inv s" and fin: "finishAcquire now waited evaluated op l s = (r, s')"
  obtains
    (superseded) "ad_operationId s \<noteq> Some op \<or> ad_state s \<noteq> Adm_preparing"
      and "r = Inr (superseded_result s op)" and "s' = s"
  | (blocked) bs where "ad_operationId s = Some op" and "ad_state s = Adm_preparing"
      and "r = Inr (release_result Res_blocked op bs)" and "s' = snd (release Res_blocked op bs s)"
  | (acquired) "ad_operationId s = Some op" and "ad_state s = Adm_preparing" and "waited = Some True"
      and "evaluated = Some []" and "ad_robotWorkInFlight s = 0"
      and "s' = s\<lparr>ad_state := Adm_acquired, ad_expiresAtMs := Some (now + l),
        ad_expiryTimer := Some (op, now + l), ad_inFlight := False\<rparr>"
      and "r = Inr \<lparr>res_acquired = True, res_operationId = op, res_state = Res_acquired,
        res_blockers = [], res_expiresAt = Some (now + l)\<rparr>"
proof (cases "ad_operationId s = Some op \<and> ad_state s = Adm_preparing")
  case False
  then have "finishAcquire now waited evaluated op l s = (Inr (superseded_result s op), s)"
    by (simp add: finishAcquire_def)
  with fin have "r = Inr (superseded_result s op)" "s' = s" by auto
  with False superseded show thesis by blast
next
  case True
  then have ne: "op \<noteq> []" using inv by (auto simp: adm_inv_def adm_owner_ok_def)
  have rel: "case_prod (\<lambda>r s'. (Inr r :: admission_error + admission_result, s')) (release Res_blocked op bs s) =
      (Inr (release_result Res_blocked op bs), snd (release Res_blocked op bs s))" for bs
    by (simp add: release_def Let_def)
  have blk: thesis if "(Inr (release_result Res_blocked op bs), snd (release Res_blocked op bs s)) = (r, s')" for bs
    using that True blocked by auto
  show thesis
  proof (cases "waited = Some True \<and> evaluated = Some [] \<and> ad_robotWorkInFlight s = 0")
    case w: True
    have "finishAcquire now waited evaluated op l s =
        (Inr \<lparr>res_acquired = True, res_operationId = op, res_state = Res_acquired,
           res_blockers = [], res_expiresAt = Some (now + l)\<rparr>,
         s\<lparr>ad_state := Adm_acquired, ad_expiresAtMs := Some (now + l),
           ad_expiryTimer := Some (op, now + l), ad_inFlight := False\<rparr>)"
      using True w ne by (simp add: finishAcquire_def Let_def renewLease_def
          admission_result_of_def clearExpiryTimer_def op_truthy_def)
    with fin True w acquired show thesis by simp
  next
    case False
    then consider "waited = None" | "waited = Some False" | "waited = Some True" "evaluated = None"
      | bs where "waited = Some True" "evaluated = Some bs" "bs \<noteq> [] \<or> ad_robotWorkInFlight s \<noteq> 0"
      by (metis (full_types) not_None_eq)
    then show thesis
    proof cases
      case 1
      with fin True show thesis by (intro blk) (simp add: finishAcquire_def Let_def rel)
    next
      case 2
      with fin True show thesis by (intro blk) (simp add: finishAcquire_def Let_def rel)
    next
      case 3
      with fin True show thesis by (intro blk) (simp add: finishAcquire_def Let_def rel)
    next
      case 4
      with fin True show thesis
        by (intro blk [of "bs @ (if ad_robotWorkInFlight s > 0 then [Blocker_in_flight (ad_robotWorkInFlight s)] else [])"])
          (auto simp: finishAcquire_def Let_def rel)
    qed
  qed
qed

lemma adm_owner_ok_pending:
  assumes "adm_owner_ok s"
    and "\<And>p. ad_operationId s = Some p \<Longrightarrow> ad_state s = Adm_preparing \<Longrightarrow> p \<in> fst ` set (ad_pending s) \<Longrightarrow>
      p \<in> fst ` set ps"
  shows "adm_owner_ok (s\<lparr>ad_pending := ps\<rparr>)"
  using assms by (cases "ad_state s") (simp_all add: adm_owner_ok_def, blast)

lemma finish_inv:
  assumes inv: "adm_inv s" and "(op, l) \<in> set (ad_pending s)" and fin: "finishAcquire now waited evaluated op l s = (r, s')"
  shows "adm_inv (s'\<lparr>ad_pending := remove1 (op, l) (ad_pending s')\<rparr>)"
proof -
  have sub: "set (remove1 (op, l) (ad_pending s)) \<subseteq> set (ad_pending s)" by (rule set_remove1_subset)
  from inv fin show ?thesis
  proof (cases rule: finishAcquire_cases)
    case superseded
    have "p \<in> fst ` set (remove1 (op, l) (ad_pending s))" if "p \<in> fst ` set (ad_pending s)" "p \<noteq> op" for p
    proof -
      from that(1) obtain q where "(p, q) \<in> set (ad_pending s)" by auto
      with that(2) have "(p, q) \<in> set (remove1 (op, l) (ad_pending s))" by (simp add: in_set_remove1)
      then show ?thesis by force
    qed
    then have "adm_owner_ok (s\<lparr>ad_pending := remove1 (op, l) (ad_pending s)\<rparr>)"
      using superseded inv by (intro adm_owner_ok_pending) (auto simp: adm_inv_def)
    moreover have "\<forall>(op, l) \<in> set (remove1 (op, l) (ad_pending s)). op \<noteq> [] \<and> 0 < l \<and> l \<le> MAX_LEASE_MS"
      using inv sub unfolding adm_inv_def by blast
    ultimately show ?thesis
      using superseded inv unfolding adm_inv_def adm_work_ok_def by simp
  next
    case (blocked bs)
    have "adm_inv s'" using blocked inv by (simp add: adm_inv_release)
    with blocked sub show ?thesis by (auto simp: adm_inv_def adm_owner_ok_def adm_work_ok_def)
  next
    case acquired
    with inv sub show ?thesis by (auto simp: adm_inv_def adm_owner_ok_def adm_work_ok_def)
  qed
qed

lemma beginRobotWork_inv:
  assumes inv: "adm_inv s0" and b: "beginRobotWork now s0 = (r, s')"
  shows "adm_inv s'"
proof (cases "ad_shutdownClosed s0")
  case False
  let ?s = "expireIfNeeded now s0"
  let ?s1 = "if ad_state ?s = Adm_preparing \<and> op_truthy (ad_operationId ?s)
    then snd (release Res_revoked (the (ad_operationId ?s)) [Blocker ''robot_work_arrived''] ?s) else ?s"
  have inv1: "adm_inv ?s1" using adm_inv_expire [OF inv] adm_inv_release by auto
  have idle: "ad_state ?s1 = Adm_idle" if "ad_state ?s \<noteq> Adm_acquired"
    using that adm_op_truthy [OF adm_inv_expire [OF inv, of now]] by (cases "ad_state ?s") auto
  show ?thesis
    using b False inv1 adm_inv_expire [OF inv, of now] idle
    by (auto simp: beginRobotWork_def Let_def adm_inv_def adm_owner_ok_def adm_work_ok_def less_Suc_eq
        split: if_splits)
qed (use assms in \<open>simp add: beginRobotWork_def\<close>)

lemma endRobotWork_inv: "adm_inv s \<Longrightarrow> adm_inv (endRobotWork t s)"
proof (cases "t \<in> set (ad_tokens s)")
  case True
  assume inv: "adm_inv s"
  have "length (remove1 t (ad_tokens s)) = length (ad_tokens s) - 1" using True by (simp add: length_remove1)
  moreover have "set (remove1 t (ad_tokens s)) \<subseteq> set (ad_tokens s)" by (rule set_remove1_subset)
  moreover have "adm_owner_ok (endRobotWork t s)"
    using inv True by (cases "ad_state s") (auto simp: adm_inv_def adm_owner_ok_def endRobotWork_def)
  ultimately show ?thesis
    using inv True unfolding adm_inv_def adm_work_ok_def by (auto simp: endRobotWork_def)
qed (simp add: endRobotWork_def)

lemma store_beginRobotWork_inv: "adm_inv s \<Longrightarrow> store_beginRobotWork now s = (r, s') \<Longrightarrow> adm_inv s'"
  by (auto simp: store_beginRobotWork_def split: store_guard.splits prod.splits sum.splits dest: beginRobotWork_inv)

lemma assertRobotWorkAdmission_inv: "adm_inv s \<Longrightarrow> assertRobotWorkAdmission now s = (r, s') \<Longrightarrow> adm_inv s'"
proof -
  assume inv: "adm_inv s" and a: "assertRobotWorkAdmission now s = (r, s')"
  obtain x s1 where b: "store_beginRobotWork now s = (x, s1)" by (cases "store_beginRobotWork now s")
  with inv have "adm_inv s1" by (rule store_beginRobotWork_inv)
  with a b show "adm_inv s'"
    by (auto simp: assertRobotWorkAdmission_def split: sum.splits option.splits intro: endRobotWork_inv)
qed

lemma cancel_inv: "adm_inv s \<Longrightarrow> cancel now i s = (r, s') \<Longrightarrow> adm_inv s'"
  by (auto simp: cancel_def Let_def split: sum.splits if_splits intro: adm_inv_expire adm_inv_release)

lemma close_inv:
  assumes "adm_inv s"
  shows "adm_inv (close s)"
proof (cases "ad_state s = Adm_idle")
  case True
  with assms adm_op_truthy [OF assms] show ?thesis
    by (auto simp: close_def Let_def adm_inv_def adm_owner_ok_def adm_work_ok_def clearExpiryTimer_def)
next
  case False
  have "adm_inv (s\<lparr>ad_guard := Guard_none\<rparr>)"
    using assms by (auto simp: adm_inv_def adm_owner_ok_def adm_work_ok_def split: admission_state.splits)
  with False adm_op_truthy [OF assms] show ?thesis by (simp add: close_def Let_def adm_inv_release)
qed

lemma shutdown_inv:
  assumes "adm_inv s"
  shows "adm_inv (shutdown s)"
proof (cases "ad_shutdownClosed s")
  case False
  let ?s2 = "if op_truthy (ad_operationId s) then snd (release Res_cancelled (the (ad_operationId s)) [] s) else s"
  have inv: "adm_inv ?s2" and idle: "ad_state ?s2 = Adm_idle"
    using assms adm_inv_release adm_op_truthy [OF assms] by auto
  have "shutdown s = ?s2\<lparr>ad_shutdownClosed := True, ad_expiryTimer := None, ad_sync_paused := True, ad_guard := Guard_closed\<rparr>"
    using False by (simp add: shutdown_def Let_def clearExpiryTimer_def release_def)
  with inv idle show ?thesis by (auto simp: adm_inv_def adm_owner_ok_def adm_work_ok_def)
qed (use assms in \<open>simp add: shutdown_def\<close>)

lemma timer_inv: "adm_inv s \<Longrightarrow> adm_inv (timer_fires now s)"
  by (auto simp: timer_fires_def adm_inv_release split: option.splits)

lemma adm_step_inv: "adm_step s s' \<Longrightarrow> adm_inv s \<Longrightarrow> adm_inv s'"
proof (induction rule: adm_step.induct)
  case (finish op l s now waited evaluated r s')
  then show ?case by (intro finish_inv)
next
  case (status now s r s')
  then show ?case by (auto simp: admission_status_def Let_def intro: adm_inv_expire)
qed (auto intro: acquire_inv store_beginRobotWork_inv endRobotWork_inv assertRobotWorkAdmission_inv
    cancel_inv close_inv shutdown_inv timer_inv)

lemma adm_inv_init: "adm_inv admission_init"
  by (simp add: adm_inv_def admission_init_def adm_owner_ok_def adm_work_ok_def adm_completed_ok_def)

lemma adm_reachable_inv: "adm_step\<^sup>*\<^sup>* admission_init s \<Longrightarrow> adm_inv s"
  by (induction rule: rtranclp_induct) (auto intro: adm_step_inv adm_inv_init)

section \<open>The fence\<close>

text \<open>
  C7. The fence holds: in every reachable state where a deployment owns the admission, no robot work
  is in flight; and as long as its lease runs and the guard is installed, every attempt to begin
  robot work is refused and changes nothing.
\<close>

theorem deployment_fence:
  assumes "adm_step\<^sup>*\<^sup>* admission_init s" and "ad_state s = Adm_acquired"
    and "ad_expiresAtMs s = Some e" and "now < e" and "ad_guard s \<noteq> Guard_none"
  shows "ad_robotWorkInFlight s = 0 \<and> ad_tokens s = [] \<and> ad_sync_paused s
    \<and> store_beginRobotWork now s = (Inl DispatchAdmissionFencedError, s)"
proof -
  have inv: "adm_inv s" using assms(1) by (rule adm_reachable_inv)
  have "expireIfNeeded now s = s" using assms(3,4) by (simp add: expireIfNeeded_def)
  then have "beginRobotWork now s = (Inl DispatchAdmissionFencedError, s)"
    using assms(2) by (simp add: beginRobotWork_def)
  then have "store_beginRobotWork now s = (Inl DispatchAdmissionFencedError, s)"
    using assms(5) by (cases "ad_guard s") (auto simp: store_beginRobotWork_def)
  with inv assms(2) show ?thesis by (auto simp: adm_inv_def adm_owner_ok_def adm_work_ok_def)
qed

text \<open>
  A deployment is granted only when it may be: a resumed acquisition reports success exactly when
  the operation still owns the preparation, the synchroniser went idle, the forum reported no
  blockers and no robot work is in flight; it then holds a lease of the requested length, at most
  a day. In particular robot work that arrived meanwhile, which is admitted and ends the
  preparation, can never be overtaken by the grant.
\<close>

theorem deployment_grant_exact:
  assumes "adm_step\<^sup>*\<^sup>* admission_init s" and "(op, l) \<in> set (ad_pending s)"
    and "finishAcquire now waited evaluated op l s = (r, s')"
  shows "(\<exists>res. r = Inr res \<and> (res_acquired res \<longleftrightarrow> ad_operationId s = Some op \<and> ad_state s = Adm_preparing
      \<and> waited = Some True \<and> evaluated = Some [] \<and> ad_tokens s = [])
      \<and> (res_acquired res \<longleftrightarrow> ad_state s' = Adm_acquired \<and> ad_state s \<noteq> Adm_acquired)
      \<and> (res_acquired res \<longrightarrow> ad_operationId s' = Some op \<and> ad_expiresAtMs s' = Some (now + l)
          \<and> now < now + l \<and> now + l \<le> now + MAX_LEASE_MS)
      \<and> res_operationId res = op)"
proof -
  have inv: "adm_inv s" using assms(1) by (rule adm_reachable_inv)
  have l: "0 < l \<and> l \<le> MAX_LEASE_MS" using inv assms(2) by (auto simp: adm_inv_def)
  have work: "ad_robotWorkInFlight s = 0 \<longleftrightarrow> ad_tokens s = []" using inv by (simp add: adm_inv_def adm_work_ok_def)
  have sup: "\<not> res_acquired (superseded_result s op)" "res_operationId (superseded_result s op) = op"
    using inv by (auto simp: superseded_result_def adm_inv_def adm_completed_ok_def dest: map_of_SomeD split: option.splits)
  from inv assms(3) show ?thesis
  proof (cases rule: finishAcquire_cases)
    case superseded
    with sup show ?thesis by auto
  next
    case (blocked bs)
    have "\<not> (waited = Some True \<and> evaluated = Some [] \<and> ad_tokens s = [])"
    proof
      assume "waited = Some True \<and> evaluated = Some [] \<and> ad_tokens s = []"
      with blocked(1,2) work inv have "ad_state s' = Adm_acquired"
        using assms(3) by (auto simp: finishAcquire_def Let_def renewLease_def clearExpiryTimer_def)
      with blocked(4) show False by simp
    qed
    with blocked show ?thesis by auto
  next
    case acquired
    with l work show ?thesis by simp
  qed
qed

text \<open>
  The fence has one owner: while an operation holds the admission (preparing, or with an unexpired
  lease), an acquisition by another operation is answered as blocked and a cancellation by another
  is refused, and neither changes anything.
\<close>

theorem deployment_exclusive:
  assumes "adm_step\<^sup>*\<^sup>* admission_init s" and "ad_operationId s = Some op"
    and "case ad_expiresAtMs s of None \<Rightarrow> True | Some e \<Rightarrow> now < e" and "validOperationId raw = Inr other"
    and "other \<noteq> op" and "map_of (ad_completed s) other = None"
  shows "acquire_valid now other l s = (Inr (Resolved \<lparr>res_acquired = False, res_operationId = other,
      res_state = Res_blocked, res_blockers = [Blocker_owned (Some op)], res_expiresAt = ad_expiresAtMs s\<rparr>), s)
    \<and> cancel now raw s = (Inl Adm_owned_by_another, s)"
proof -
  have inv: "adm_inv s" using assms(1) by (rule adm_reachable_inv)
  have keep: "expireIfNeeded now s = s" using assms(3) by (auto simp: expireIfNeeded_def split: option.splits)
  have busy: "ad_state s \<noteq> Adm_idle" "op_truthy (ad_operationId s)"
    using inv assms(2) adm_op_truthy [OF inv] by (auto simp: adm_inv_def adm_owner_ok_def)
  show ?thesis
    using assms busy keep by (auto simp: acquire_valid_def cancel_def Let_def)
qed

text \<open>
  C22. The fence always opens again: unless the process is shutting down, robot work is admitted
  whenever no unexpired lease is held, because a preparation in progress is revoked and an expired
  lease released, however the operation that held it behaves.
\<close>

theorem deployment_reopens:
  assumes "adm_step\<^sup>*\<^sup>* admission_init s" and "\<not> ad_shutdownClosed s"
    and "case ad_expiresAtMs s of None \<Rightarrow> True | Some e \<Rightarrow> e \<le> now"
  shows "\<exists>t s'. beginRobotWork now s = (Inr t, s') \<and> ad_state s' = Adm_idle \<and> \<not> ad_inFlight s'
    \<and> ad_tokens s' = t # ad_tokens s \<and> t \<notin> set (ad_tokens s)"
proof -
  have inv: "adm_inv s" using assms(1) by (rule adm_reachable_inv)
  let ?s = "expireIfNeeded now s"
  have inv': "adm_inv ?s" using inv by (rule adm_inv_expire)
  have same: "ad_tokens ?s = ad_tokens s" "ad_shutdownClosed ?s = ad_shutdownClosed s"
    by (simp_all add: expireIfNeeded_def)
  have new: "ad_next_token ?s \<notin> set (ad_tokens s)" using inv' same by (auto simp: adm_inv_def adm_work_ok_def)
  have "ad_state ?s \<noteq> Adm_acquired"
    using inv assms(3) by (auto simp: expireIfNeeded_def adm_inv_def adm_owner_ok_def op_truthy_def split: option.splits)
  with same new inv' adm_op_truthy [OF inv'] assms(2) show ?thesis
    by (cases "ad_state ?s") (auto simp: beginRobotWork_def Let_def adm_inv_def adm_owner_ok_def)
qed

section \<open>Shutdown\<close>

text \<open>
  Shutdown pauses the synchroniser, but it does not close \<^verbatim>\<open>acquire\<close>: an acquisition that arrives while
  the server drains and is then cancelled (or ends in any other way) resumes the synchroniser.
\<close>

lemma shutdown_sync_resumed:
  "\<exists>s. adm_step\<^sup>*\<^sup>* (shutdown admission_init) s \<and> ad_sync_paused (shutdown admission_init)
     \<and> ad_shutdownClosed s \<and> \<not> ad_sync_paused s"
proof -
  let ?s1 = "snd (acquire 0 [97] (JsInt 1) (JsInt 1) (shutdown admission_init))"
  let ?s2 = "snd (cancel 0 [97] ?s1)"
  have "adm_step (shutdown admission_init) ?s1" "adm_step ?s1 ?s2"
    by (auto intro: adm_step.acquire adm_step.cancel prod.collapse [symmetric])
  then have "adm_step\<^sup>*\<^sup>* (shutdown admission_init) ?s2" by (meson converse_rtranclp_into_rtranclp rtranclp.rtrancl_refl)
  moreover have "ad_sync_paused (shutdown admission_init)" "ad_shutdownClosed ?s2" "\<not> ad_sync_paused ?s2"
    by (simp_all add: shutdown_def admission_init_def Let_def op_truthy_def clearExpiryTimer_def acquire_def
        validOperationId_def js_trim_def is_space_def MAX_OPERATION_ID_LENGTH_def boundedPositiveMilliseconds_def
        MAX_WAIT_TIMEOUT_MS_def MAX_LEASE_MS_def acquire_valid_def expireIfNeeded_def cancel_def)
  ultimately show ?thesis by blast
qed

section \<open>Witnesses\<close>

definition demo_preparing :: admission where
  "demo_preparing = snd (acquire 0 [97] (JsInt 1) (JsInt 60000) admission_init)"

definition demo_acquired :: admission where
  "demo_acquired = (snd (finishAcquire 5 (Some True) (Some []) [97] 60000 demo_preparing))\<lparr>ad_pending := []\<rparr>"

lemma demo_preparing_eq:
  "demo_preparing = admission_init\<lparr>ad_state := Adm_preparing, ad_operationId := Some [97], ad_sync_paused := True,
     ad_inFlight := True, ad_pending := [([97], 60000)]\<rparr>"
  by (simp add: demo_preparing_def admission_init_def Let_def acquire_def
      validOperationId_def js_trim_def is_space_def MAX_OPERATION_ID_LENGTH_def boundedPositiveMilliseconds_def
      MAX_WAIT_TIMEOUT_MS_def MAX_LEASE_MS_def acquire_valid_def expireIfNeeded_def)

lemma demo_finish:
  "finishAcquire 5 (Some True) (Some []) [97] 60000 demo_preparing =
    (Inr \<lparr>res_acquired = True, res_operationId = [97], res_state = Res_acquired, res_blockers = [],
       res_expiresAt = Some 60005\<rparr>,
     demo_preparing\<lparr>ad_state := Adm_acquired, ad_inFlight := False, ad_expiresAtMs := Some 60005,
       ad_expiryTimer := Some ([97], 60005)\<rparr>)"
  by (simp add: demo_preparing_eq admission_init_def finishAcquire_def Let_def renewLease_def clearExpiryTimer_def
      admission_result_of_def op_truthy_def)

lemma demo_steps: "adm_step\<^sup>*\<^sup>* admission_init demo_preparing" "adm_step\<^sup>*\<^sup>* admission_init demo_acquired"
proof -
  have 1: "adm_step admission_init demo_preparing"
    unfolding demo_preparing_def by (intro adm_step.acquire) (rule prod.collapse [symmetric])
  then show s1: "adm_step\<^sup>*\<^sup>* admission_init demo_preparing" by (rule r_into_rtranclp)
  have "adm_step demo_preparing demo_acquired"
    using adm_step.finish [OF _ demo_finish] by (simp add: demo_acquired_def demo_finish) (simp add: demo_preparing_eq)
  with s1 show "adm_step\<^sup>*\<^sup>* admission_init demo_acquired" by (rule rtranclp.rtrancl_into_rtrancl)
qed

lemma demo_acquired_fields:
  "ad_state demo_acquired = Adm_acquired" "ad_expiresAtMs demo_acquired = Some 60005"
  "ad_guard demo_acquired = Guard_coordinator" "ad_operationId demo_acquired = Some [97]"
  "ad_completed demo_acquired = []" "ad_shutdownClosed demo_acquired = False"
  by (simp_all add: demo_acquired_def demo_finish) (simp_all add: demo_preparing_eq admission_init_def)

theorem deployment_fence_witness:
  "store_beginRobotWork 100 demo_acquired = (Inl DispatchAdmissionFencedError, demo_acquired)"
  using deployment_fence [OF demo_steps(2), of 60005 100] by (simp add: demo_acquired_fields)

theorem deployment_grant_exact_witness:
  "\<exists>res. fst (finishAcquire 5 (Some True) (Some []) [97] 60000 demo_preparing) = Inr res \<and> res_acquired res"
  using deployment_grant_exact [OF demo_steps(1) _ demo_finish] demo_finish
  by (simp add: demo_preparing_eq admission_init_def)

theorem deployment_exclusive_witness:
  "cancel 100 [98] demo_acquired = (Inl Adm_owned_by_another, demo_acquired)"
  using deployment_exclusive [OF demo_steps(2), of "[97]" 100 "[98]" "[98]" 1]
  by (simp add: demo_acquired_fields validOperationId_def js_trim_def is_space_def MAX_OPERATION_ID_LENGTH_def)

theorem deployment_reopens_witness:
  "\<exists>t s'. beginRobotWork 70000 demo_acquired = (Inr t, s') \<and> ad_state s' = Adm_idle"
  using deployment_reopens [OF demo_steps(2), of 70000] by (auto simp: demo_acquired_fields)

end
