(* ===== verification/Forum_Db.thy ===== *)
theory Forum_Db
  imports Core_Domain Message_Drafts Deployment_Admission
begin

text \<open>
  The tables of \<^verbatim>\<open>server/store.ts\<close> that the dispatch queue, its audit trail and conversation
  compaction work on, as one record, together with the topic and post operations that write them.
  An operation returns its result and the tables after it; a thrown error rolls the tables back
  (the admission fence is process memory and is not rolled back). Text columns holding JSON carry
  the decoded value, \<open>None\<close> standing for malformed text.
\<close>

section \<open>Rows\<close>

datatype topic_status = Topic_open | Topic_locked | Topic_archived

record topic_row =
  to_id :: ident
  to_forum :: ident
  to_title :: js_string
  to_status :: topic_status
  to_tags :: "js_string list"
  to_robot_mode :: robot_mode
  to_auto_compact :: bool
  to_auto_compact_revision :: int
  to_created_by :: ident
  to_created_at :: iso_time
  to_updated_at :: iso_time

record post_row =
  po_id :: ident
  po_topic :: ident
  po_parent :: "ident option"
  po_author :: ident
  po_body :: js_string
  po_source_message :: "ident option"
  po_silent :: bool
  po_follow_up :: bool
  po_created_at :: iso_time
  po_edited_at :: "iso_time option"
  po_deleted_at :: "iso_time option"

datatype ref_kind = Ref_post | Ref_topic | Ref_other

record external_ref_row =
  xr_surface_id :: ident
  xr_surface_kind :: string
  xr_external_id :: string
  xr_kind :: ref_kind
  xr_scope :: "string option"
  xr_scope_kind :: "string option"
  xr_mapped_topic :: "ident option"
  xr_mapped_post :: "ident option"

datatype dispatch_status = PD_pending | PD_dispatching | PD_dispatched | PD_failed | PD_superseded | PD_abandoned

record dispatch_row =
  pd_id :: ident
  pd_topic :: ident
  pd_post :: ident
  pd_session :: ident
  pd_status :: dispatch_status
  pd_mode :: string
  pd_generation :: int
  pd_claim_token :: "ident option"
  pd_origin_key :: string
  pd_origin :: "utterance_origin option"
  pd_contributors :: "ident list option"
  pd_model :: "string option"
  pd_reasoning_effort :: "string option"
  pd_auto_compact :: "bool option"
  pd_attempt_count :: nat
  pd_last_attempt_at :: "iso_time option"
  pd_next_attempt_at :: "iso_time option"
  pd_dispatched_at :: "iso_time option"
  pd_error :: "js_string option"
  pd_created_at :: iso_time
  pd_updated_at :: iso_time

datatype attempt_event = Ev_claimed | Ev_dispatched | Ev_retry_scheduled | Ev_terminal_failure | Ev_abandoned | Ev_superseded
datatype attempt_class = Cl_transport | Cl_application | Cl_lifecycle

record attempt_row =
  at_id :: ident
  at_dispatch :: ident
  at_number :: nat
  at_event :: attempt_event
  at_class :: "attempt_class option"
  at_retry_at :: "iso_time option"
  at_error :: "js_string option"
  at_claim_token :: "ident option"
  at_created_at :: iso_time

record generation_row =
  ge_topic :: ident
  ge_generation :: int
  ge_updated_at :: iso_time

record active_origin_row =
  ao_topic :: ident
  ao_dispatch :: ident
  ao_generation :: int
  ao_origin_key :: string
  ao_origin :: utterance_origin
  ao_accepted_at :: iso_time

record robot_state_row =
  rs_topic :: ident
  rs_session :: ident
  rs_activity :: string
  rs_current_plan :: "ident option"
  rs_last_updated_at :: iso_time
  rs_error_message :: "js_string option"
  rs_error_at :: "iso_time option"
  rs_error_post :: "ident option"
  rs_error_turn :: "ident option"

datatype op_status = Op_pending | Op_running | Op_succeeded | Op_failed | Op_needs_manual_review

record compaction_row =
  co_id :: ident
  co_topic :: ident
  co_session :: ident
  co_initiated_by :: ident
  co_expected_leaf :: ident
  co_custom_instructions :: "js_string option"
  co_recovery_prompt :: js_string
  co_status :: op_status
  co_event :: "ident option"
  co_recovery_post :: "ident option"
  co_error :: "js_string option"
  co_attempt_count :: nat
  co_next_attempt_at :: "iso_time option"
  co_created_at :: iso_time
  co_started_at :: "iso_time option"
  co_finished_at :: "iso_time option"

datatype event_detail = Detail_error js_string | Detail_compacted ident ident

record op_event_row =
  oe_id :: ident
  oe_topic :: ident
  oe_anchor_post :: "ident option"
  oe_type :: string
  oe_category :: string
  oe_succeeded :: bool
  oe_summary :: string
  oe_detail :: "event_detail option"
  oe_source_kind :: string
  oe_source_id :: ident
  oe_created_at :: iso_time

text \<open>
  The tables. Sessions, identities, forums, fork, clone and auto-run rows appear with the columns
  the modelled operations read.
\<close>

record forum_db =
  fb_topics :: "topic_row table"
  fb_posts :: "post_row table"
  fb_external_refs :: "external_ref_row table"
  fb_drafts :: "draft_row table"
  fb_dispatches :: "dispatch_row table"
  fb_generations :: "generation_row table"
  fb_attempts :: "attempt_row table"
  fb_active_origins :: "active_origin_row table"
  fb_robot_states :: "robot_state_row table"
  fb_compactions :: "compaction_row table"
  fb_events :: "op_event_row table"
  fb_auto_runs :: "(ident \<times> string) table"
  fb_forks :: "(ident \<times> op_status) table"
  fb_clones :: "(ident \<times> ident \<times> op_status) table"
  fb_session_ids :: "ident list"
  fb_identity_ids :: "ident list"
  fb_forum_ids :: "ident list"
  fb_admission :: admission

datatype store_error = Store_error string | Store_constraint | Store_fenced admission_error

section \<open>Topics\<close>

definition getTopic :: "ident \<Rightarrow> forum_db \<Rightarrow> topic_row option" where
  "getTopic i db = sql_get (\<lambda>t. to_id t = i) (fb_topics db)"

definition topic_exists :: "ident \<Rightarrow> forum_db \<Rightarrow> bool" where
  "topic_exists i db = sql_exists (\<lambda>t. to_id t = i) (fb_topics db)"

definition update_topic ::
  "ident \<Rightarrow> (topic_row \<Rightarrow> topic_row) \<Rightarrow> forum_db \<Rightarrow> store_error + (topic_row option \<times> forum_db)" where
  \<comment> \<open>the shape shared by the single-column topic updates\<close>
  "update_topic i f db = (case getTopic i db of
     None \<Rightarrow> Inl (Store_error ''topic not found'')
   | Some _ \<Rightarrow> let db' = db\<lparr>fb_topics := sql_update (\<lambda>t. to_id t = i) f (fb_topics db)\<rparr> in Inr (getTopic i db', db'))"

definition updateTopicStatus where
  "updateTopicStatus now i status db = update_topic i (\<lambda>t. t\<lparr>to_status := status, to_updated_at := now\<rparr>) db"

definition updateTopicTitle where
  "updateTopicTitle now i title db = update_topic i (\<lambda>t. t\<lparr>to_title := title, to_updated_at := now\<rparr>) db"

definition updateTopicTags where
  "updateTopicTags now i tags db = update_topic i (\<lambda>t. t\<lparr>to_tags := tags, to_updated_at := now\<rparr>) db"

record create_topic_input =
  ct_forum :: ident
  ct_title :: js_string
  ct_author :: ident
  ct_body :: js_string
  ct_robot_mode :: "robot_mode option"
  ct_silent :: bool
  ct_auto_compact :: bool
  ct_draft :: "(ident \<times> int) option"

definition draft_matches ::
  "(ident \<times> int) \<Rightarrow> ident \<Rightarrow> iso_time \<Rightarrow> (draft_row \<Rightarrow> bool) \<Rightarrow> draft_row table \<Rightarrow> bool" where
  \<comment> \<open>the draft named by a publication: the author's, in its place, at its revision, unexpired\<close>
  "draft_matches d author now place t = (case d of (i, revision) \<Rightarrow>
     sql_exists (\<lambda>r. dr_id r = i \<and> dr_owner r = author \<and> place r \<and> dr_revision r = revision
       \<and> dr_expires_at r > now) t)"

definition consume_draft :: "(ident \<times> int) option \<Rightarrow> ident \<Rightarrow> draft_row table \<Rightarrow> draft_row table" where
  "consume_draft d author t = (case d of None \<Rightarrow> t | Some (i, revision) \<Rightarrow>
     sql_delete (\<lambda>r. dr_id r = i \<and> dr_owner r = author \<and> dr_revision r = revision) t)"

definition new_post :: "ident \<Rightarrow> ident \<Rightarrow> ident option \<Rightarrow> ident \<Rightarrow> js_string \<Rightarrow> ident option \<Rightarrow> bool \<Rightarrow> iso_time \<Rightarrow> post_row" where
  "new_post i topic parent author body source silent now = \<lparr>po_id = i, po_topic = topic, po_parent = parent,
     po_author = author, po_body = body, po_source_message = source, po_silent = silent, po_follow_up = False,
     po_created_at = now, po_edited_at = None, po_deleted_at = None\<rparr>"

definition getPost :: "ident \<Rightarrow> forum_db \<Rightarrow> post_row option" where
  "getPost i db = sql_get (\<lambda>p. po_id p = i) (fb_posts db)"

definition createTopic ::
  "iso_time \<Rightarrow> uuid_stream \<Rightarrow> create_topic_input \<Rightarrow> forum_db \<Rightarrow> store_error + ((topic_row option \<times> post_row option) \<times> forum_db)" where
  "createTopic now u input db =
    (let topicId = u 0; postId = u 1; author = ct_author input in
     if (case ct_draft input of None \<Rightarrow> False | Some d \<Rightarrow>
           \<not> draft_matches d author now (\<lambda>r. dr_context r = DC_new_thread \<and> dr_forum r = Some (ct_forum input)) (fb_drafts db))
     then Inl (Store_error ''draft changed in another session'')
     else if topic_exists topicId db \<or> sql_exists (\<lambda>p. po_id p = postId) (fb_posts db)
        \<or> ct_forum input \<notin> set (fb_forum_ids db)
     then Inl Store_constraint
     else let topic = \<lparr>to_id = topicId, to_forum = ct_forum input, to_title = ct_title input, to_status = Topic_open,
                to_tags = [], to_robot_mode = (case ct_robot_mode input of None \<Rightarrow> RM_auto | Some m \<Rightarrow> m),
                to_auto_compact = ct_auto_compact input, to_auto_compact_revision = 0,
                to_created_by = author, to_created_at = now, to_updated_at = now\<rparr>;
              db' = db\<lparr>fb_topics := sql_insert topic (fb_topics db),
                fb_posts := sql_insert (new_post postId topicId None author (ct_body input) None (ct_silent input) now) (fb_posts db),
                fb_drafts := consume_draft (ct_draft input) author (fb_drafts db)\<rparr>
          in Inr ((getTopic topicId db', getPost postId db'), db'))"

section \<open>Posts\<close>

record create_post_input =
  cp_topic :: ident
  cp_parent :: "ident option"
  cp_author :: ident
  cp_body :: js_string
  cp_source_message :: "ident option"
  cp_silent :: bool
  cp_draft :: "(ident \<times> int) option"
  cp_auto_compact :: "bool option"
  cp_auto_compact_revision :: "int option"

definition apply_auto_compact :: "iso_time \<Rightarrow> create_post_input \<Rightarrow> forum_db \<Rightarrow> store_error + forum_db" where
  \<comment> \<open>the compare-and-set of the topic's auto-compaction setting carried by a reply\<close>
  "apply_auto_compact now input db =
    (case (cp_auto_compact input, cp_auto_compact_revision input) of
       (None, None) \<Rightarrow> Inr db
     | (Some b, Some revision) \<Rightarrow>
         (case getTopic (cp_topic input) db of
            None \<Rightarrow> Inl (Store_error ''topic not found'')
          | Some t \<Rightarrow>
              if to_auto_compact_revision t \<noteq> revision
              then Inl (Store_error ''auto-compaction setting changed in another request'')
              else if to_auto_compact t = b then Inr db
              else let hit = (\<lambda>t. to_id t = cp_topic input \<and> to_auto_compact_revision t = revision) in
                if sql_count hit (fb_topics db) \<noteq> 1
                then Inl (Store_error ''auto-compaction setting changed in another request'')
                else Inr (db\<lparr>fb_topics := sql_update hit (\<lambda>t. t\<lparr>to_auto_compact := b,
                  to_auto_compact_revision := to_auto_compact_revision t + 1, to_updated_at := now\<rparr>) (fb_topics db)\<rparr>))
     | _ \<Rightarrow> Inl (Store_error ''auto-compaction setting and revision must be provided together''))"

definition createPost ::
  "iso_time \<Rightarrow> ident \<Rightarrow> create_post_input \<Rightarrow> forum_db \<Rightarrow> store_error + (post_row option \<times> forum_db)" where
  "createPost now postId input db =
    (let author = cp_author input in
     if (case cp_draft input of None \<Rightarrow> False | Some d \<Rightarrow>
           \<not> draft_matches d author now (\<lambda>r. dr_context r = DC_reply \<and> dr_topic r = Some (cp_topic input)) (fb_drafts db))
     then Inl (Store_error ''draft changed in another session'')
     else case apply_auto_compact now input db of
         Inl e \<Rightarrow> Inl e
       | Inr db1 \<Rightarrow>
           if sql_exists (\<lambda>p. po_id p = postId) (fb_posts db1) \<or> \<not> topic_exists (cp_topic input) db1
           then Inl Store_constraint
           else let db2 = db1\<lparr>fb_posts := sql_insert (new_post postId (cp_topic input) (cp_parent input) author
                      (cp_body input) (cp_source_message input) (cp_silent input) now) (fb_posts db1),
                    fb_drafts := consume_draft (cp_draft input) author (fb_drafts db1)\<rparr>
                in Inr (getPost postId db2, db2))"

definition update_live_post ::
  "ident \<Rightarrow> string \<Rightarrow> (post_row \<Rightarrow> post_row) \<Rightarrow> forum_db \<Rightarrow> store_error + (post_row option \<times> forum_db)" where
  "update_live_post i deleted_message f db = (case getPost i db of
     None \<Rightarrow> Inl (Store_error ''post not found'')
   | Some p \<Rightarrow> if po_deleted_at p \<noteq> None then Inl (Store_error deleted_message)
       else let db' = db\<lparr>fb_posts := sql_update (\<lambda>p. po_id p = i) f (fb_posts db)\<rparr> in Inr (getPost i db', db'))"

definition updatePost where
  "updatePost now i body db =
    update_live_post i ''cannot edit deleted post'' (\<lambda>p. p\<lparr>po_body := body, po_edited_at := Some now\<rparr>) db"

definition setPostSilent where
  "setPostSilent i silent db = update_live_post i ''cannot update deleted post'' (\<lambda>p. p\<lparr>po_silent := silent\<rparr>) db"

definition getLatestPostId :: "ident \<Rightarrow> forum_db \<Rightarrow> ident option" where
  "getLatestPostId topic db = (case sql_order_by (\<lambda>p. - po_created_at p)
     (sql_select (\<lambda>p. po_topic p = topic \<and> po_deleted_at p = None) (fb_posts db)) of [] \<Rightarrow> None | p # _ \<Rightarrow> Some (po_id p))"

section \<open>Operational events\<close>

definition createTopicOperationalEvent ::
  "op_event_row \<Rightarrow> forum_db \<Rightarrow> store_error + (op_event_row \<times> forum_db)" where
  "createTopicOperationalEvent e db =
    (case sql_get (\<lambda>x. oe_source_kind x = oe_source_kind e \<and> oe_source_id x = oe_source_id e) (fb_events db) of
       Some existing \<Rightarrow> Inr (existing, db)
     | None \<Rightarrow>
         if sql_exists (\<lambda>x. oe_id x = oe_id e) (fb_events db) \<or> \<not> topic_exists (oe_topic e) db
            \<or> (case oe_anchor_post e of None \<Rightarrow> False | Some q \<Rightarrow> \<not> sql_exists (\<lambda>p. po_id p = q) (fb_posts db))
         then Inl Store_constraint
         else Inr (e, db\<lparr>fb_events := sql_insert e (fb_events db)\<rparr>))"

section \<open>Robot state\<close>

definition getRobotState :: "ident \<Rightarrow> forum_db \<Rightarrow> robot_state_row option" where
  "getRobotState topic db = sql_get (\<lambda>r. rs_topic r = topic) (fb_robot_states db)"

definition update_robot ::
  "ident \<Rightarrow> (robot_state_row \<Rightarrow> robot_state_row) \<Rightarrow> forum_db \<Rightarrow> robot_state_row option \<times> forum_db" where
  "update_robot topic f db = (case getRobotState topic db of
     None \<Rightarrow> (None, db)
   | Some _ \<Rightarrow> let db' = db\<lparr>fb_robot_states := sql_update (\<lambda>r. rs_topic r = topic) f (fb_robot_states db)\<rparr>
       in (getRobotState topic db', db'))"

definition clearRobotTurnError where
  "clearRobotTurnError now topic db = update_robot topic (\<lambda>r. r\<lparr>rs_error_message := None, rs_error_at := None,
     rs_error_post := None, rs_error_turn := None, rs_last_updated_at := now\<rparr>) db"

definition setRobotTurnError where
  "setRobotTurnError now topic message post turn db = update_robot topic (\<lambda>r. r\<lparr>rs_activity := ''idle'',
     rs_current_plan := None, rs_error_message := Some (js_slice 1000 message), rs_error_at := Some now,
     rs_error_post := post, rs_error_turn := turn, rs_last_updated_at := now\<rparr>) db"

definition plan_after :: "string \<Rightarrow> ident option \<Rightarrow> ident option" where
  "plan_after activity plan = (if activity = ''idle'' \<or> activity = ''stopped'' then None else plan)"

definition setRobotActivity where
  "setRobotActivity now topic activity db = update_robot topic (\<lambda>r. r\<lparr>rs_activity := activity,
     rs_current_plan := plan_after activity (rs_current_plan r), rs_last_updated_at := now\<rparr>) db"

definition resetRobotActivities :: "iso_time \<Rightarrow> string \<Rightarrow> forum_db \<Rightarrow> nat \<times> forum_db" where
  "resetRobotActivities now activity db =
    (let hit = (\<lambda>r. if activity = ''idle''
           then (rs_activity r \<noteq> activity \<or> rs_current_plan r \<noteq> None)
             \<and> rs_activity r \<notin> {''stopping'', ''stopped'', ''uncertain''}
           else rs_activity r \<noteq> activity)
     in (sql_count hit (fb_robot_states db),
         db\<lparr>fb_robot_states := sql_update hit (\<lambda>r. r\<lparr>rs_activity := activity,
           rs_current_plan := plan_after activity (rs_current_plan r), rs_last_updated_at := now\<rparr>) (fb_robot_states db)\<rparr>))"

end
