(* ===== verification/Post_Dispatch.thy ===== *)
theory Post_Dispatch
  imports Forum_Db
begin

text \<open>
  The durable dispatch queue of \<^verbatim>\<open>server/store.ts\<close>: creation of a dispatch, per-topic generations,
  claims with their tokens, completion, failure, supersession, the append-only audit trail of
  attempts and the origin of the active turn. \<^verbatim>\<open>nowIso()\<close> and \<^verbatim>\<open>randomUUID()\<close> are arguments; the
  identifiers drawn for audit rows are taken not to collide.
\<close>

section \<open>Generations\<close>

definition topic_generation :: "forum_db \<Rightarrow> ident \<Rightarrow> int option" where
  "topic_generation db topic = map_option ge_generation (sql_get (\<lambda>g. ge_topic g = topic) (fb_generations db))"

definition generation_current :: "forum_db \<Rightarrow> dispatch_row \<Rightarrow> bool" where
  \<comment> \<open>the join with, or the sub-select from, \<^verbatim>\<open>post_dispatch_generations\<close>\<close>
  "generation_current db d \<longleftrightarrow> topic_generation db (pd_topic d) = Some (pd_generation d)"

definition ensurePostDispatchGeneration :: "iso_time \<Rightarrow> ident \<Rightarrow> forum_db \<Rightarrow> store_error + forum_db" where
  "ensurePostDispatchGeneration now topic db =
    (if topic_generation db topic \<noteq> None then Inr db
     else if \<not> topic_exists topic db then Inl Store_constraint
     else Inr (db\<lparr>fb_generations := sql_insert \<lparr>ge_topic = topic, ge_generation = 0, ge_updated_at = now\<rparr> (fb_generations db)\<rparr>))"

definition getTopicDispatchGeneration :: "iso_time \<Rightarrow> ident \<Rightarrow> forum_db \<Rightarrow> store_error + (int \<times> forum_db)" where
  "getTopicDispatchGeneration now topic db = (case ensurePostDispatchGeneration now topic db of
     Inl e \<Rightarrow> Inl e
   | Inr db' \<Rightarrow> (case topic_generation db' topic of None \<Rightarrow> Inl Store_constraint | Some g \<Rightarrow> Inr (g, db')))"

definition isTopicDispatchGenerationCurrent where
  "isTopicDispatchGenerationCurrent now topic generation db = (case getTopicDispatchGeneration now topic db of
     Inl e \<Rightarrow> Inl e | Inr (g, db') \<Rightarrow> Inr (g = generation, db'))"

section \<open>Creation\<close>

definition getPostDispatch :: "ident \<Rightarrow> forum_db \<Rightarrow> dispatch_row option" where
  "getPostDispatch i db = sql_get (\<lambda>d. pd_id d = i) (fb_dispatches db)"

definition getPostDispatchByPost :: "ident \<Rightarrow> forum_db \<Rightarrow> dispatch_row option" where
  "getPostDispatchByPost post db = sql_get (\<lambda>d. pd_post d = post) (fb_dispatches db)"

definition resolveUtteranceOrigin :: "ident \<Rightarrow> forum_db \<Rightarrow> store_error + utterance_origin" where
  "resolveUtteranceOrigin postId db = (case getPost postId db of
     None \<Rightarrow> Inl (Store_error ''post not found for origin resolution'')
   | Some post \<Rightarrow>
       let own = sql_get (\<lambda>r. xr_mapped_post r = Some postId \<and> xr_kind r = Ref_post) (fb_external_refs db);
           is_first = (map_option po_id (sql_get (\<lambda>p. po_topic p = po_topic post) (fb_posts db)) = Some (po_id post));
           ref = (case own of Some r \<Rightarrow> Some r
             | None \<Rightarrow> if is_first
                 then sql_get (\<lambda>r. xr_mapped_topic r = Some (po_topic post) \<and> xr_kind r = Ref_topic) (fb_external_refs db)
                 else None)
       in Inr (case ref of
            None \<Rightarrow> \<lparr>uo_utteranceId = po_id post, uo_originKind = Origin_forum, uo_channelKind = ''web'',
              uo_topicId = po_topic post, uo_postId = po_id post, uo_surfaceId = None,
              uo_externalEventId = None, uo_scope = None, uo_scopeKind = None\<rparr>
          | Some r \<Rightarrow> \<lparr>uo_utteranceId = po_id post, uo_originKind = Origin_external,
              uo_channelKind = xr_surface_kind r, uo_topicId = po_topic post, uo_postId = po_id post,
              uo_surfaceId = Some (xr_surface_id r), uo_externalEventId = Some (xr_external_id r),
              uo_scope = (if xr_kind r = Ref_topic then Some (xr_external_id r) else xr_scope r),
              uo_scopeKind = (if xr_kind r = Ref_topic then Some ''thread'' else xr_scope_kind r)\<rparr>))"

record create_dispatch_input =
  cd_topic :: ident
  cd_post :: ident
  cd_session :: ident
  cd_mode :: "string option"
  cd_model :: "string option"
  cd_reasoning_effort :: "string option"
  cd_auto_compact :: "bool option"

definition new_dispatch :: "ident \<Rightarrow> iso_time \<Rightarrow> int \<Rightarrow> utterance_origin \<Rightarrow> create_dispatch_input \<Rightarrow> dispatch_row" where
  "new_dispatch i now g orig input = \<lparr>pd_id = i, pd_topic = cd_topic input, pd_post = cd_post input,
     pd_session = cd_session input, pd_status = PD_pending,
     pd_mode = (case cd_mode input of None \<Rightarrow> ''auto'' | Some m \<Rightarrow> m), pd_generation = g,
     pd_claim_token = None, pd_origin_key = normalizedOriginKey orig, pd_origin = Some orig,
     pd_contributors = Some [cd_post input], pd_model = cd_model input,
     pd_reasoning_effort = cd_reasoning_effort input, pd_auto_compact = cd_auto_compact input,
     pd_attempt_count = 0, pd_last_attempt_at = None, pd_next_attempt_at = Some now,
     pd_dispatched_at = None, pd_error = None, pd_created_at = now, pd_updated_at = now\<rparr>"

definition createPostDispatch ::
  "int \<Rightarrow> iso_time \<Rightarrow> ident \<Rightarrow> create_dispatch_input \<Rightarrow> forum_db \<Rightarrow> (store_error + dispatch_row) \<times> forum_db" where
  \<comment> \<open>the first argument is \<^verbatim>\<open>Date.now()\<close> as the admission fence reads it\<close>
  "createPostDispatch clock now i input db =
    (case getPostDispatchByPost (cd_post input) db of
       Some existing \<Rightarrow> (Inr existing, db)
     | None \<Rightarrow>
        (case assertRobotWorkAdmission clock (fb_admission db) of
           (Inl e, a) \<Rightarrow> (Inl (Store_fenced e), db\<lparr>fb_admission := a\<rparr>)
         | (Inr _, a) \<Rightarrow>
            let db0 = db\<lparr>fb_admission := a\<rparr> in
            (case resolveUtteranceOrigin (cd_post input) db0 of
               Inl e \<Rightarrow> (Inl e, db0)
             | Inr orig \<Rightarrow>
                (case ensurePostDispatchGeneration now (cd_topic input) db0 of
                   Inl e \<Rightarrow> (Inl e, db0)
                 | Inr db1 \<Rightarrow>
                    (case topic_generation db1 (cd_topic input) of
                       None \<Rightarrow> (Inl Store_constraint, db0)
                     | Some g \<Rightarrow>
                        if sql_exists (\<lambda>d. pd_id d = i \<or> pd_post d = cd_post input) (fb_dispatches db1)
                           \<or> \<not> topic_exists (cd_topic input) db1 \<or> getPost (cd_post input) db1 = None
                           \<or> cd_session input \<notin> set (fb_session_ids db1)
                        then (Inl Store_constraint, db0)
                        else let row = new_dispatch i now g orig input in
                          (Inr row, db1\<lparr>fb_dispatches := sql_insert row (fb_dispatches db1)\<rparr>))))))"

section \<open>Audit trail\<close>

definition is_control :: "code_unit \<Rightarrow> bool" where
  "is_control c \<longleftrightarrow> c \<le> 8 \<or> c = 11 \<or> c = 12 \<or> (14 \<le> c \<and> c \<le> 31) \<or> c = 127"

fun squeeze_spaces :: "bool \<Rightarrow> js_string \<Rightarrow> js_string" where
  \<comment> \<open>\<^verbatim>\<open>replace(/\s+/g, ' ')\<close>\<close>
  "squeeze_spaces run [] = []"
| "squeeze_spaces run (c # s) = (if is_space c then (if run then squeeze_spaces True s else 32 # squeeze_spaces True s)
     else c # squeeze_spaces False s)"

definition sanitizeAttemptError :: "js_string option \<Rightarrow> js_string option" where
  "sanitizeAttemptError e = (case e of None \<Rightarrow> None | Some m \<Rightarrow>
     let s = js_slice 500 (js_trim (squeeze_spaces False (map (\<lambda>c. if is_control c then 32 else c) m)))
     in if s = [] then None else Some s)"

definition insertPostDispatchAttempt :: "attempt_row \<Rightarrow> forum_db \<Rightarrow> forum_db" where
  "insertPostDispatchAttempt a db = db\<lparr>fb_attempts :=
     sql_insert (a\<lparr>at_error := sanitizeAttemptError (at_error a)\<rparr>) (fb_attempts db)\<rparr>"

definition nextPostDispatchAuditAttemptNumber :: "ident \<Rightarrow> forum_db \<Rightarrow> nat" where
  "nextPostDispatchAuditAttemptNumber i db =
    Max (insert 0 (at_number ` set (sql_select (\<lambda>a. at_dispatch a = i \<and> at_event a = Ev_claimed) (fb_attempts db)))) + 1"

definition claimedPostDispatchAuditAttemptNumber :: "ident \<Rightarrow> ident \<Rightarrow> nat \<Rightarrow> forum_db \<Rightarrow> nat" where
  "claimedPostDispatchAuditAttemptNumber i token fallback db =
    (case rev (sql_select (\<lambda>a. at_dispatch a = i \<and> at_event a = Ev_claimed \<and> at_claim_token a = Some token) (fb_attempts db)) of
       [] \<Rightarrow> fallback | a # _ \<Rightarrow> at_number a)"

definition attempt :: "ident \<Rightarrow> ident \<Rightarrow> nat \<Rightarrow> attempt_event \<Rightarrow> iso_time \<Rightarrow> attempt_row" where
  "attempt aid i n ev now = \<lparr>at_id = aid, at_dispatch = i, at_number = n, at_event = ev, at_class = None,
     at_retry_at = None, at_error = None, at_claim_token = None, at_created_at = now\<rparr>"

definition lifecycle_attempt :: "ident \<Rightarrow> dispatch_row \<Rightarrow> attempt_event \<Rightarrow> js_string \<Rightarrow> iso_time \<Rightarrow> attempt_row" where
  "lifecycle_attempt aid row ev why now = (attempt aid (pd_id row) (pd_attempt_count row) ev now)
     \<lparr>at_class := Some Cl_lifecycle, at_error := Some why\<rparr>"

definition listPostDispatchAttempts :: "ident list \<Rightarrow> int \<Rightarrow> forum_db \<Rightarrow> attempt_row list" where
  "listPostDispatchAttempts ids limit db = (if ids = [] then [] else
     take (nat (max 1 (min 200 limit)))
       (sql_order_by (\<lambda>a. - at_created_at a) (rev (sql_select (\<lambda>a. at_dispatch a \<in> set ids) (fb_attempts db)))))"

section \<open>Claims\<close>

definition open_status :: "dispatch_status \<Rightarrow> bool" where
  \<comment> \<open>\<^verbatim>\<open>status in ('pending', 'dispatching')\<close>\<close>
  "open_status s \<longleftrightarrow> s = PD_pending \<or> s = PD_dispatching"

definition update_dispatches ::
  "(dispatch_row \<Rightarrow> bool) \<Rightarrow> (dispatch_row \<Rightarrow> dispatch_row) \<Rightarrow> forum_db \<Rightarrow> nat \<times> forum_db" where
  \<comment> \<open>an \<^verbatim>\<open>update post_dispatches\<close> and the number of rows it changed\<close>
  "update_dispatches hit f db = (sql_count hit (fb_dispatches db),
     db\<lparr>fb_dispatches := sql_update hit f (fb_dispatches db)\<rparr>)"

definition claimPostDispatch ::
  "iso_time \<Rightarrow> ident \<Rightarrow> ident \<Rightarrow> ident \<Rightarrow> dispatch_status \<Rightarrow> iso_time option \<Rightarrow> forum_db \<Rightarrow> dispatch_row option \<times> forum_db" where
  "claimPostDispatch now claimToken aid i observed_status observed_last db =
    (if \<not> open_status observed_status then (None, db)
     else case update_dispatches (\<lambda>d. pd_id d = i \<and> pd_status d = observed_status
              \<and> pd_last_attempt_at d = observed_last \<and> generation_current db d)
            (\<lambda>d. d\<lparr>pd_status := PD_dispatching, pd_claim_token := Some claimToken,
               pd_attempt_count := pd_attempt_count d + 1, pd_last_attempt_at := Some now,
               pd_next_attempt_at := None, pd_error := None, pd_updated_at := now\<rparr>) db of
         (changes, db') \<Rightarrow>
           if changes \<noteq> 1 then (None, db')
           else case getPostDispatch i db' of
               None \<Rightarrow> (None, db')
             | Some claimed \<Rightarrow>
                 if pd_claim_token claimed \<noteq> Some claimToken then (None, db')
                 else (Some claimed, insertPostDispatchAttempt
                   ((attempt aid i (nextPostDispatchAuditAttemptNumber i db') Ev_claimed now)\<lparr>at_claim_token := Some claimToken\<rparr>) db'))"

definition group_reason :: js_string where
  "group_reason = lit ''Included in same-origin dispatch group.''"

fun supersede_group ::
  "nat \<Rightarrow> uuid_stream \<Rightarrow> iso_time \<Rightarrow> dispatch_row list \<Rightarrow> forum_db \<Rightarrow> nat \<times> forum_db" where
  \<comment> \<open>the loop over all rows of a group but its trigger; the counter is the number of UUIDs drawn\<close>
  "supersede_group n u now [] db = (n, db)"
| "supersede_group n u now (row # rows) db =
    (case update_dispatches (\<lambda>d. pd_id d = pd_id row \<and> open_status (pd_status d))
            (\<lambda>d. d\<lparr>pd_status := PD_superseded, pd_next_attempt_at := None, pd_error := Some group_reason,
               pd_updated_at := now\<rparr>) db of
       (changes, db') \<Rightarrow>
         if changes = 1
         then supersede_group (Suc n) u now rows
           (insertPostDispatchAttempt (lifecycle_attempt (u n) row Ev_superseded group_reason now) db')
         else supersede_group n u now rows db')"

definition group_contributors :: "dispatch_row list \<Rightarrow> ident list" where
  "group_contributors rows =
    (let trigger = last rows;
         durable = (case pd_contributors trigger of None \<Rightarrow> [] | Some ids \<Rightarrow> ids);
         hasPriorGroup = (length durable > 1 \<or> (length durable = 1 \<and> hd durable \<noteq> pd_post trigger))
     in if hasPriorGroup then set_to_array (durable @ map pd_post rows) else map pd_post rows)"

definition claimPostDispatchGroup ::
  "iso_time \<Rightarrow> iso_time \<Rightarrow> uuid_stream \<Rightarrow> dispatch_row list \<Rightarrow> forum_db \<Rightarrow>
   store_error + (dispatch_row option \<times> forum_db)" where
  \<comment> \<open>the second time is the one the nested claim reads\<close>
  "claimPostDispatchGroup now now2 u rows db =
    (if rows = [] then Inr (None, db)
     else let trigger = last rows in
       if list_ex (\<lambda>r. pd_topic r \<noteq> pd_topic trigger \<or> pd_origin_key r \<noteq> pd_origin_key trigger) rows
       then Inl (Store_error ''cross-origin dispatch group rejected'')
       else if pd_status trigger = PD_pending
       then if length (sql_select (\<lambda>d. pd_id d \<in> set (map pd_id rows) \<and> open_status (pd_status d)) (fb_dispatches db)) \<noteq> length rows
            then Inr (None, db)
            else (case supersede_group 0 u now (butlast rows) db of (n, db1) \<Rightarrow>
              let db2 = snd (update_dispatches (\<lambda>d. pd_id d = pd_id trigger \<and> pd_status d = pd_status trigger)
                    (\<lambda>d. d\<lparr>pd_contributors := Some (group_contributors rows), pd_updated_at := now\<rparr>) db1)
              in Inr (claimPostDispatch now2 (u n) (u (Suc n)) (pd_id trigger) (pd_status trigger) (pd_last_attempt_at trigger) db2))
       else Inr (claimPostDispatch now2 (u 0) (u 1) (pd_id trigger) (pd_status trigger) (pd_last_attempt_at trigger) db))"

definition isPostDispatchClaimCurrent :: "ident \<Rightarrow> ident \<Rightarrow> forum_db \<Rightarrow> bool" where
  "isPostDispatchClaimCurrent i claimToken db = sql_exists (\<lambda>d. pd_id d = i \<and> pd_status d = PD_dispatching
     \<and> pd_claim_token d = Some claimToken \<and> generation_current db d) (fb_dispatches db)"

section \<open>Outcomes\<close>

definition finish_claim ::
  "ident \<Rightarrow> ident \<Rightarrow> (dispatch_row \<Rightarrow> dispatch_row) \<Rightarrow> (dispatch_row \<Rightarrow> forum_db \<Rightarrow> attempt_row) \<Rightarrow> forum_db \<Rightarrow>
   dispatch_row option \<times> forum_db" where
  \<comment> \<open>the shape of an outcome that needs the current claim: update, then one audit row if it applied\<close>
  "finish_claim i claimToken f audit db =
    (case update_dispatches (\<lambda>d. pd_id d = i \<and> pd_status d = PD_dispatching
            \<and> pd_claim_token d = Some claimToken \<and> generation_current db d) f db of
       (changes, db') \<Rightarrow> (case getPostDispatch i db' of
           None \<Rightarrow> (None, db')
         | Some row \<Rightarrow> (Some row, if changes = 1 then insertPostDispatchAttempt (audit row db') db' else db')))"

definition markPostDispatchDispatched ::
  "iso_time \<Rightarrow> ident \<Rightarrow> ident \<Rightarrow> ident \<Rightarrow> forum_db \<Rightarrow> dispatch_row option \<times> forum_db" where
  "markPostDispatchDispatched now aid i claimToken db =
    finish_claim i claimToken
      (\<lambda>d. d\<lparr>pd_status := PD_dispatched, pd_claim_token := None, pd_dispatched_at := Some now,
         pd_next_attempt_at := None, pd_error := None, pd_updated_at := now\<rparr>)
      (\<lambda>row db'. (attempt aid i (claimedPostDispatchAuditAttemptNumber i claimToken (pd_attempt_count row) db') Ev_dispatched now)
         \<lparr>at_claim_token := Some claimToken\<rparr>) db"

definition markPostDispatchFailed ::
  "iso_time \<Rightarrow> ident \<Rightarrow> ident \<Rightarrow> ident \<Rightarrow> js_string \<Rightarrow> iso_time option \<Rightarrow> attempt_class option \<Rightarrow> forum_db \<Rightarrow>
   dispatch_row option \<times> forum_db" where
  "markPostDispatchFailed now aid i claimToken message retryAt classification db =
    (if getPostDispatch i db = None then (None, db)
     else finish_claim i claimToken
       (\<lambda>d. d\<lparr>pd_status := (if retryAt \<noteq> None then PD_pending else PD_failed), pd_claim_token := None,
          pd_next_attempt_at := retryAt, pd_error := Some (js_slice 1000 message), pd_updated_at := now\<rparr>)
       (\<lambda>row db'. (attempt aid i (claimedPostDispatchAuditAttemptNumber i claimToken (pd_attempt_count row) db')
           (if retryAt \<noteq> None then Ev_retry_scheduled else Ev_terminal_failure) now)
          \<lparr>at_class := Some (case classification of None \<Rightarrow> Cl_application | Some c \<Rightarrow> c), at_retry_at := retryAt,
           at_error := Some message, at_claim_token := Some claimToken\<rparr>) db)"

definition close_dispatch ::
  "iso_time \<Rightarrow> ident \<Rightarrow> ident \<Rightarrow> (dispatch_row \<Rightarrow> bool) \<Rightarrow> dispatch_status \<Rightarrow> attempt_event \<Rightarrow> js_string \<Rightarrow> forum_db \<Rightarrow>
   dispatch_row option \<times> forum_db" where
  \<comment> \<open>the shape of the outcomes that need no claim\<close>
  "close_dispatch now aid i extra status ev why db =
    (case update_dispatches (\<lambda>d. pd_id d = i \<and> open_status (pd_status d) \<and> extra d)
            (\<lambda>d. d\<lparr>pd_status := status, pd_next_attempt_at := None, pd_error := Some why, pd_updated_at := now\<rparr>) db of
       (changes, db') \<Rightarrow> (case getPostDispatch i db' of
           None \<Rightarrow> (None, db')
         | Some row \<Rightarrow> (Some row, if changes = 1
             then insertPostDispatchAttempt (lifecycle_attempt aid row ev why now) db' else db')))"

definition markPostDispatchSuperseded where
  "markPostDispatchSuperseded now aid i why db =
    close_dispatch now aid i (\<lambda>_. True) PD_superseded Ev_superseded why db"

definition markPostDispatchAbandoned where
  "markPostDispatchAbandoned now aid i why db =
    close_dispatch now aid i (generation_current db) PD_abandoned Ev_abandoned why db"

definition retryTerminalPostDispatch :: "iso_time \<Rightarrow> ident \<Rightarrow> forum_db \<Rightarrow> dispatch_row option \<times> forum_db" where
  "retryTerminalPostDispatch now i db =
    (case update_dispatches (\<lambda>d. pd_id d = i \<and> pd_status d = PD_failed \<and> generation_current db d)
            (\<lambda>d. d\<lparr>pd_status := PD_pending, pd_claim_token := None, pd_attempt_count := 0,
               pd_last_attempt_at := None, pd_next_attempt_at := Some now, pd_error := None, pd_updated_at := now\<rparr>) db of
       (changes, db') \<Rightarrow> (if changes = 1 then getPostDispatch i db' else None, db'))"

section \<open>Generation changes\<close>

fun audit_superseded :: "nat \<Rightarrow> uuid_stream \<Rightarrow> iso_time \<Rightarrow> js_string \<Rightarrow> dispatch_row list \<Rightarrow> forum_db \<Rightarrow> forum_db" where
  "audit_superseded n u now why [] db = db"
| "audit_superseded n u now why (row # rows) db = audit_superseded (Suc n) u now why rows
     (insertPostDispatchAttempt (lifecycle_attempt (u n) row Ev_superseded why now) db)"

definition reconcile_reason :: js_string where
  "reconcile_reason = lit ''Cancelled by a newer topic dispatch generation.''"

definition reconcilePostDispatchGenerations :: "iso_time \<Rightarrow> uuid_stream \<Rightarrow> forum_db \<Rightarrow> nat \<times> forum_db" where
  "reconcilePostDispatchGenerations now u db =
    (let stale = (\<lambda>d. open_status (pd_status d)
           \<and> pd_generation d \<noteq> (case topic_generation db (pd_topic d) of None \<Rightarrow> 0 | Some g \<Rightarrow> g));
         rows = sql_select stale (fb_dispatches db)
     in case update_dispatches stale (\<lambda>d. d\<lparr>pd_status := PD_superseded, pd_next_attempt_at := None,
            pd_error := Some reconcile_reason, pd_updated_at := now\<rparr>) db of
          (changes, db') \<Rightarrow> (changes, audit_superseded 0 u now reconcile_reason rows db'))"

definition advanceTopicDispatchGeneration ::
  "iso_time \<Rightarrow> uuid_stream \<Rightarrow> ident \<Rightarrow> js_string \<Rightarrow> forum_db \<Rightarrow> store_error + ((int \<times> nat) \<times> forum_db)" where
  "advanceTopicDispatchGeneration now u topic why db =
    (case ensurePostDispatchGeneration now topic db of
       Inl e \<Rightarrow> Inl e
     | Inr db1 \<Rightarrow>
        let mine = (\<lambda>d. pd_topic d = topic \<and> open_status (pd_status d));
            pending = sql_select mine (fb_dispatches db1);
            db2 = db1\<lparr>fb_generations := sql_update (\<lambda>g. ge_topic g = topic)
              (\<lambda>g. g\<lparr>ge_generation := ge_generation g + 1, ge_updated_at := now\<rparr>) (fb_generations db1)\<rparr>
        in case update_dispatches mine (\<lambda>d. d\<lparr>pd_status := PD_superseded, pd_next_attempt_at := None,
               pd_error := Some (js_slice 1000 why), pd_updated_at := now\<rparr>) db2 of
             (cancelled, db3) \<Rightarrow>
               let db4 = audit_superseded 0 u now why pending db3;
                   db5 = db4\<lparr>fb_active_origins := sql_delete (\<lambda>a. ao_topic a = topic) (fb_active_origins db4),
                     fb_robot_states := sql_update (\<lambda>r. rs_topic r = topic)
                       (\<lambda>r. r\<lparr>rs_activity := ''idle'', rs_current_plan := None, rs_last_updated_at := now\<rparr>) (fb_robot_states db4)\<rparr>
               in case topic_generation db5 topic of None \<Rightarrow> Inl Store_constraint | Some g \<Rightarrow> Inr ((g, cancelled), db5))"

section \<open>The origin of the active turn\<close>

definition getActiveTurnOrigin :: "ident \<Rightarrow> forum_db \<Rightarrow> active_origin_row option" where
  "getActiveTurnOrigin topic db = sql_get (\<lambda>a. ao_topic a = topic) (fb_active_origins db)"

definition recordActiveTurnOrigin ::
  "iso_time \<Rightarrow> ident \<Rightarrow> ident \<Rightarrow> int \<Rightarrow> utterance_origin \<Rightarrow> forum_db \<Rightarrow> active_origin_row option \<times> forum_db" where
  \<comment> \<open>an upsert that applies only when the generation is the current one\<close>
  "recordActiveTurnOrigin now topic dispatchId generation orig db =
    (if topic_generation db topic \<noteq> Some generation then (None, db)
     else let row = \<lparr>ao_topic = topic, ao_dispatch = dispatchId, ao_generation = generation,
                ao_origin_key = normalizedOriginKey orig, ao_origin = orig, ao_accepted_at = now\<rparr>;
              t = (if sql_exists (\<lambda>a. ao_topic a = topic) (fb_active_origins db)
                   then sql_update (\<lambda>a. ao_topic a = topic) (\<lambda>_. row) (fb_active_origins db)
                   else sql_insert row (fb_active_origins db));
              db' = db\<lparr>fb_active_origins := t\<rparr>
          in (getActiveTurnOrigin topic db', db'))"

definition recordActiveTurnOriginFromDispatch ::
  "iso_time \<Rightarrow> ident \<Rightarrow> ident \<Rightarrow> forum_db \<Rightarrow> active_origin_row option \<times> forum_db" where
  "recordActiveTurnOriginFromDispatch now topic dispatchId db = (case getPostDispatch dispatchId db of
     None \<Rightarrow> (None, db)
   | Some d \<Rightarrow> if pd_topic d \<noteq> topic then (None, db)
       else case pd_origin d of None \<Rightarrow> (None, db)
         | Some orig \<Rightarrow> recordActiveTurnOrigin now topic dispatchId (pd_generation d) orig db)"

definition clearActiveTurnOrigin :: "ident \<Rightarrow> int option \<Rightarrow> forum_db \<Rightarrow> bool \<times> forum_db" where
  "clearActiveTurnOrigin topic generation db =
    (let hit = (\<lambda>a. ao_topic a = topic \<and> (case generation of None \<Rightarrow> True | Some g \<Rightarrow> ao_generation a = g))
     in (sql_count hit (fb_active_origins db) = 1, db\<lparr>fb_active_origins := sql_delete hit (fb_active_origins db)\<rparr>))"

section \<open>Due dispatches\<close>

definition isCompactionRecoveryPost :: "ident \<Rightarrow> forum_db \<Rightarrow> bool" where
  "isCompactionRecoveryPost post db =
    sql_exists (\<lambda>c. co_recovery_post c = Some post \<and> co_status c = Op_succeeded) (fb_compactions db)"

definition before_in_queue :: "dispatch_row table \<Rightarrow> dispatch_row \<Rightarrow> dispatch_row \<Rightarrow> bool" where
  \<comment> \<open>\<^verbatim>\<open>earlier.created_at < d.created_at or (... = ... and earlier.rowid < d.rowid)\<close>\<close>
  "before_in_queue t e d \<longleftrightarrow> pd_created_at e < pd_created_at d
     \<or> pd_created_at e = pd_created_at d \<and> e \<in> set (takeWhile (\<lambda>r. pd_id r \<noteq> pd_id d) t)"

definition actionable :: "dispatch_row \<Rightarrow> bool" where
  "actionable d \<longleftrightarrow> open_status (pd_status d) \<or> pd_status d = PD_failed \<and> pd_next_attempt_at d \<noteq> None"

definition activeCompaction :: "ident \<Rightarrow> forum_db \<Rightarrow> bool" where
  \<comment> \<open>a pending or running compaction of the topic\<close>
  "activeCompaction topic db =
    sql_exists (\<lambda>c. co_topic c = topic \<and> (co_status c = Op_pending \<or> co_status c = Op_running)) (fb_compactions db)"

definition recoveryOutstanding :: "ident \<Rightarrow> forum_db \<Rightarrow> bool" where
  \<comment> \<open>a compaction of the topic succeeded and its recovery post is still to be dispatched\<close>
  "recoveryOutstanding topic db = sql_exists (\<lambda>c. co_topic c = topic \<and> co_status c = Op_succeeded
     \<and> sql_exists (\<lambda>d. Some (pd_post d) = co_recovery_post c \<and> generation_current db d \<and> actionable d) (fb_dispatches db))
     (fb_compactions db)"

definition due_row :: "iso_time \<Rightarrow> forum_db \<Rightarrow> dispatch_row \<Rightarrow> bool" where
  "due_row now db d \<longleftrightarrow> generation_current db d \<and> open_status (pd_status d)
     \<and> (case pd_next_attempt_at d of None \<Rightarrow> True | Some t \<Rightarrow> t \<le> now)
     \<and> (isCompactionRecoveryPost (pd_post d) db
        \<or> \<not> sql_exists (\<lambda>e. pd_topic e = pd_topic d \<and> pd_generation e = pd_generation d \<and> open_status (pd_status e)
             \<and> before_in_queue (fb_dispatches db) e d) (fb_dispatches db))
     \<and> (isCompactionRecoveryPost (pd_post d) db
        \<or> \<not> activeCompaction (pd_topic d) db \<and> \<not> recoveryOutstanding (pd_topic d) db)"

definition listDuePostDispatches :: "iso_time \<Rightarrow> int \<Rightarrow> forum_db \<Rightarrow> dispatch_row list" where
  "listDuePostDispatches now limit db =
    take (nat (max 1 limit)) (sql_order_by pd_created_at (sql_select (due_row now db) (fb_dispatches db)))"

definition listPendingPostDispatchesForTopic :: "ident \<Rightarrow> forum_db \<Rightarrow> dispatch_row list" where
  "listPendingPostDispatchesForTopic topic db = sql_order_by pd_created_at
     (sql_select (\<lambda>d. generation_current db d \<and> pd_topic d = topic \<and> open_status (pd_status d)) (fb_dispatches db))"

definition listPostDispatchesForTopic :: "ident \<Rightarrow> forum_db \<Rightarrow> dispatch_row list" where
  "listPostDispatchesForTopic topic db = sql_order_by pd_created_at (sql_select (\<lambda>d. pd_topic d = topic) (fb_dispatches db))"

definition countActionablePostDispatches :: "ident \<Rightarrow> forum_db \<Rightarrow> nat" where
  "countActionablePostDispatches topic db =
    sql_count (\<lambda>d. generation_current db d \<and> pd_topic d = topic \<and> actionable d) (fb_dispatches db)"

definition countGlobalActionablePostDispatches :: "forum_db \<Rightarrow> nat" where
  "countGlobalActionablePostDispatches db = sql_count (\<lambda>d. generation_current db d \<and> actionable d) (fb_dispatches db)"

definition listGlobalActionablePostDispatchItems ::
  "int \<Rightarrow> forum_db \<Rightarrow> (ident \<times> ident \<times> ident \<times> dispatch_status) list" where
  "listGlobalActionablePostDispatchItems limit db =
    map (\<lambda>d. (pd_topic d, pd_id d, pd_session d, pd_status d))
      (take (nat (max 1 limit)) (sql_order_by (\<lambda>d. (pd_topic d, pd_id d))
        (sql_select (\<lambda>d. generation_current db d \<and> actionable d) (fb_dispatches db))))"

end
