(* ===== verification/Compaction.thy ===== *)
theory Compaction
  imports Post_Dispatch
begin

text \<open>
  Conversation compaction in \<^verbatim>\<open>server/store.ts\<close>: the operation table, the fence that holds back a
  topic's ordinary dispatches, and the transactions that finish an operation. The times read by a
  transaction that calls \<^verbatim>\<open>nowIso()\<close> several times are a stream, like the identifiers it draws.
\<close>

type_synonym time_stream = "nat \<Rightarrow> iso_time"

record create_compaction_input =
  cc_id :: ident
  cc_topic :: ident
  cc_session :: ident
  cc_initiated_by :: ident
  cc_expected_leaf :: ident
  cc_custom_instructions :: "js_string option"
  cc_recovery_prompt :: js_string

definition getCompactionOperation :: "ident \<Rightarrow> forum_db \<Rightarrow> compaction_row option" where
  "getCompactionOperation i db = sql_get (\<lambda>c. co_id c = i) (fb_compactions db)"

definition new_compaction :: "iso_time \<Rightarrow> op_status \<Rightarrow> iso_time option \<Rightarrow> create_compaction_input \<Rightarrow> compaction_row" where
  "new_compaction now status started input = \<lparr>co_id = cc_id input, co_topic = cc_topic input,
     co_session = cc_session input, co_initiated_by = cc_initiated_by input,
     co_expected_leaf = cc_expected_leaf input, co_custom_instructions = cc_custom_instructions input,
     co_recovery_prompt = cc_recovery_prompt input, co_status = status, co_event = None,
     co_recovery_post = None, co_error = None, co_attempt_count = 0, co_next_attempt_at = None,
     co_created_at = now, co_started_at = started, co_finished_at = None\<rparr>"

definition insert_compaction :: "compaction_row \<Rightarrow> forum_db \<Rightarrow> store_error + forum_db" where
  \<comment> \<open>the primary key and the foreign keys to topic, session and identity\<close>
  "insert_compaction row db =
    (if sql_exists (\<lambda>c. co_id c = co_id row) (fb_compactions db) \<or> \<not> topic_exists (co_topic row) db
        \<or> co_session row \<notin> set (fb_session_ids db) \<or> co_initiated_by row \<notin> set (fb_identity_ids db)
     then Inl Store_constraint
     else Inr (db\<lparr>fb_compactions := sql_insert row (fb_compactions db)\<rparr>))"

definition createCompactionOperation ::
  "iso_time \<Rightarrow> create_compaction_input \<Rightarrow> forum_db \<Rightarrow> store_error + (compaction_row \<times> forum_db)" where
  "createCompactionOperation now input db = (case getCompactionOperation (cc_id input) db of
     Some existing \<Rightarrow> Inr (existing, db)
   | None \<Rightarrow> let row = new_compaction now Op_pending None input in
       (case insert_compaction row db of Inl e \<Rightarrow> Inl e | Inr db' \<Rightarrow> Inr (row, db')))"

definition hasForkFence :: "ident \<Rightarrow> forum_db \<Rightarrow> bool" where
  "hasForkFence topic db = sql_exists (\<lambda>(source, status). source = topic
     \<and> status \<in> {Op_pending, Op_running, Op_needs_manual_review}) (fb_forks db)"

definition hasCloneFence :: "ident \<Rightarrow> forum_db \<Rightarrow> bool" where
  "hasCloneFence topic db = sql_exists (\<lambda>(source, child, status). (source = topic \<or> child = topic)
     \<and> status \<in> {Op_pending, Op_running, Op_needs_manual_review}) (fb_clones db)"

definition hasCompactionFence :: "ident \<Rightarrow> forum_db \<Rightarrow> bool" where
  "hasCompactionFence topic db \<longleftrightarrow> activeCompaction topic db \<or> hasForkFence topic db \<or> hasCloneFence topic db
     \<or> recoveryOutstanding topic db"

definition countActiveCompactionOperations :: "forum_db \<Rightarrow> nat" where
  "countActiveCompactionOperations db =
    sql_count (\<lambda>c. co_status c = Op_pending \<or> co_status c = Op_running) (fb_compactions db)"

definition latest_of :: "compaction_row list \<Rightarrow> compaction_row option" where
  "latest_of cs = (case sql_order_by (\<lambda>c. - co_created_at c) cs of [] \<Rightarrow> None | c # _ \<Rightarrow> Some c)"

definition getActiveCompactionOperation :: "ident \<Rightarrow> forum_db \<Rightarrow> compaction_row option" where
  "getActiveCompactionOperation topic db = latest_of (sql_select (\<lambda>c. co_topic c = topic
     \<and> (co_status c = Op_pending \<or> co_status c = Op_running)) (fb_compactions db))"

definition getLatestCompactionOperation :: "ident \<Rightarrow> forum_db \<Rightarrow> compaction_row option" where
  "getLatestCompactionOperation topic db = latest_of (sql_select (\<lambda>c. co_topic c = topic) (fb_compactions db))"

definition compaction_due :: "iso_time \<Rightarrow> compaction_row \<Rightarrow> bool" where
  "compaction_due now c \<longleftrightarrow> co_status c = Op_pending
     \<and> (case co_next_attempt_at c of None \<Rightarrow> True | Some t \<Rightarrow> t \<le> now)"

definition listPendingCompactionOperations :: "iso_time \<Rightarrow> int \<Rightarrow> forum_db \<Rightarrow> compaction_row list" where
  "listPendingCompactionOperations now limit db = take (nat (max 1 limit))
     (sql_order_by co_created_at (sql_select (compaction_due now) (fb_compactions db)))"

definition update_compactions ::
  "(compaction_row \<Rightarrow> bool) \<Rightarrow> (compaction_row \<Rightarrow> compaction_row) \<Rightarrow> forum_db \<Rightarrow> nat \<times> forum_db" where
  "update_compactions hit f db = (sql_count hit (fb_compactions db),
     db\<lparr>fb_compactions := sql_update hit f (fb_compactions db)\<rparr>)"

definition requeued :: "compaction_row \<Rightarrow> compaction_row" where
  "requeued c = c\<lparr>co_status := Op_pending, co_started_at := None, co_next_attempt_at := None\<rparr>"

definition requeueRunningCompactionOperations :: "forum_db \<Rightarrow> nat \<times> forum_db" where
  "requeueRunningCompactionOperations db = update_compactions (\<lambda>c. co_status c = Op_running) requeued db"

definition requeueCompactionOperation :: "ident \<Rightarrow> forum_db \<Rightarrow> bool \<times> forum_db" where
  "requeueCompactionOperation i db =
    (case update_compactions (\<lambda>c. co_id c = i \<and> co_status c = Op_running) requeued db of (n, db') \<Rightarrow> (n = 1, db'))"

definition enqueueCompactionOperationIfIdle ::
  "iso_time \<Rightarrow> iso_time \<Rightarrow> create_compaction_input \<Rightarrow> forum_db \<Rightarrow> (store_error + compaction_row option) \<times> forum_db" where
  "enqueueCompactionOperationIfIdle clock now input db =
    (if getCompactionOperation (cc_id input) db \<noteq> None then (Inr None, db)
     else case assertRobotWorkAdmission clock (fb_admission db) of
         (Inl e, a) \<Rightarrow> (Inl (Store_fenced e), db\<lparr>fb_admission := a\<rparr>)
       | (Inr _, a) \<Rightarrow>
          let db0 = db\<lparr>fb_admission := a\<rparr>; topic = cc_topic input;
              activity = map_option rs_activity (getRobotState topic db0) in
          if map_option to_status (getTopic topic db0) \<noteq> Some Topic_open
             \<or> (activity \<noteq> Some ''idle'' \<and> activity \<noteq> Some ''stopped'')
             \<or> map_option snd (sql_get (\<lambda>(t, _). t = topic) (fb_auto_runs db0)) = Some ''running''
             \<or> countActionablePostDispatches topic db0 > 0 \<or> hasCompactionFence topic db0
          then (Inr None, db0)
          else case createCompactionOperation now input db0 of
              Inl e \<Rightarrow> (Inl e, db0)
            | Inr (row, db') \<Rightarrow> (Inr (Some row), db'))"

definition startCompactionOperation ::
  "iso_time \<Rightarrow> create_compaction_input \<Rightarrow> forum_db \<Rightarrow> store_error + (compaction_row option \<times> forum_db)" where
  "startCompactionOperation now input db =
    (if getCompactionOperation (cc_id input) db \<noteq> None \<or> activeCompaction (cc_topic input) db then Inr (None, db)
     else case insert_compaction (new_compaction now Op_running (Some now) input) db of
         Inl e \<Rightarrow> Inl e
       | Inr db' \<Rightarrow> Inr (getCompactionOperation (cc_id input) db', db'))"

definition claimCompactionOperation :: "iso_time \<Rightarrow> ident \<Rightarrow> forum_db \<Rightarrow> compaction_row option \<times> forum_db" where
  "claimCompactionOperation now i db =
    (case update_compactions (\<lambda>c. co_id c = i \<and> compaction_due now c)
            (\<lambda>c. c\<lparr>co_status := Op_running, co_started_at := Some now, co_attempt_count := co_attempt_count c + 1,
               co_next_attempt_at := None, co_error := None\<rparr>) db of
       (n, db') \<Rightarrow> (if n = 1 then getCompactionOperation i db' else None, db'))"

definition requeueUncertainCompaction ::
  "ident \<Rightarrow> js_string \<Rightarrow> iso_time \<Rightarrow> forum_db \<Rightarrow> (store_error + compaction_row) \<times> forum_db" where
  "requeueUncertainCompaction i message retryAt db =
    (case update_compactions (\<lambda>c. co_id c = i \<and> co_status c = Op_running)
            (\<lambda>c. c\<lparr>co_status := Op_pending, co_started_at := None, co_next_attempt_at := Some retryAt,
               co_error := Some (js_slice 1000 message)\<rparr>) db of
       (n, db') \<Rightarrow> (case getCompactionOperation i db' of
           Some c \<Rightarrow> if n \<noteq> 1 then (Inl (Store_error ''compaction operation could not be requeued''), db') else (Inr c, db')
         | None \<Rightarrow> (Inl (Store_error ''compaction operation could not be requeued''), db')))"

definition running_compaction :: "ident \<Rightarrow> forum_db \<Rightarrow> store_error + compaction_row" where
  "running_compaction i db = (case getCompactionOperation i db of
     None \<Rightarrow> Inl (Store_error ''compaction operation is not running'')
   | Some c \<Rightarrow> if co_status c \<noteq> Op_running then Inl (Store_error ''compaction operation is not running'') else Inr c)"

definition compaction_event ::
  "ident \<Rightarrow> iso_time \<Rightarrow> compaction_row \<Rightarrow> ident option \<Rightarrow> bool \<Rightarrow> string \<Rightarrow> event_detail \<Rightarrow> op_event_row" where
  "compaction_event eid now c anchor ok summary detail = \<lparr>oe_id = eid, oe_topic = co_topic c, oe_anchor_post = anchor,
     oe_type = ''compaction'', oe_category = ''maintenance'', oe_succeeded = ok, oe_summary = summary,
     oe_detail = Some detail, oe_source_kind = ''compaction_operation'', oe_source_id = co_id c, oe_created_at = now\<rparr>"

definition finishCompactionFailure ::
  "time_stream \<Rightarrow> ident \<Rightarrow> ident \<Rightarrow> js_string \<Rightarrow> forum_db \<Rightarrow> store_error + (compaction_row \<times> forum_db)" where
  "finishCompactionFailure t eid i message db =
    (case running_compaction i db of Inl e \<Rightarrow> Inl e
     | Inr operation \<Rightarrow>
        (case createTopicOperationalEvent (compaction_event eid (t 0) operation (getLatestPostId (co_topic operation) db)
               False ''Conversation compaction failed.'' (Detail_error (js_slice 4000 message))) db of
           Inl e \<Rightarrow> Inl e
         | Inr (event, db1) \<Rightarrow>
            let db2 = snd (update_compactions (\<lambda>c. co_id c = i \<and> co_status c = Op_running)
                  (\<lambda>c. c\<lparr>co_status := Op_failed, co_event := Some (oe_id event),
                     co_error := Some (js_slice 1000 message), co_finished_at := Some (t 1)\<rparr>) db1)
            in case getCompactionOperation i db2 of
                 None \<Rightarrow> Inl (Store_error ''compaction operation disappeared after failure'')
               | Some c \<Rightarrow> Inr (c, db2)))"

text \<open>
  Success publishes the recovery post, queues its dispatch and records the event before the
  operation is closed; if any part throws, the transaction takes all of it back.
\<close>

definition finishCompactionSuccess ::
  "time_stream \<Rightarrow> uuid_stream \<Rightarrow> ident \<Rightarrow> forum_db \<Rightarrow> (store_error + compaction_row) \<times> forum_db" where
  "finishCompactionSuccess t u i db =
    (case running_compaction i db of Inl e \<Rightarrow> (Inl e, db)
     | Inr operation \<Rightarrow>
        let topic = co_topic operation; anchor = getLatestPostId topic db;
            undo = (\<lambda>e db'. (Inl e, db\<lparr>fb_admission := fb_admission db'\<rparr>)) in
        (case createPost (t 1) (u 0) \<lparr>cp_topic = topic, cp_parent = None, cp_author = co_initiated_by operation,
               cp_body = co_recovery_prompt operation, cp_source_message = None, cp_silent = False,
               cp_draft = None, cp_auto_compact = None, cp_auto_compact_revision = None\<rparr> db of
           Inl e \<Rightarrow> (Inl e, db)
         | Inr (post, db1) \<Rightarrow>
            (case createPostDispatch (t 2) (t 3) (u 1) \<lparr>cd_topic = topic, cd_post = u 0, cd_session = co_session operation,
                   cd_mode = Some ''auto'', cd_model = None, cd_reasoning_effort = None, cd_auto_compact = None\<rparr> db1 of
               (Inl e, db2) \<Rightarrow> undo e db2
             | (Inr _, db2) \<Rightarrow>
                (case createTopicOperationalEvent (compaction_event (u 2) (t 4) operation anchor True
                       ''Conversation context was compacted.'' (Detail_compacted (co_expected_leaf operation) (u 0))) db2 of
                   Inl e \<Rightarrow> undo e db2
                 | Inr (event, db3) \<Rightarrow>
                    let db4 = snd (update_compactions (\<lambda>c. co_id c = i \<and> co_status c = Op_running)
                          (\<lambda>c. c\<lparr>co_status := Op_succeeded, co_event := Some (oe_id event),
                             co_recovery_post := Some (u 0), co_finished_at := Some (t 0)\<rparr>) db3)
                    in case getCompactionOperation i db4 of
                         None \<Rightarrow> undo (Store_error ''compaction operation disappeared after success'') db4
                       | Some c \<Rightarrow> (Inr c, db4)))))"

end
