(* ===== verification/Status_Machine.thy ===== *)
theory Status_Machine
  imports Main
begin

text \<open>
  Work items with a status column, as the store keeps them in several tables: every operation may
  move an item only along the edges of its status graph. The locale draws the conclusions the
  clients use: a run follows a path of the graph, and an item in a terminal status stays there.
\<close>

locale status_machine =
  fixes status_of :: "'s \<Rightarrow> 'k \<Rightarrow> 'st option"
    and edge :: "'st \<Rightarrow> 'st \<Rightarrow> bool"
    and step :: "'s \<Rightarrow> 's \<Rightarrow> bool"
    and well_formed :: "'s \<Rightarrow> bool"
  assumes step_keeps: "well_formed s \<Longrightarrow> step s s' \<Longrightarrow> well_formed s'"
    and step_edges: "well_formed s \<Longrightarrow> step s s' \<Longrightarrow> status_of s k = Some a \<Longrightarrow>
      \<exists>b. status_of s' k = Some b \<and> edge\<^sup>*\<^sup>* a b"
begin

lemma run_keeps: "step\<^sup>*\<^sup>* s s' \<Longrightarrow> well_formed s \<Longrightarrow> well_formed s'"
  by (induction rule: rtranclp_induct) (auto intro: step_keeps)

lemma run_path:
  assumes "step\<^sup>*\<^sup>* s s'" and "well_formed s" and "status_of s k = Some a"
  shows "\<exists>b. status_of s' k = Some b \<and> edge\<^sup>*\<^sup>* a b"
  using assms(1)
proof (induction rule: rtranclp_induct)
  case base
  with assms(3) show ?case by blast
next
  case (step t t')
  then obtain b where "status_of t k = Some b" "edge\<^sup>*\<^sup>* a b" by blast
  moreover from this obtain c where "status_of t' k = Some c" "edge\<^sup>*\<^sup>* b c"
    using step_edges [OF run_keeps [OF step.hyps(1) assms(2)] step.hyps(2)] by blast
  ultimately show ?case by (meson rtranclp_trans)
qed

lemma terminal_stays:
  assumes "step\<^sup>*\<^sup>* s s'" and "well_formed s" and "status_of s k = Some a" and "\<And>b. \<not> edge a b"
  shows "status_of s' k = Some a"
proof -
  obtain b where "status_of s' k = Some b" "edge\<^sup>*\<^sup>* a b" using run_path [OF assms(1-3)] by blast
  moreover from this(2) have "b = a" using assms(4) by (induction rule: rtranclp_induct) auto
  ultimately show ?thesis by simp
qed

end

end
