(* ===== verification/Dispatch_Spec.thy ===== *)
theory Dispatch_Spec
  imports Compaction Status_Machine
begin

text \<open>
  The dispatch queue seen abstractly: seven kinds of elementary change that any operation of the
  store is composed of, the invariant they keep and what a run of them can do. The laws theory
  shows that every store operation is such a composition.
\<close>

section \<open>Elementary changes\<close>

inductive dispatch_edge :: "dispatch_status \<Rightarrow> dispatch_status \<Rightarrow> bool" where
  "dispatch_edge PD_pending PD_dispatching"
| "dispatch_edge PD_dispatching PD_pending"
| "dispatch_edge PD_dispatching PD_dispatched"
| "dispatch_edge PD_dispatching PD_failed"
| "dispatch_edge PD_pending PD_superseded"
| "dispatch_edge PD_dispatching PD_superseded"
| "dispatch_edge PD_pending PD_abandoned"
| "dispatch_edge PD_dispatching PD_abandoned"
| "dispatch_edge PD_failed PD_pending"

inductive_simps dispatch_edge_simps:
  "dispatch_edge PD_dispatched s" "dispatch_edge PD_superseded s" "dispatch_edge PD_abandoned s"
  "dispatch_edge PD_pending s" "dispatch_edge PD_dispatching s" "dispatch_edge PD_failed s"

definition fixed_columns :: "dispatch_row \<Rightarrow> ident \<times> ident \<times> ident \<times> int \<times> string \<times> iso_time" where
  \<comment> \<open>the columns no operation ever rewrites\<close>
  "fixed_columns d = (pd_id d, pd_post d, pd_topic d, pd_generation d, pd_origin_key d, pd_created_at d)"

inductive queue_change :: "ident option \<Rightarrow> forum_db \<Rightarrow> forum_db \<Rightarrow> bool" where
  other: "fb_dispatches db' = fb_dispatches db \<Longrightarrow> fb_generations db' = fb_generations db \<Longrightarrow>
    fb_attempts db' = fb_attempts db \<Longrightarrow> queue_change None db db'"
| move: "(\<And>d. d \<in> set (fb_dispatches db) \<Longrightarrow> hit d \<Longrightarrow> fixed_columns (f d) = fixed_columns d
      \<and> (dispatch_edge (pd_status d) (pd_status (f d)) \<and> pd_status (f d) \<noteq> PD_dispatching
         \<or> pd_status (f d) = pd_status d \<and> pd_claim_token (f d) = pd_claim_token d)) \<Longrightarrow>
    queue_change None db (db\<lparr>fb_dispatches := sql_update hit f (fb_dispatches db)\<rparr>)"
| claim: "(\<And>d. d \<in> set (fb_dispatches db) \<Longrightarrow> hit d \<Longrightarrow> fixed_columns (f d) = fixed_columns d
      \<and> open_status (pd_status d) \<and> pd_status (f d) = PD_dispatching \<and> pd_claim_token (f d) = Some token) \<Longrightarrow>
    queue_change (Some token) db (db\<lparr>fb_dispatches := sql_update hit f (fb_dispatches db)\<rparr>)"
| insert: "(\<And>e. e \<in> set (fb_dispatches db) \<Longrightarrow> pd_id e \<noteq> pd_id d \<and> pd_post e \<noteq> pd_post d) \<Longrightarrow>
    pd_status d = PD_pending \<Longrightarrow> pd_claim_token d = None \<Longrightarrow> generation_current db d \<Longrightarrow>
    queue_change None db (db\<lparr>fb_dispatches := sql_insert d (fb_dispatches db)\<rparr>)"
| audit: "(at_event a = Ev_claimed \<Longrightarrow> at_number a = nextPostDispatchAuditAttemptNumber (at_dispatch a) db) \<Longrightarrow>
    at_dispatch a \<in> pd_id ` set (fb_dispatches db) \<Longrightarrow>
    queue_change None db (insertPostDispatchAttempt a db)"
| new_generation: "topic_generation db topic = None \<Longrightarrow>
    queue_change None db (db\<lparr>fb_generations := sql_insert \<lparr>ge_topic = topic, ge_generation = 0, ge_updated_at = now\<rparr> (fb_generations db)\<rparr>)"
| next_generation: "queue_change None db (db\<lparr>fb_generations := sql_update (\<lambda>g. ge_topic g = topic)
      (\<lambda>g. g\<lparr>ge_generation := ge_generation g + 1, ge_updated_at := now\<rparr>) (fb_generations db)\<rparr>)"

text \<open>Runs of elementary changes, with the claim tokens drawn on the way.\<close>

inductive queue_run :: "ident set \<Rightarrow> forum_db \<Rightarrow> forum_db \<Rightarrow> bool" where
  stop: "queue_run {} db db"
| more: "queue_run T db db1 \<Longrightarrow> queue_change l db1 db2 \<Longrightarrow> queue_run (set_option l \<union> T) db db2"

lemma queue_run_change: "queue_change l db db' \<Longrightarrow> queue_run (set_option l) db db'"
  using queue_run.more [OF queue_run.stop, of l db db'] by simp

lemma queue_run_trans: "queue_run T2 db1 db2 \<Longrightarrow> queue_run T1 db db1 \<Longrightarrow> queue_run (T2 \<union> T1) db db2"
proof (induction rule: queue_run.induct)
  case (stop db1)
  then show ?case by simp
next
  case (more T2 db1 db2 l db3)
  then have "queue_run (set_option l \<union> (T2 \<union> T1)) db db3" by (intro queue_run.more)
  then show ?case by (simp add: Un_assoc)
qed

section \<open>The invariant\<close>

definition claimed_numbers :: "ident \<Rightarrow> forum_db \<Rightarrow> nat list" where
  "claimed_numbers i db = map at_number (sql_select (\<lambda>a. at_dispatch a = i \<and> at_event a = Ev_claimed) (fb_attempts db))"

definition counts_up :: "nat list \<Rightarrow> bool" where
  "counts_up ns \<longleftrightarrow> ns = [1..<Suc (length ns)]"

definition queue_inv :: "forum_db \<Rightarrow> bool" where
  "queue_inv db \<longleftrightarrow> unique_key pd_id (fb_dispatches db) \<and> unique_key pd_post (fb_dispatches db)
     \<and> (\<forall>d \<in> set (fb_dispatches db). \<exists>g. topic_generation db (pd_topic d) = Some g \<and> pd_generation d \<le> g)
     \<and> at_dispatch ` set (fb_attempts db) \<subseteq> pd_id ` set (fb_dispatches db)
     \<and> (\<forall>i. counts_up (claimed_numbers i db))"

lemma claimed_numbers_same: "fb_attempts db' = fb_attempts db \<Longrightarrow> claimed_numbers i db' = claimed_numbers i db"
  by (simp add: claimed_numbers_def)

lemma queue_inv_id: "queue_inv db \<Longrightarrow> unique_key pd_id (fb_dispatches db)"
  by (simp add: queue_inv_def)

definition moved :: "(dispatch_row \<Rightarrow> bool) \<Rightarrow> (dispatch_row \<Rightarrow> dispatch_row) \<Rightarrow> dispatch_row \<Rightarrow> dispatch_row" where
  "moved hit f d = (if hit d then f d else d)"

lemma sql_update_moved: "sql_update hit f t = map (moved hit f) t"
  by (simp add: sql_update_def moved_def)

lemma fixed_columnsD:
  "fixed_columns a = fixed_columns b \<Longrightarrow> pd_id a = pd_id b \<and> pd_post a = pd_post b \<and> pd_topic a = pd_topic b
     \<and> pd_generation a = pd_generation b \<and> pd_origin_key a = pd_origin_key b \<and> pd_created_at a = pd_created_at b"
  by (simp add: fixed_columns_def)

lemma queue_inv_moved:
  assumes inv: "queue_inv db"
    and fixed: "\<And>d. d \<in> set (fb_dispatches db) \<Longrightarrow> hit d \<Longrightarrow> fixed_columns (f d) = fixed_columns d"
  shows "queue_inv (db\<lparr>fb_dispatches := sql_update hit f (fb_dispatches db)\<rparr>)" (is "queue_inv ?db'")
proof -
  have m: "fixed_columns (moved hit f d) = fixed_columns d" if "d \<in> set (fb_dispatches db)" for d
    using fixed [OF that] by (simp add: moved_def)
  have ids: "map pd_id (fb_dispatches ?db') = map pd_id (fb_dispatches db)"
    and posts: "map pd_post (fb_dispatches ?db') = map pd_post (fb_dispatches db)"
    using m by (auto simp: sql_update_moved dest!: fixed_columnsD)
  have gen: "topic_generation ?db' = topic_generation db" by (simp add: topic_generation_def fun_eq_iff)
  have "\<exists>g. topic_generation ?db' (pd_topic d') = Some g \<and> pd_generation d' \<le> g" if d': "d' \<in> set (fb_dispatches ?db')" for d'
  proof -
    obtain d where d: "d \<in> set (fb_dispatches db)" "d' = moved hit f d" using d' by (auto simp: sql_update_moved)
    with m have "pd_topic d' = pd_topic d" "pd_generation d' = pd_generation d" by (auto dest!: fixed_columnsD)
    with d inv show ?thesis unfolding gen by (simp add: queue_inv_def)
  qed
  moreover have "pd_id ` set (fb_dispatches ?db') = pd_id ` set (fb_dispatches db)" using ids by (metis list.set_map)
  moreover have "claimed_numbers i ?db' = claimed_numbers i db" for i by (rule claimed_numbers_same) simp
  ultimately show ?thesis using inv ids posts by (simp add: queue_inv_def unique_key_def)
qed

lemma next_number_length:
  assumes "queue_inv db"
  shows "nextPostDispatchAuditAttemptNumber i db = Suc (length (claimed_numbers i db))"
proof -
  let ?n = "length (claimed_numbers i db)"
  have eq: "claimed_numbers i db = [1..<Suc ?n]" using assms unfolding queue_inv_def counts_up_def by blast
  have "at_number ` set (sql_select (\<lambda>a. at_dispatch a = i \<and> at_event a = Ev_claimed) (fb_attempts db)) = set (claimed_numbers i db)"
    by (simp add: claimed_numbers_def)
  also have "\<dots> = {1..?n}" using eq by (metis atLeastLessThanSuc_atLeastAtMost set_upt)
  finally have "nextPostDispatchAuditAttemptNumber i db = Max (insert 0 {1..?n}) + 1"
    by (simp add: nextPostDispatchAuditAttemptNumber_def)
  moreover have "insert 0 {1..?n} = {..?n}" by auto
  moreover have "Max {..?n} = ?n" by (rule Max_eqI) auto
  ultimately show ?thesis by simp
qed

lemma topic_generation_insert:
  "topic_generation (db\<lparr>fb_generations := sql_insert g (fb_generations db)\<rparr>) t =
    (case topic_generation db t of Some x \<Rightarrow> Some x | None \<Rightarrow> if ge_topic g = t then Some (ge_generation g) else None)"
  by (auto simp: topic_generation_def sql_get_insert split: option.splits)

lemma topic_generation_next:
  "topic_generation (db\<lparr>fb_generations := sql_update (\<lambda>g. ge_topic g = topic)
      (\<lambda>g. g\<lparr>ge_generation := ge_generation g + 1, ge_updated_at := now\<rparr>) (fb_generations db)\<rparr>) t =
    map_option (\<lambda>x. if t = topic then x + 1 else x) (topic_generation db t)"
proof (cases "sql_get (\<lambda>g. ge_topic g = t) (fb_generations db)")
  case (Some g)
  moreover have "ge_topic g = t" using sql_get_SomeD [OF Some] by simp
  ultimately show ?thesis by (simp add: topic_generation_def sql_get_update_key)
qed (simp add: topic_generation_def sql_get_update_key)

lemma topic_generation_same: "fb_generations db' = fb_generations db \<Longrightarrow> topic_generation db' t = topic_generation db t"
  by (simp add: topic_generation_def)

lemma queue_inv_generations:
  assumes "queue_inv db" and "fb_dispatches db' = fb_dispatches db" and "fb_attempts db' = fb_attempts db"
    and "\<And>t g. topic_generation db t = Some g \<Longrightarrow> \<exists>g'. topic_generation db' t = Some g' \<and> g \<le> g'"
  shows "queue_inv db'"
proof -
  have "\<exists>g. topic_generation db' (pd_topic d) = Some g \<and> pd_generation d \<le> g" if "d \<in> set (fb_dispatches db)" for d
    using assms(1) that assms(4) unfolding queue_inv_def by (meson order_trans)
  moreover have "claimed_numbers i db' = claimed_numbers i db" for i using assms(3) by (rule claimed_numbers_same)
  ultimately show ?thesis using assms(1-3) by (simp add: queue_inv_def)
qed

lemma claimed_numbers_attempt:
  "claimed_numbers i (insertPostDispatchAttempt a db) =
    claimed_numbers i db @ (if at_dispatch a = i \<and> at_event a = Ev_claimed then [at_number a] else [])"
  by (simp add: claimed_numbers_def insertPostDispatchAttempt_def sql_select_def sql_insert_def)

lemma attempt_fields [simp]:
  "fb_dispatches (insertPostDispatchAttempt a db) = fb_dispatches db"
  "fb_generations (insertPostDispatchAttempt a db) = fb_generations db"
  "at_dispatch ` set (fb_attempts (insertPostDispatchAttempt a db)) = insert (at_dispatch a) (at_dispatch ` set (fb_attempts db))"
  by (simp_all add: insertPostDispatchAttempt_def)

lemma queue_change_inv: "queue_change l db db' \<Longrightarrow> queue_inv db \<Longrightarrow> queue_inv db'"
proof (induction rule: queue_change.induct)
  case (other db' db)
  then show ?case by (auto intro!: queue_inv_generations [of db] simp: topic_generation_def)
next
  case (move db hit f)
  then show ?case by (intro queue_inv_moved) auto
next
  case (claim db hit f token)
  then show ?case by (intro queue_inv_moved) auto
next
  case (insert db d)
  let ?db = "db\<lparr>fb_dispatches := sql_insert d (fb_dispatches db)\<rparr>"
  have g: "topic_generation ?db t = topic_generation db t" for t by (rule topic_generation_same) simp
  have n: "claimed_numbers i ?db = claimed_numbers i db" for i by (rule claimed_numbers_same) simp
  have "pd_id d \<notin> pd_id ` set (fb_dispatches db)" "pd_post d \<notin> pd_post ` set (fb_dispatches db)"
    using insert.hyps(1) by fastforce+
  then have "unique_key pd_id (fb_dispatches ?db)" "unique_key pd_post (fb_dispatches ?db)"
    using insert.prems by (simp_all add: queue_inv_def unique_key_insert)
  moreover have "\<exists>x. topic_generation db (pd_topic d) = Some x \<and> pd_generation d \<le> x"
    using insert by (simp add: generation_current_def)
  ultimately show ?case using insert by (auto simp: queue_inv_def g n)
next
  case (audit a db)
  have g: "topic_generation (insertPostDispatchAttempt a db) t = topic_generation db t" for t
    by (rule topic_generation_same) simp
  have "counts_up (claimed_numbers i (insertPostDispatchAttempt a db))" for i
  proof -
    have "counts_up (claimed_numbers i db)" using audit by (simp add: queue_inv_def)
    then show ?thesis
      using audit next_number_length [OF audit.prems, of i]
      unfolding claimed_numbers_attempt by (auto simp: counts_up_def)
  qed
  then show ?case using audit by (simp add: queue_inv_def g)
next
  case (new_generation db topic now)
  then show ?case by (auto intro!: queue_inv_generations [of db] simp: topic_generation_insert split: option.splits)
next
  case (next_generation db topic now)
  then show ?case by (auto intro!: queue_inv_generations [of db] simp: topic_generation_next)
qed

lemma queue_run_inv: "queue_run T db db' \<Longrightarrow> queue_inv db \<Longrightarrow> queue_inv db'"
  by (induction rule: queue_run.induct) (auto intro: queue_change_inv)

section \<open>Status of a dispatch\<close>

definition dispatch_status_of :: "forum_db \<Rightarrow> ident \<Rightarrow> dispatch_status option" where
  "dispatch_status_of db i = map_option pd_status (getPostDispatch i db)"

lemma getPostDispatch_update:
  assumes "\<And>d. d \<in> set (fb_dispatches db) \<Longrightarrow> hit d \<Longrightarrow> pd_id (f d) = pd_id d"
  shows "getPostDispatch i (db\<lparr>fb_dispatches := sql_update hit f (fb_dispatches db)\<rparr>) =
    map_option (\<lambda>d. if hit d then f d else d) (getPostDispatch i db)"
proof -
  have "List.find (\<lambda>d. pd_id d = i) (map (\<lambda>d. if hit d then f d else d) t) =
      map_option (\<lambda>d. if hit d then f d else d) (List.find (\<lambda>d. pd_id d = i) t)"
    if "set t \<subseteq> set (fb_dispatches db)" for t
    using that assms by (induction t) auto
  then show ?thesis by (simp add: getPostDispatch_def sql_get_def sql_update_def)
qed

lemma getPostDispatchD: "getPostDispatch i db = Some d \<Longrightarrow> d \<in> set (fb_dispatches db) \<and> pd_id d = i"
  unfolding getPostDispatch_def by (drule sql_get_SomeD) simp

lemma open_status_edge: "open_status s \<Longrightarrow> dispatch_edge\<^sup>*\<^sup>* s PD_dispatching"
  by (auto simp: open_status_def intro: dispatch_edge.intros)

lemma queue_change_edges:
  assumes "queue_change l db db'" and "dispatch_status_of db i = Some a"
  shows "\<exists>b. dispatch_status_of db' i = Some b \<and> dispatch_edge\<^sup>*\<^sup>* a b"
proof -
  from assms(2) obtain d where d: "getPostDispatch i db = Some d" "pd_status d = a"
    by (auto simp: dispatch_status_of_def)
  note din = getPostDispatchD [OF d(1)]
  from assms(1) show ?thesis
  proof cases
    case (move hit f)
    have "getPostDispatch i db' = Some (if hit d then f d else d)"
      unfolding move(2) using d(1) move(3) by (subst getPostDispatch_update) (auto dest!: fixed_columnsD)
    then show ?thesis using d(2) din move(3) [of d] by (cases "hit d") (auto simp: dispatch_status_of_def)
  next
    case (claim hit f token)
    have "getPostDispatch i db' = Some (if hit d then f d else d)"
      unfolding claim(2) using d(1) claim(3) by (subst getPostDispatch_update) (auto dest!: fixed_columnsD)
    then show ?thesis using d(2) din claim(3) [of d] open_status_edge by (cases "hit d") (auto simp: dispatch_status_of_def)
  next
    case (insert e)
    then show ?thesis using d by (auto simp: dispatch_status_of_def getPostDispatch_def sql_get_insert)
  qed (use d in \<open>auto simp: dispatch_status_of_def getPostDispatch_def insertPostDispatchAttempt_def\<close>)
qed

lemma queue_run_edges:
  assumes "queue_run T db db'" and "dispatch_status_of db i = Some a"
  shows "\<exists>b. dispatch_status_of db' i = Some b \<and> dispatch_edge\<^sup>*\<^sup>* a b"
  using assms
proof (induction rule: queue_run.induct)
  case (more T db db1 l db2)
  then obtain b where b: "dispatch_status_of db1 i = Some b" "dispatch_edge\<^sup>*\<^sup>* a b" by blast
  from queue_change_edges [OF more.hyps(2) b(1)] b(2) show ?case by (meson rtranclp_trans)
qed auto

section \<open>Stale claims stay stale\<close>

lemma queue_change_stale:
  assumes inv: "queue_inv db" and ch: "queue_change l db db'" and "l \<noteq> Some t"
    and stale: "\<not> isPostDispatchClaimCurrent i t db"
  shows "\<not> isPostDispatchClaimCurrent i t db'"
proof -
  have st: "\<not> (pd_status d = PD_dispatching \<and> pd_claim_token d = Some t \<and> generation_current db d)"
    if "d \<in> set (fb_dispatches db)" "pd_id d = i" for d
    using stale that by (auto simp: isPostDispatchClaimCurrent_def)
  have gc: "generation_current db' d \<longleftrightarrow> generation_current db d" if "fb_generations db' = fb_generations db" for d
    using that by (simp add: generation_current_def topic_generation_def)
  have gf: "generation_current db (f d) \<longleftrightarrow> generation_current db d" if "fixed_columns (f d) = fixed_columns d" for f d
    using that by (auto simp: generation_current_def dest!: fixed_columnsD)
  from ch show ?thesis
  proof cases
    case other
    then show ?thesis using st gc by (auto simp: isPostDispatchClaimCurrent_def)
  next
    case (move hit f)
    have "\<not> (pd_status x = PD_dispatching \<and> pd_claim_token x = Some t \<and> generation_current db' x)"
      if x: "x \<in> set (fb_dispatches db')" "pd_id x = i" for x
    proof -
      obtain d where d: "d \<in> set (fb_dispatches db)" "x = (if hit d then f d else d)"
        using x(1) move(2) by (auto simp: set_sql_update)
      show ?thesis
      proof (cases "hit d")
        case True
        with d x(2) move(3) [OF d(1) True] st [OF d(1)] gc gf move(2) show ?thesis
          by (auto dest: fixed_columnsD)
      next
        case False
        with d x(2) st [OF d(1)] gc move(2) show ?thesis by auto
      qed
    qed
    then show ?thesis by (auto simp: isPostDispatchClaimCurrent_def)
  next
    case (claim hit f token)
    have "\<not> (pd_status x = PD_dispatching \<and> pd_claim_token x = Some t \<and> generation_current db' x)"
      if x: "x \<in> set (fb_dispatches db')" "pd_id x = i" for x
    proof -
      obtain d where d: "d \<in> set (fb_dispatches db)" "x = (if hit d then f d else d)"
        using x(1) claim(2) by (auto simp: set_sql_update)
      show ?thesis
        using d x(2) claim(1) claim(3) [OF d(1)] st [OF d(1)] gc claim(2) assms(3) by (cases "hit d") auto
    qed
    then show ?thesis by (auto simp: isPostDispatchClaimCurrent_def)
  next
    case (insert d)
    then show ?thesis using st gc by (auto simp: isPostDispatchClaimCurrent_def)
  next
    case (audit a)
    then show ?thesis using st gc by (auto simp: isPostDispatchClaimCurrent_def)
  next
    case (new_generation topic now)
    have "generation_current db' d \<longrightarrow> generation_current db d" if "d \<in> set (fb_dispatches db)" for d
      using that inv new_generation
      by (auto simp: generation_current_def topic_generation_insert queue_inv_def split: option.splits)
    then show ?thesis using st new_generation by (auto simp: isPostDispatchClaimCurrent_def)
  next
    case (next_generation topic now)
    have "generation_current db' d \<longrightarrow> generation_current db d" if "d \<in> set (fb_dispatches db)" for d
      using that inv next_generation
      by (auto simp: generation_current_def topic_generation_next queue_inv_def split: if_splits)
    then show ?thesis using st next_generation by (auto simp: isPostDispatchClaimCurrent_def)
  qed
qed

lemma queue_run_stale:
  assumes "queue_run T db db'" and "queue_inv db" and "t \<notin> T" and "\<not> isPostDispatchClaimCurrent i t db"
  shows "\<not> isPostDispatchClaimCurrent i t db'"
  using assms
proof (induction rule: queue_run.induct)
  case (more T db db1 l db2)
  have "\<not> isPostDispatchClaimCurrent i t db1" using more by auto
  moreover have "l \<noteq> Some t" using more.prems(2) by auto
  ultimately show ?case
    using queue_change_stale [OF queue_run_inv [OF more.hyps(1) more.prems(1)] more.hyps(2)] by blast
qed simp

section \<open>The audit trail only grows\<close>

lemma queue_run_attempts: "queue_run T db db' \<Longrightarrow> \<exists>more. fb_attempts db' = fb_attempts db @ more"
proof (induction rule: queue_run.induct)
  case (more T db db1 l db2)
  from more.hyps(2) have "\<exists>xs. fb_attempts db2 = fb_attempts db1 @ xs"
    by cases (auto simp: insertPostDispatchAttempt_def sql_insert_def)
  with more.IH show ?case by auto
qed simp

section \<open>Dispatches are never dropped\<close>

lemma queue_change_keeps:
  assumes "queue_change l db db'" and "d \<in> set (fb_dispatches db)"
  shows "\<exists>e \<in> set (fb_dispatches db'). fixed_columns e = fixed_columns d"
  using assms(1)
proof cases
  case (move hit f)
  have "(if hit d then f d else d) \<in> set (fb_dispatches db')" using assms(2) move(2) by (auto simp: set_sql_update)
  moreover have "fixed_columns (if hit d then f d else d) = fixed_columns d" using move(3) [OF assms(2)] by auto
  ultimately show ?thesis by blast
next
  case (claim hit f token)
  have "(if hit d then f d else d) \<in> set (fb_dispatches db')" using assms(2) claim(2) by (auto simp: set_sql_update)
  moreover have "fixed_columns (if hit d then f d else d) = fixed_columns d" using claim(3) [OF assms(2)] by auto
  ultimately show ?thesis by blast
qed (use assms(2) in \<open>auto simp: insertPostDispatchAttempt_def\<close>)

lemma queue_run_keeps:
  "queue_run T db db' \<Longrightarrow> d \<in> set (fb_dispatches db) \<Longrightarrow> \<exists>e \<in> set (fb_dispatches db'). fixed_columns e = fixed_columns d"
proof (induction rule: queue_run.induct)
  case (more T db db1 l db2)
  then obtain e where "e \<in> set (fb_dispatches db1)" "fixed_columns e = fixed_columns d" by blast
  with queue_change_keeps [OF more.hyps(2)] show ?case by metis
qed auto

end
