(* ===== verification/Dispatch_Laws.thy ===== *)
theory Dispatch_Laws
  imports Dispatch_Spec
begin

text \<open>
  Every operation of the store is a run of the elementary queue changes of \<open>Dispatch_Spec\<close>; from
  there the properties of the dispatch queue follow for any interleaving of operations: terminal
  dispatches stay terminal, a stale claim can never finish a dispatch, an interrupt cancels all of
  a topic's open dispatches, and the audit trail is append-only and numbered without gaps.
\<close>

section \<open>Operations as runs\<close>

named_theorems queue_runs \<open>operations shown to be runs of elementary changes\<close>

lemma run_other:
  "fb_dispatches db' = fb_dispatches db \<Longrightarrow> fb_generations db' = fb_generations db \<Longrightarrow>
   fb_attempts db' = fb_attempts db \<Longrightarrow> queue_run {} db db'"
  using queue_run_change [OF queue_change.other, of db' db] by simp

lemma run_trans: "queue_run {} db db1 \<Longrightarrow> queue_run T db1 db2 \<Longrightarrow> queue_run T db db2"
  using queue_run_trans [of T db1 db2 "{}" db] by simp

lemma run_then: "queue_run T db db1 \<Longrightarrow> queue_run {} db1 db2 \<Longrightarrow> queue_run T db db2"
  using queue_run_trans [of "{}" db1 db2 T db] by simp

lemma run_move:
  assumes "\<And>d. d \<in> set (fb_dispatches db) \<Longrightarrow> hit d \<Longrightarrow> fixed_columns (f d) = fixed_columns d
      \<and> (dispatch_edge (pd_status d) (pd_status (f d)) \<and> pd_status (f d) \<noteq> PD_dispatching
         \<or> pd_status (f d) = pd_status d \<and> pd_claim_token (f d) = pd_claim_token d)"
  shows "queue_run {} db (db\<lparr>fb_dispatches := sql_update hit f (fb_dispatches db)\<rparr>)"
  using queue_run_change [OF queue_change.move, of db hit f] assms by simp

lemma run_audit:
  assumes "at_event a = Ev_claimed \<Longrightarrow> at_number a = nextPostDispatchAuditAttemptNumber (at_dispatch a) db"
    and "at_dispatch a \<in> pd_id ` set (fb_dispatches db)"
  shows "queue_run {} db (insertPostDispatchAttempt a db)"
  using queue_run_change [OF queue_change.audit, of a db] assms by simp

lemma update_dispatches_eq:
  "update_dispatches hit f db = (sql_count hit (fb_dispatches db), db\<lparr>fb_dispatches := sql_update hit f (fb_dispatches db)\<rparr>)"
  by (simp add: update_dispatches_def)

lemma ids_after_update:
  assumes "\<And>d. pd_id (f d) = pd_id d"
  shows "pd_id ` set (sql_update hit f t) = pd_id ` set t"
  using map_sql_update [of t hit pd_id f] assms by (metis list.set_map)

lemma attempt_simps [simp]:
  "at_event (attempt aid i n ev now) = ev" "at_dispatch (attempt aid i n ev now) = i"
  "at_number (attempt aid i n ev now) = n"
  "at_event (lifecycle_attempt aid row ev why now) = ev" "at_dispatch (lifecycle_attempt aid row ev why now) = pd_id row"
  by (simp_all add: attempt_def lifecycle_attempt_def)

lemma ensure_run:
  "ensurePostDispatchGeneration now topic db = Inr db' \<Longrightarrow> queue_run {} db db'"
  using queue_run_change [OF queue_change.new_generation, of db topic now]
  by (auto simp: ensurePostDispatchGeneration_def intro: queue_run.stop split: if_splits)

lemma createPostDispatch_run [queue_runs]:
  assumes "createPostDispatch clock now i input db = (r, db')"
  shows "queue_run {} db db'"
proof -
  have adm: "queue_run {} db (db\<lparr>fb_admission := a\<rparr>)" for a by (rule run_other) simp_all
  consider "db' = db" | a where "db' = db\<lparr>fb_admission := a\<rparr>"
    | a orig db1 g where "ensurePostDispatchGeneration now (cd_topic input) (db\<lparr>fb_admission := a\<rparr>) = Inr db1"
        "topic_generation db1 (cd_topic input) = Some g"
        "\<not> sql_exists (\<lambda>d. pd_id d = i \<or> pd_post d = cd_post input) (fb_dispatches db1)"
        "db' = db1\<lparr>fb_dispatches := sql_insert (new_dispatch i now g orig input) (fb_dispatches db1)\<rparr>"
    using assms unfolding createPostDispatch_def Let_def
    by (auto split: option.splits prod.splits sum.splits if_splits)
  then show ?thesis
  proof cases
    case 1
    then show ?thesis by (simp add: queue_run.stop)
  next
    case 2
    then show ?thesis using adm by simp
  next
    case 3
    have "queue_change None db1 db'"
      unfolding 3(4) using 3(2,3)
      by (intro queue_change.insert) (auto simp: new_dispatch_def generation_current_def)
    then have "queue_run {} db1 db'" using queue_run_change by fastforce
    then show ?thesis using adm ensure_run [OF 3(1)] run_trans by blast
  qed
qed

lemma claimPostDispatch_run [queue_runs]:
  assumes "claimPostDispatch now token aid i st seen db = (r, db')"
  shows "queue_run {token} db db'"
proof (cases "open_status st")
  case True
  let ?hit = "\<lambda>d. pd_id d = i \<and> pd_status d = st \<and> pd_last_attempt_at d = seen \<and> generation_current db d"
  let ?f = "\<lambda>d. d\<lparr>pd_status := PD_dispatching, pd_claim_token := Some token,
               pd_attempt_count := pd_attempt_count d + 1, pd_last_attempt_at := Some now,
               pd_next_attempt_at := None, pd_error := None, pd_updated_at := now\<rparr>"
  let ?db1 = "db\<lparr>fb_dispatches := sql_update ?hit ?f (fb_dispatches db)\<rparr>"
  have "queue_change (Some token) db ?db1"
    using True by (intro queue_change.claim) (auto simp: fixed_columns_def)
  then have 1: "queue_run {token} db ?db1" using queue_run_change by fastforce
  let ?a = "(attempt aid i (nextPostDispatchAuditAttemptNumber i ?db1) Ev_claimed now)\<lparr>at_claim_token := Some token\<rparr>"
  have "db' = ?db1 \<or> db' = insertPostDispatchAttempt ?a ?db1 \<and> getPostDispatch i ?db1 \<noteq> None"
    using assms True by (cases "getPostDispatch i ?db1")
      (auto simp: claimPostDispatch_def update_dispatches_eq split: if_splits)
  then show ?thesis
  proof
    assume db': "db' = insertPostDispatchAttempt ?a ?db1 \<and> getPostDispatch i ?db1 \<noteq> None"
    then obtain d where "d \<in> set (fb_dispatches ?db1)" "pd_id d = i" using getPostDispatchD by blast
    then have "queue_run {} ?db1 db'" using db' by (auto intro!: run_audit)
    with 1 show ?thesis by (rule run_then)
  qed (use 1 in simp)
next
  case False
  with assms have "db' = db" by (simp add: claimPostDispatch_def)
  moreover have "queue_change (Some token) db (db\<lparr>fb_dispatches := sql_update (\<lambda>_. False) (\<lambda>d. d) (fb_dispatches db)\<rparr>)"
    by (rule queue_change.claim) simp
  then have "queue_change (Some token) db db" by (simp add: sql_update_def)
  ultimately show ?thesis using queue_run_change by fastforce
qed

lemma run_outcome:
  assumes "queue_run T db db1"
    and "(r, db') = (case getPostDispatch i db1 of None \<Rightarrow> (None, db1)
      | Some row \<Rightarrow> (Some row, if c then insertPostDispatchAttempt (a row) db1 else db1))"
    and "\<And>row. pd_id row = i \<Longrightarrow> at_event (a row) \<noteq> Ev_claimed \<and> at_dispatch (a row) = i"
  shows "queue_run T db db'"
proof (cases "getPostDispatch i db1")
  case None
  with assms(1,2) show ?thesis by simp
next
  case (Some row)
  note d = getPostDispatchD [OF Some]
  have "queue_run {} db1 (insertPostDispatchAttempt (a row) db1)"
    using d assms(3) [of row] by (intro run_audit) auto
  then have "queue_run T db (insertPostDispatchAttempt (a row) db1)" using assms(1) run_then by blast
  with assms(1,2) Some show ?thesis by (cases c) auto
qed

lemma close_run:
  assumes "close_dispatch now aid i extra status ev why db = (r, db')"
    and "status = PD_superseded \<or> status = PD_abandoned" and "ev \<noteq> Ev_claimed"
  shows "queue_run {} db db'"
proof -
  let ?hit = "\<lambda>d. pd_id d = i \<and> open_status (pd_status d) \<and> extra d"
  let ?f = "\<lambda>d. d\<lparr>pd_status := status, pd_next_attempt_at := None, pd_error := Some why, pd_updated_at := now\<rparr>"
  define db1 where "db1 = db\<lparr>fb_dispatches := sql_update ?hit ?f (fb_dispatches db)\<rparr>"
  have 1: "queue_run {} db db1"
    unfolding db1_def
    using assms(2) by (intro run_move) (auto simp: fixed_columns_def open_status_def dispatch_edge_simps)
  have "(r, db') = (case getPostDispatch i db1 of None \<Rightarrow> (None, db1)
      | Some row \<Rightarrow> (Some row, if sql_count ?hit (fb_dispatches db) = 1
          then insertPostDispatchAttempt (lifecycle_attempt aid row ev why now) db1 else db1))"
    using assms(1) unfolding close_dispatch_def update_dispatches_eq db1_def by simp
  then show ?thesis using assms(3) by (intro run_outcome [OF 1]) auto
qed

lemma superseded_run [queue_runs]: "markPostDispatchSuperseded now aid i why db = (r, db') \<Longrightarrow> queue_run {} db db'"
  unfolding markPostDispatchSuperseded_def by (erule close_run) simp_all

lemma abandoned_run [queue_runs]: "markPostDispatchAbandoned now aid i why db = (r, db') \<Longrightarrow> queue_run {} db db'"
  unfolding markPostDispatchAbandoned_def by (erule close_run) simp_all

lemma finish_run:
  assumes "finish_claim i token f audit db = (r, db')"
    and f: "\<And>d. fixed_columns (f d) = fixed_columns d"
      "\<And>d. pd_status d = PD_dispatching \<Longrightarrow> dispatch_edge PD_dispatching (pd_status (f d)) \<and> pd_status (f d) \<noteq> PD_dispatching"
    and audit: "\<And>row db. at_event (audit row db) \<noteq> Ev_claimed" "\<And>row db. at_dispatch (audit row db) = i"
  shows "queue_run {} db db'"
proof -
  let ?hit = "\<lambda>d. pd_id d = i \<and> pd_status d = PD_dispatching \<and> pd_claim_token d = Some token \<and> generation_current db d"
  define db1 where "db1 = db\<lparr>fb_dispatches := sql_update ?hit f (fb_dispatches db)\<rparr>"
  have 1: "queue_run {} db db1" unfolding db1_def using f by (intro run_move) auto
  have "(r, db') = (case getPostDispatch i db1 of None \<Rightarrow> (None, db1)
      | Some row \<Rightarrow> (Some row, if sql_count ?hit (fb_dispatches db) = 1 then insertPostDispatchAttempt (audit row db1) db1 else db1))"
    using assms(1) unfolding finish_claim_def update_dispatches_eq db1_def by simp
  then show ?thesis using audit by (intro run_outcome [OF 1]) auto
qed

lemma dispatched_run [queue_runs]: "markPostDispatchDispatched now aid i token db = (r, db') \<Longrightarrow> queue_run {} db db'"
  unfolding markPostDispatchDispatched_def
  by (erule finish_run) (auto simp: fixed_columns_def dispatch_edge_simps)

lemma failed_run [queue_runs]: "markPostDispatchFailed now aid i token m retryAt c db = (r, db') \<Longrightarrow> queue_run {} db db'"
  unfolding markPostDispatchFailed_def
  by (cases "getPostDispatch i db = None")
    (auto intro: queue_run.stop elim!: finish_run simp: fixed_columns_def dispatch_edge_simps split: if_splits)

lemma retry_run [queue_runs]: "retryTerminalPostDispatch now i db = (r, db') \<Longrightarrow> queue_run {} db db'"
  unfolding retryTerminalPostDispatch_def update_dispatches_eq
  by (auto intro!: run_move simp: fixed_columns_def dispatch_edge_simps)

lemma audit_superseded_run:
  "pd_id ` set rows \<subseteq> pd_id ` set (fb_dispatches db) \<Longrightarrow> queue_run {} db (audit_superseded n u now why rows db)"
proof (induction rows arbitrary: n db)
  case (Cons row rows)
  let ?db1 = "insertPostDispatchAttempt (lifecycle_attempt (u n) row Ev_superseded why now) db"
  have "queue_run {} db ?db1" using Cons.prems by (intro run_audit) auto
  moreover have "queue_run {} ?db1 (audit_superseded (Suc n) u now why rows ?db1)"
    using Cons.prems by (intro Cons.IH) auto
  ultimately show ?case by (auto intro: run_then)
qed (simp add: queue_run.stop)

lemma reconcile_run [queue_runs]:
  assumes "reconcilePostDispatchGenerations now u db = (r, db')"
  shows "queue_run {} db db'"
proof -
  let ?stale = "\<lambda>d. open_status (pd_status d)
    \<and> pd_generation d \<noteq> (case topic_generation db (pd_topic d) of None \<Rightarrow> 0 | Some g \<Rightarrow> g)"
  let ?f = "\<lambda>d. d\<lparr>pd_status := PD_superseded, pd_next_attempt_at := None, pd_error := Some reconcile_reason, pd_updated_at := now\<rparr>"
  define db1 where "db1 = db\<lparr>fb_dispatches := sql_update ?stale ?f (fb_dispatches db)\<rparr>"
  have 1: "queue_run {} db db1"
    unfolding db1_def by (intro run_move) (auto simp: fixed_columns_def open_status_def dispatch_edge_simps)
  have "pd_id ` set (sql_select ?stale (fb_dispatches db)) \<subseteq> pd_id ` set (fb_dispatches db1)"
    unfolding db1_def by (auto simp: ids_after_update)
  then have "queue_run {} db1 (audit_superseded 0 u now reconcile_reason (sql_select ?stale (fb_dispatches db)) db1)"
    by (rule audit_superseded_run)
  moreover have "db' = audit_superseded 0 u now reconcile_reason (sql_select ?stale (fb_dispatches db)) db1"
    using assms unfolding reconcilePostDispatchGenerations_def update_dispatches_eq db1_def by (simp add: Let_def)
  ultimately show ?thesis using 1 run_then by blast
qed

text \<open>The stages of an interrupt.\<close>

definition interrupted :: "iso_time \<Rightarrow> ident \<Rightarrow> js_string \<Rightarrow> dispatch_row \<Rightarrow> dispatch_row" where
  "interrupted now topic why d = (if pd_topic d = topic \<and> open_status (pd_status d)
     then d\<lparr>pd_status := PD_superseded, pd_next_attempt_at := None, pd_error := Some (js_slice 1000 why), pd_updated_at := now\<rparr>
     else d)"

lemma audit_superseded_fields [simp]:
  "fb_dispatches (audit_superseded n u now why rows db) = fb_dispatches db"
  "fb_generations (audit_superseded n u now why rows db) = fb_generations db"
  "fb_robot_states (audit_superseded n u now why rows db) = fb_robot_states db"
  "fb_active_origins (audit_superseded n u now why rows db) = fb_active_origins db"
  by (induction rows arbitrary: n db) (simp_all add: insertPostDispatchAttempt_def)

lemma advance_cases:
  assumes "advanceTopicDispatchGeneration now u topic why db = Inr ((g, n), db')"
  obtains db1 g0 where "ensurePostDispatchGeneration now topic db = Inr db1" and "topic_generation db1 topic = Some g0"
    and "g = g0 + 1" and "n = sql_count (\<lambda>d. pd_topic d = topic \<and> open_status (pd_status d)) (fb_dispatches db)"
    and "fb_dispatches db' = map (interrupted now topic why) (fb_dispatches db)"
    and "\<And>t. topic_generation db' t = (if t = topic then Some (g0 + 1) else topic_generation db t)"
    and "fb_active_origins db' = sql_delete (\<lambda>a. ao_topic a = topic) (fb_active_origins db)"
    and "fb_attempts db' = fb_attempts (audit_superseded 0 u now why
      (sql_select (\<lambda>d. pd_topic d = topic \<and> open_status (pd_status d)) (fb_dispatches db)) db)"
    and "queue_run {} db db'"
proof -
  let ?mine = "\<lambda>d. pd_topic d = topic \<and> open_status (pd_status d)"
  let ?f = "\<lambda>d. d\<lparr>pd_status := PD_superseded, pd_next_attempt_at := None, pd_error := Some (js_slice 1000 why), pd_updated_at := now\<rparr>"
  from assms obtain db1 where e: "ensurePostDispatchGeneration now topic db = Inr db1"
    by (auto simp: advanceTopicDispatchGeneration_def split: sum.splits)
  have same: "fb_dispatches db1 = fb_dispatches db" "fb_attempts db1 = fb_attempts db" "fb_active_origins db1 = fb_active_origins db"
    using e by (auto simp: ensurePostDispatchGeneration_def split: if_splits)
  have gen1: "topic_generation db1 t = (case topic_generation db t of None \<Rightarrow> if t = topic then Some 0 else None | Some x \<Rightarrow> Some x)" for t
    using e by (auto simp: ensurePostDispatchGeneration_def topic_generation_insert split: if_splits option.splits)
  have "topic_generation db1 topic \<noteq> None" unfolding gen1 by (auto split: option.splits)
  then obtain g0 where g0: "topic_generation db1 topic = Some g0" by blast
  define db2 where "db2 = db1\<lparr>fb_generations := sql_update (\<lambda>g. ge_topic g = topic)
      (\<lambda>g. g\<lparr>ge_generation := ge_generation g + 1, ge_updated_at := now\<rparr>) (fb_generations db1)\<rparr>"
  define db3 where "db3 = db2\<lparr>fb_dispatches := sql_update ?mine ?f (fb_dispatches db2)\<rparr>"
  define db4 where "db4 = audit_superseded 0 u now why (sql_select ?mine (fb_dispatches db1)) db3"
  define db5 where "db5 = db4\<lparr>fb_active_origins := sql_delete (\<lambda>a. ao_topic a = topic) (fb_active_origins db4),
      fb_robot_states := sql_update (\<lambda>r. rs_topic r = topic)
        (\<lambda>r. r\<lparr>rs_activity := ''idle'', rs_current_plan := None, rs_last_updated_at := now\<rparr>) (fb_robot_states db4)\<rparr>"
  have gen5: "topic_generation db5 t = map_option (\<lambda>x. if t = topic then x + 1 else x) (topic_generation db1 t)" for t
    using topic_generation_next [where db = db1 and topic = topic and now = now and t = t]
    by (simp add: db5_def db4_def db3_def db2_def topic_generation_def)
  have "advanceTopicDispatchGeneration now u topic why db = Inr ((g0 + 1, sql_count ?mine (fb_dispatches db)), db5)"
    unfolding advanceTopicDispatchGeneration_def e sum.case Let_def update_dispatches_eq prod.case
      db2_def [symmetric] db3_def [symmetric] db4_def [symmetric] db5_def [symmetric] gen5
    using g0 same by (simp add: db2_def)
  with assms have r: "g = g0 + 1" "n = sql_count ?mine (fb_dispatches db)" "db' = db5" by simp_all
  have disp: "fb_dispatches db5 = map (interrupted now topic why) (fb_dispatches db)"
    by (simp add: db5_def db4_def db3_def db2_def same sql_update_def interrupted_def cong: map_cong)
  have att: "fb_attempts (audit_superseded k u now why rows x) = fb_attempts (audit_superseded k u now why rows y)"
    if "fb_attempts x = fb_attempts y" for k rows x y
    using that by (induction rows arbitrary: k x y) (simp_all add: insertPostDispatchAttempt_def)
  have "queue_run {} db db1" using e by (rule ensure_run)
  moreover have "queue_run {} db1 db2"
    unfolding db2_def using queue_run_change [OF queue_change.next_generation] by fastforce
  moreover have "queue_run {} db2 db3"
    unfolding db3_def by (intro run_move) (auto simp: fixed_columns_def open_status_def dispatch_edge_simps)
  moreover have "queue_run {} db3 db4"
    unfolding db4_def by (rule audit_superseded_run) (auto simp: db3_def db2_def ids_after_update)
  moreover have "queue_run {} db4 db5" by (rule run_other) (simp_all add: db5_def)
  ultimately have run: "queue_run {} db db5" by (meson run_then)
  show thesis
  proof (rule that [OF e g0 r(1,2)])
    show "fb_dispatches db' = map (interrupted now topic why) (fb_dispatches db)" using disp r(3) by simp
    show "topic_generation db' t = (if t = topic then Some (g0 + 1) else topic_generation db t)" for t
      using r(3) g0 gen1 [of t] by (auto simp: gen5 split: option.splits)
    show "fb_active_origins db' = sql_delete (\<lambda>a. ao_topic a = topic) (fb_active_origins db)"
      using r(3) same by (simp add: db5_def db4_def db3_def db2_def)
    show "fb_attempts db' = fb_attempts (audit_superseded 0 u now why (sql_select ?mine (fb_dispatches db)) db)"
      using r(3) same att [of db3 db] by (simp add: db5_def db4_def db3_def db2_def)
    show "queue_run {} db db'" using run r(3) by simp
  qed
qed

lemma advance_run [queue_runs]:
  "advanceTopicDispatchGeneration now u topic why db = Inr (r, db') \<Longrightarrow> queue_run {} db db'"
  by (cases r) (auto elim: advance_cases)

lemma supersede_group_run:
  "supersede_group n u now rows db = (m, db') \<Longrightarrow> queue_run {} db db' \<and> n \<le> m"
proof (induction rows arbitrary: n db)
  case (Cons row rows)
  let ?hit = "\<lambda>d. pd_id d = pd_id row \<and> open_status (pd_status d)"
  let ?f = "\<lambda>d. d\<lparr>pd_status := PD_superseded, pd_next_attempt_at := None, pd_error := Some group_reason, pd_updated_at := now\<rparr>"
  define db1 where "db1 = db\<lparr>fb_dispatches := sql_update ?hit ?f (fb_dispatches db)\<rparr>"
  have 1: "queue_run {} db db1"
    unfolding db1_def by (intro run_move) (auto simp: fixed_columns_def open_status_def dispatch_edge_simps)
  show ?case
  proof (cases "sql_count ?hit (fb_dispatches db) = 1")
    case True
    let ?db2 = "insertPostDispatchAttempt (lifecycle_attempt (u n) row Ev_superseded group_reason now) db1"
    have "\<exists>d \<in> set (fb_dispatches db). pd_id d = pd_id row"
      using True sql_count_0_iff [of ?hit "fb_dispatches db"] by auto
    then have "pd_id row \<in> pd_id ` set (fb_dispatches db)" by (metis image_eqI)
    then have "pd_id row \<in> pd_id ` set (fb_dispatches db1)" unfolding db1_def by (simp add: ids_after_update)
    then have "queue_run {} db1 ?db2" by (intro run_audit) auto
    moreover have "supersede_group (Suc n) u now rows ?db2 = (m, db')"
      using Cons.prems True unfolding supersede_group.simps update_dispatches_eq prod.case db1_def by simp
    ultimately show ?thesis using Cons.IH [of "Suc n" ?db2] 1 run_then Suc_leD by blast
  next
    case False
    then have "supersede_group n u now rows db1 = (m, db')"
      using Cons.prems unfolding supersede_group.simps update_dispatches_eq prod.case db1_def by simp
    then show ?thesis using Cons.IH [of n db1] 1 run_then by blast
  qed
qed (auto intro: queue_run.stop)

lemma queue_run_weaken:
  assumes "queue_run T db db'" and "T \<subseteq> {t}"
  shows "queue_run {t} db db'"
proof (cases "T = {}")
  case True
  have "queue_change (Some t) db' (db'\<lparr>fb_dispatches := sql_update (\<lambda>_. False) (\<lambda>d. d) (fb_dispatches db')\<rparr>)"
    by (rule queue_change.claim) simp
  then have "queue_change (Some t) db' db'" by (simp add: sql_update_def)
  from queue_run.more [OF assms(1) this] True show ?thesis by simp
next
  case False
  with assms show ?thesis by (metis subset_singletonD)
qed

lemma claim_group_run [queue_runs]:
  assumes "claimPostDispatchGroup now now2 u rows db = Inr (r, db')"
  shows "\<exists>n. queue_run {u n} db db'"
proof -
  let ?t = "last rows"
  consider "db' = db"
    | n db1 where "supersede_group 0 u now (butlast rows) db = (n, db1)"
        "claimPostDispatch now2 (u n) (u (Suc n)) (pd_id ?t) (pd_status ?t) (pd_last_attempt_at ?t)
          (db1\<lparr>fb_dispatches := sql_update (\<lambda>d. pd_id d = pd_id ?t \<and> pd_status d = pd_status ?t)
            (\<lambda>d. d\<lparr>pd_contributors := Some (group_contributors rows), pd_updated_at := now\<rparr>) (fb_dispatches db1)\<rparr>) = (r, db')"
    | "claimPostDispatch now2 (u 0) (u 1) (pd_id ?t) (pd_status ?t) (pd_last_attempt_at ?t) db = (r, db')"
    using assms unfolding claimPostDispatchGroup_def Let_def update_dispatches_eq
    by (auto split: if_splits prod.splits)
  then show ?thesis
  proof cases
    case 1
    then show ?thesis using queue_run_weaken [OF queue_run.stop] by blast
  next
    case 2
    let ?db2 = "db1\<lparr>fb_dispatches := sql_update (\<lambda>d. pd_id d = pd_id ?t \<and> pd_status d = pd_status ?t)
            (\<lambda>d. d\<lparr>pd_contributors := Some (group_contributors rows), pd_updated_at := now\<rparr>) (fb_dispatches db1)\<rparr>"
    have "queue_run {} db1 ?db2" by (intro run_move) (auto simp: fixed_columns_def)
    moreover have "queue_run {} db db1" using supersede_group_run [OF 2(1)] by blast
    moreover have "queue_run {u n} ?db2 db'" using 2(2) by (rule claimPostDispatch_run)
    ultimately show ?thesis using run_trans by blast
  next
    case 3
    then show ?thesis using claimPostDispatch_run by blast
  qed
qed

section \<open>The store as a transition system\<close>

text \<open>Operations that leave the queue's three tables alone.\<close>

definition same_queue :: "forum_db \<Rightarrow> forum_db \<Rightarrow> bool" where
  "same_queue db db' \<longleftrightarrow> fb_dispatches db' = fb_dispatches db \<and> fb_generations db' = fb_generations db
     \<and> fb_attempts db' = fb_attempts db"

lemma same_queue_run: "same_queue db db' \<Longrightarrow> queue_run {} db db'"
  unfolding same_queue_def by (rule run_other) auto

lemma update_topic_same: "update_topic i f db = Inr (r, db') \<Longrightarrow> same_queue db db'"
  by (auto simp: update_topic_def Let_def same_queue_def split: option.splits)

lemma createTopic_same: "createTopic now u input db = Inr (r, db') \<Longrightarrow> same_queue db db'"
  by (auto simp: createTopic_def Let_def same_queue_def split: if_splits)

lemma apply_auto_compact_same: "apply_auto_compact now input db = Inr db' \<Longrightarrow> same_queue db db'"
  by (auto simp: apply_auto_compact_def Let_def same_queue_def split: option.splits if_splits)

lemma createPost_same: "createPost now i input db = Inr (r, db') \<Longrightarrow> same_queue db db'"
  by (auto simp: createPost_def Let_def same_queue_def dest!: apply_auto_compact_same split: if_splits sum.splits)

lemma update_live_post_same: "update_live_post i m f db = Inr (r, db') \<Longrightarrow> same_queue db db'"
  by (auto simp: update_live_post_def Let_def same_queue_def split: option.splits if_splits)

lemma event_same: "createTopicOperationalEvent e db = Inr (r, db') \<Longrightarrow> same_queue db db'"
  by (auto simp: createTopicOperationalEvent_def same_queue_def split: option.splits if_splits)

lemma update_robot_same: "update_robot topic f db = (r, db') \<Longrightarrow> same_queue db db'"
  by (auto simp: update_robot_def Let_def same_queue_def split: option.splits)

lemma recordActiveTurnOrigin_same: "recordActiveTurnOrigin now topic d g orig db = (r, db') \<Longrightarrow> same_queue db db'"
  by (auto simp: recordActiveTurnOrigin_def Let_def same_queue_def split: if_splits)

lemma recordActiveTurnOriginFromDispatch_same: "recordActiveTurnOriginFromDispatch now topic d db = (r, db') \<Longrightarrow> same_queue db db'"
proof -
  assume "recordActiveTurnOriginFromDispatch now topic d db = (r, db')"
  then consider "db' = db" | g orig where "recordActiveTurnOrigin now topic d g orig db = (r, db')"
    by (auto simp: recordActiveTurnOriginFromDispatch_def split: option.splits if_splits)
  then show ?thesis
  proof cases
    case 1
    then show ?thesis by (simp add: same_queue_def)
  next
    case 2
    then show ?thesis by (rule recordActiveTurnOrigin_same)
  qed
qed

lemma clearActiveTurnOrigin_same: "clearActiveTurnOrigin topic g db = (r, db') \<Longrightarrow> same_queue db db'"
  by (auto simp: clearActiveTurnOrigin_def Let_def same_queue_def)

lemma update_compactions_same: "update_compactions hit f db = (n, db') \<Longrightarrow> same_queue db db'"
  by (auto simp: update_compactions_def same_queue_def)

lemma createCompaction_same: "createCompactionOperation now input db = Inr (r, db') \<Longrightarrow> same_queue db db'"
  by (auto simp: createCompactionOperation_def insert_compaction_def Let_def same_queue_def split: option.splits sum.splits if_splits)

lemma enqueueCompaction_same: "enqueueCompactionOperationIfIdle clock now input db = (r, db') \<Longrightarrow> same_queue db db'"
  by (auto simp: enqueueCompactionOperationIfIdle_def Let_def same_queue_def split: prod.splits sum.splits if_splits
      dest!: createCompaction_same)

lemma startCompaction_same: "startCompactionOperation now input db = Inr (r, db') \<Longrightarrow> same_queue db db'"
  by (auto simp: startCompactionOperation_def insert_compaction_def same_queue_def split: sum.splits if_splits)

lemma finishFailure_same: "finishCompactionFailure t eid i m db = Inr (r, db') \<Longrightarrow> same_queue db db'"
  by (auto simp: finishCompactionFailure_def Let_def update_compactions_def same_queue_def
      dest!: event_same split: sum.splits option.splits prod.splits)

lemma finishSuccess_run:
  assumes "finishCompactionSuccess t u i db = (r, db')"
  shows "queue_run {} db db'"
proof (cases r)
  case (Inl e)
  with assms have "same_queue db db'"
    by (auto simp: finishCompactionSuccess_def Let_def same_queue_def split: sum.splits option.splits prod.splits)
  then show ?thesis by (rule same_queue_run)
next
  case (Inr c)
  with assms obtain input cinput post db1 drow db2 ev ev' db3 where
    "createPost (t 1) (u 0) input db = Inr (post, db1)" "createPostDispatch (t 2) (t 3) (u 1) cinput db1 = (Inr drow, db2)"
    "createTopicOperationalEvent ev db2 = Inr (ev', db3)" "same_queue db3 db'"
    by (fastforce simp: finishCompactionSuccess_def Let_def update_compactions_def same_queue_def
        split: sum.splits option.splits prod.splits)
  then have "queue_run {} db db1" "queue_run {} db1 db2" "queue_run {} db2 db3" "queue_run {} db3 db'"
    by (auto intro: same_queue_run createPost_same event_same createPostDispatch_run)
  then show ?thesis by (meson run_then)
qed

text \<open>Every operation of the store; the label holds the claim tokens an operation may draw.\<close>

inductive store_step :: "ident set \<Rightarrow> forum_db \<Rightarrow> forum_db \<Rightarrow> bool" where
  create_dispatch: "createPostDispatch clock now i input db = (r, db') \<Longrightarrow> store_step {} db db'"
| claim: "claimPostDispatch now token aid i st seen db = (r, db') \<Longrightarrow> store_step {token} db db'"
| claim_group: "claimPostDispatchGroup now now2 u rows db = Inr (r, db') \<Longrightarrow> store_step (range u) db db'"
| dispatched: "markPostDispatchDispatched now aid i token db = (r, db') \<Longrightarrow> store_step {} db db'"
| failed: "markPostDispatchFailed now aid i token m retryAt cl db = (r, db') \<Longrightarrow> store_step {} db db'"
| superseded: "markPostDispatchSuperseded now aid i why db = (r, db') \<Longrightarrow> store_step {} db db'"
| abandoned: "markPostDispatchAbandoned now aid i why db = (r, db') \<Longrightarrow> store_step {} db db'"
| retry: "retryTerminalPostDispatch now i db = (r, db') \<Longrightarrow> store_step {} db db'"
| reconcile: "reconcilePostDispatchGenerations now u db = (n, db') \<Longrightarrow> store_step {} db db'"
| interrupt: "advanceTopicDispatchGeneration now u topic why db = Inr (g, db') \<Longrightarrow> store_step {} db db'"
| generation: "getTopicDispatchGeneration now topic db = Inr (g, db') \<Longrightarrow> store_step {} db db'"
| record_origin: "recordActiveTurnOriginFromDispatch now topic i db = (o', db') \<Longrightarrow> store_step {} db db'"
| clear_origin: "clearActiveTurnOrigin topic g' db = (b, db') \<Longrightarrow> store_step {} db db'"
| topic: "createTopic now u tinput db = Inr (tp, db') \<Longrightarrow> store_step {} db db'"
| topic_update: "update_topic i f db = Inr (t, db') \<Longrightarrow> store_step {} db db'"
| post: "createPost now i pinput db = Inr (p, db') \<Longrightarrow> store_step {} db db'"
| post_update: "update_live_post i dm pf db = Inr (p, db') \<Longrightarrow> store_step {} db db'"
| robot: "update_robot topic rf db = (rs, db') \<Longrightarrow> store_step {} db db'"
| robot_reset: "resetRobotActivities now activity db = (n, db') \<Longrightarrow> store_step {} db db'"
| event: "createTopicOperationalEvent e db = Inr (ev, db') \<Longrightarrow> store_step {} db db'"
| enqueue_compaction: "enqueueCompactionOperationIfIdle clock now cinput db = (cr, db') \<Longrightarrow> store_step {} db db'"
| start_compaction: "startCompactionOperation now cinput db = Inr (c', db') \<Longrightarrow> store_step {} db db'"
| claim_compaction: "claimCompactionOperation now i db = (c', db') \<Longrightarrow> store_step {} db db'"
| requeue_running: "requeueRunningCompactionOperations db = (n, db') \<Longrightarrow> store_step {} db db'"
| requeue: "requeueCompactionOperation i db = (b, db') \<Longrightarrow> store_step {} db db'"
| requeue_uncertain: "requeueUncertainCompaction i m at db = (ur, db') \<Longrightarrow> store_step {} db db'"
| compaction_failed: "finishCompactionFailure ts i' i m db = Inr (c, db') \<Longrightarrow> store_step {} db db'"
| compaction_succeeded: "finishCompactionSuccess ts u i db = (ur, db') \<Longrightarrow> store_step {} db db'"

inductive store_run :: "ident set \<Rightarrow> forum_db \<Rightarrow> forum_db \<Rightarrow> bool" where
  stop: "store_run {} db db"
| more: "store_run T db db1 \<Longrightarrow> store_step S db1 db2 \<Longrightarrow> store_run (S \<union> T) db db2"

lemma store_step_queue_run: "store_step S db db' \<Longrightarrow> \<exists>T \<subseteq> S. queue_run T db db'"
proof (induction rule: store_step.induct)
  case (claim_group now now2 u rows db r db')
  then show ?case using claim_group_run by (metis empty_subsetI insert_subset rangeI)
next
  case (generation now topic db g db')
  then have "queue_run {} db db'"
    by (auto simp: getTopicDispatchGeneration_def intro: ensure_run split: sum.splits option.splits)
  then show ?case by blast
next
  case (robot_reset now activity db n db')
  then have "same_queue db db'" by (auto simp: resetRobotActivities_def Let_def same_queue_def)
  then show ?case using same_queue_run by blast
next
  case (claim_compaction now i db c' db')
  then have "same_queue db db'" by (auto simp: claimCompactionOperation_def update_compactions_def same_queue_def)
  then show ?case using same_queue_run by blast
next
  case (requeue_running db n db')
  then have "same_queue db db'" by (auto simp: requeueRunningCompactionOperations_def update_compactions_def same_queue_def)
  then show ?case using same_queue_run by blast
next
  case (requeue i db b db')
  then have "same_queue db db'" by (auto simp: requeueCompactionOperation_def update_compactions_def same_queue_def)
  then show ?case using same_queue_run by blast
next
  case (requeue_uncertain i m at db ur db')
  then have "same_queue db db'"
    by (auto simp: requeueUncertainCompaction_def update_compactions_def same_queue_def split: option.splits if_splits)
  then show ?case using same_queue_run by blast
qed (blast intro: queue_runs finishSuccess_run same_queue_run recordActiveTurnOriginFromDispatch_same
    clearActiveTurnOrigin_same createTopic_same update_topic_same createPost_same update_live_post_same
    update_robot_same event_same enqueueCompaction_same startCompaction_same finishFailure_same)+

lemma store_run_queue_run: "store_run S db db' \<Longrightarrow> \<exists>T \<subseteq> S. queue_run T db db'"
proof (induction rule: store_run.induct)
  case (stop db)
  then show ?case using queue_run.stop by blast
next
  case (more T db db1 S db2)
  obtain S1 where S1: "S1 \<subseteq> S" "queue_run S1 db1 db2" using store_step_queue_run [OF more.hyps(2)] by blast
  obtain T1 where T1: "T1 \<subseteq> T" "queue_run T1 db db1" using more.IH by blast
  from S1 T1 have "queue_run (S1 \<union> T1) db db2" "S1 \<union> T1 \<subseteq> S \<union> T" by (auto intro: queue_run_trans)
  then show ?case by blast
qed

lemma store_run_inv: "store_run S db db' \<Longrightarrow> queue_inv db \<Longrightarrow> queue_inv db'"
  using store_run_queue_run queue_run_inv by blast

definition store_any :: "forum_db \<Rightarrow> forum_db \<Rightarrow> bool" where
  "store_any db db' \<longleftrightarrow> (\<exists>S. store_step S db db')"

interpretation dispatch_machine: status_machine dispatch_status_of dispatch_edge store_any queue_inv
proof
  fix db db' :: forum_db and i a
  assume inv: "queue_inv db" and "store_any db db'"
  then obtain T where T: "queue_run T db db'" using store_step_queue_run unfolding store_any_def by blast
  then show "queue_inv db'" using inv by (rule queue_run_inv)
  show "\<exists>b. dispatch_status_of db' i = Some b \<and> dispatch_edge\<^sup>*\<^sup>* a b" if "dispatch_status_of db i = Some a"
    using T that by (rule queue_run_edges)
qed

section \<open>Properties of the queue\<close>


text \<open>
  C1. A claim that has been lost can finish nothing: once a claim token is not the current one of its
  dispatch (another worker reclaimed it, the dispatch was decided, or the topic was interrupted),
  then, whatever operations run afterwards and as long as no later claim draws that same token,
  reporting success or failure under it changes nothing at all.
\<close>

theorem stale_claim_fenced:
  assumes "queue_inv db" and "\<not> isPostDispatchClaimCurrent i token db" and "store_run T db db'" and "token \<notin> T"
  shows "snd (markPostDispatchDispatched now aid i token db') = db'
    \<and> snd (markPostDispatchFailed now aid i token m retryAt cl db') = db'"
proof -
  obtain T' where "T' \<subseteq> T" "queue_run T' db db'" using store_run_queue_run [OF assms(3)] by blast
  then have "\<not> isPostDispatchClaimCurrent i token db'" using queue_run_stale assms by blast
  then have none: "sql_count (\<lambda>d. pd_id d = i \<and> pd_status d = PD_dispatching \<and> pd_claim_token d = Some token
      \<and> generation_current db' d) (fb_dispatches db') = 0"
    by (simp add: isPostDispatchClaimCurrent_def sql_count_0_iff)
  have "snd (finish_claim i token f audit db') = db'" for f audit
    using none sql_update_no_changes [OF none, of f] unfolding finish_claim_def update_dispatches_eq
    by (simp split: option.splits)
  then show ?thesis by (simp add: markPostDispatchDispatched_def markPostDispatchFailed_def)
qed


text \<open>
  The audit trail of dispatch attempts is append-only: over any run of store operations it only
  grows at its end, each row belongs to a stored dispatch, and the claims of each dispatch are
  numbered 1, 2, 3, ... without gap or repetition, in the order they were made.
\<close>

theorem audit_append_only:
  assumes "store_run T db db'" and "queue_inv db"
  shows "(\<exists>more. fb_attempts db' = fb_attempts db @ more)
    \<and> at_dispatch ` set (fb_attempts db') \<subseteq> pd_id ` set (fb_dispatches db')
    \<and> claimed_numbers i db' = [1..<Suc (length (claimed_numbers i db'))]"
proof -
  obtain T' where "queue_run T' db db'" using store_run_queue_run [OF assms(1)] by blast
  then show ?thesis
    using queue_run_attempts store_run_inv [OF assms] by (simp add: queue_inv_def counts_up_def)
qed

text \<open>
  One dispatch per post: asking for a dispatch of a post that has one returns it and changes
  nothing, and in every reachable state no two dispatches have the same post or the same id.
\<close>

theorem one_dispatch_per_post:
  assumes "queue_inv db" and "createPostDispatch clock now i input db = (Inr d, db')" and "store_run T db' db''"
  shows "pd_post d = cd_post input
    \<and> distinct (map pd_post (fb_dispatches db'')) \<and> distinct (map pd_id (fb_dispatches db''))
    \<and> (\<exists>e. createPostDispatch clock2 now2 i2 input db'' = (Inr e, db'') \<and> pd_id e = pd_id d)"
proof -
  have inv': "queue_inv db'" using createPostDispatch_run [OF assms(2)] assms(1) by (rule queue_run_inv)
  then have inv: "queue_inv db''" using assms(3) store_run_inv by blast
  have d: "d \<in> set (fb_dispatches db')" "pd_post d = cd_post input"
    using assms(2) unfolding createPostDispatch_def Let_def
    by (auto simp: getPostDispatchByPost_def new_dispatch_def dest!: sql_get_SomeD
        split: option.splits prod.splits sum.splits if_splits)
  obtain T' where run: "queue_run T' db' db''" using store_run_queue_run [OF assms(3)] by blast
  obtain e where e: "e \<in> set (fb_dispatches db'')" "fixed_columns e = fixed_columns d"
    using queue_run_keeps [OF run d(1)] by blast
  have "getPostDispatchByPost (cd_post input) db'' = Some e"
    unfolding getPostDispatchByPost_def using inv e d(2)
    by (intro sql_get_only) (auto simp: queue_inv_def dest!: fixed_columnsD dest: unique_keyD)
  then show ?thesis
    using d(2) inv e by (auto simp: createPostDispatch_def queue_inv_def unique_key_def dest: fixed_columnsD)
qed


end
