(* ===== verification/Dispatch_Service.thy ===== *)
theory Dispatch_Service
  imports Compaction
begin

text \<open>
  \<^verbatim>\<open>server/services/postDispatchService.ts\<close>: which due dispatches a pass takes, how pending posts
  are grouped, and what happens around the call to the agent. The agent itself is outside: a
  dispatch is split at the \<^verbatim>\<open>await\<close> into the part before the call (\<open>prepare_dispatch\<close>) and the part
  after it (\<open>complete_dispatch\<close>), which is given what the call did.
\<close>

definition MAX_ATTEMPTS :: nat where "MAX_ATTEMPTS = 5"
definition RETRY_DELAYS_MS :: "int list" where "RETRY_DELAYS_MS = [10000, 30000, 2 * 60000, 5 * 60000]"
definition DISPATCHING_STALE_MS :: int where "DISPATCHING_STALE_MS = 5 * 60000"
definition TRANSPORT_RETRY_DELAYS_MS :: "int list" where "TRANSPORT_RETRY_DELAYS_MS = [30000, 60000, 2 * 60000, 5 * 60000]"

definition delay_for :: "int list \<Rightarrow> nat \<Rightarrow> int" where
  \<comment> \<open>\<^verbatim>\<open>delays[Math.max(0, Math.min(delays.length - 1, attemptCount - 1))]\<close>; natural subtraction is the maximum with 0\<close>
  "delay_for delays attemptCount = delays ! min (length delays - 1) (attemptCount - 1)"

definition retryAtForAttempt :: "iso_time \<Rightarrow> nat \<Rightarrow> iso_time option" where
  "retryAtForAttempt now attemptCount =
    (if attemptCount \<ge> MAX_ATTEMPTS then None else Some (now + delay_for RETRY_DELAYS_MS attemptCount))"

definition transportRetryAtForAttempt :: "nat \<Rightarrow> iso_time \<Rightarrow> iso_time" where
  "transportRetryAtForAttempt attemptCount now = now + delay_for TRANSPORT_RETRY_DELAYS_MS attemptCount"

definition isStaleDispatching :: "iso_time \<Rightarrow> dispatch_row \<Rightarrow> bool" where
  "isStaleDispatching now row \<longleftrightarrow> pd_status row = PD_dispatching
     \<and> (case pd_last_attempt_at row of None \<Rightarrow> False | Some at \<Rightarrow> at > 0 \<and> now - at > DISPATCHING_STALE_MS)"

record dispatch_service =
  ds_running :: bool
  ds_stopped :: bool
  ds_activeTopics :: "ident list"

section \<open>Selection\<close>

definition recovery_checkpoint :: "iso_time \<Rightarrow> forum_db \<Rightarrow> dispatch_row list \<Rightarrow> dispatch_row option" where
  "recovery_checkpoint now db pendingForTopic = List.find (\<lambda>p. isCompactionRecoveryPost (pd_post p) db
     \<and> (case pd_next_attempt_at p of None \<Rightarrow> True | Some t \<Rightarrow> t \<le> now)) pendingForTopic"

definition busy :: "iso_time \<Rightarrow> dispatch_row \<Rightarrow> bool" where
  "busy now row \<longleftrightarrow> pd_status row = PD_dispatching \<and> \<not> isStaleDispatching now row"

definition pick :: "iso_time \<Rightarrow> ident list \<Rightarrow> dispatch_row list \<Rightarrow> dispatch_row \<Rightarrow> forum_db \<Rightarrow> dispatch_row option" where
  \<comment> \<open>the body of the selection loop for one due row: the row to dispatch for its topic, if any\<close>
  "pick now active selected row db =
    (let taken = (\<lambda>topic. topic \<in> set active \<or> topic \<in> set (map pd_topic selected)) in
     if taken (pd_topic row) \<or> busy now row then None
     else let pendingForTopic = listPendingPostDispatchesForTopic (pd_topic row) db;
              checkpoint = recovery_checkpoint now db pendingForTopic in
       if hasCompactionFence (pd_topic row) db \<and> checkpoint = None then None
       else let earliest = (case checkpoint of Some p \<Rightarrow> p
                  | None \<Rightarrow> (case pendingForTopic of p # _ \<Rightarrow> p | [] \<Rightarrow> row)) in
         if busy now earliest \<or> taken (pd_topic earliest) then None else Some earliest)"

fun select_due :: "iso_time \<Rightarrow> nat \<Rightarrow> ident list \<Rightarrow> forum_db \<Rightarrow> dispatch_row list \<Rightarrow> dispatch_row list \<Rightarrow> dispatch_row list" where
  "select_due now maxConcurrent active db [] selected = selected"
| "select_due now maxConcurrent active db (row # due) selected =
    (if length selected \<ge> maxConcurrent then selected
     else case pick now active selected row db of
         None \<Rightarrow> select_due now maxConcurrent active db due selected
       | Some p \<Rightarrow> select_due now maxConcurrent active db due (selected @ [p]))"

definition processDue :: "iso_time \<Rightarrow> int \<Rightarrow> dispatch_service \<Rightarrow> forum_db \<Rightarrow> dispatch_row list" where
  \<comment> \<open>the rows a pass dispatches; none when stopped or when a pass is running\<close>
  "processDue now maxConcurrent svc db =
    (if ds_stopped svc \<or> ds_running svc then []
     else let n = max 1 maxConcurrent in
       select_due now (nat n) (ds_activeTopics svc) db (listDuePostDispatches now (n * 4) db) [])"

section \<open>Grouping\<close>

definition find_index :: "('a \<Rightarrow> bool) \<Rightarrow> 'a list \<Rightarrow> nat option" where
  "find_index p xs = (let n = length (takeWhile (\<lambda>x. \<not> p x) xs) in if n < length xs then Some n else None)"

definition group_boundary :: "dispatch_row \<Rightarrow> dispatch_row list \<Rightarrow> nat" where
  "group_boundary row candidates =
    (let boundary = (case find_index (\<lambda>p. pd_auto_compact p \<noteq> None) candidates of
           Some 0 \<Rightarrow> 1 | Some (Suc n) \<Rightarrow> Suc n | None \<Rightarrow> length candidates)
     in case find_index (\<lambda>p. pd_origin_key p \<noteq> pd_origin_key row) candidates of
          None \<Rightarrow> boundary | Some n \<Rightarrow> min n boundary)"

definition dispatch_group :: "dispatch_row \<Rightarrow> forum_db \<Rightarrow> dispatch_row list option" where
  "dispatch_group row db =
    (let pendingForTopic = listPendingPostDispatchesForTopic (pd_topic row) db in
     case find_index (\<lambda>p. pd_id p = pd_id row) pendingForTopic of
       None \<Rightarrow> None
     | Some start \<Rightarrow> let candidates = drop start pendingForTopic in
         Some (if isCompactionRecoveryPost (pd_post row) db \<or> pd_mode row = ''fork-opening'' then [row]
               else take (group_boundary row candidates) candidates))"

section \<open>One dispatch\<close>

datatype agent_mode = Mode_steer | Mode_queue

record agent_call =
  ac_trigger :: dispatch_row
  ac_token :: ident
  ac_mode :: agent_mode
  ac_contributors :: "ident list"
  ac_origin :: utterance_origin

datatype prepared = No_dispatch | Call_agent agent_call | Failed_early ident

definition agent_mode_for :: "dispatch_row \<Rightarrow> forum_db \<Rightarrow> agent_mode" where
  "agent_mode_for trigger db =
    (let same = (case getActiveTurnOrigin (pd_topic trigger) db of None \<Rightarrow> False
           | Some a \<Rightarrow> ao_generation a = pd_generation trigger \<and> ao_origin_key a = pd_origin_key trigger);
         running = (case getRobotState (pd_topic trigger) db of None \<Rightarrow> False
           | Some r \<Rightarrow> rs_activity r \<notin> {''idle'', ''stopped'', ''error''})
     in if same \<and> (pd_mode trigger = ''steer'' \<or> pd_mode trigger = ''auto'' \<and> running) then Mode_steer else Mode_queue)"

text \<open>
  Up to the call: \<open>Failed_early\<close> is the case that the claim went through but its stored JSON does not
  parse, which the code handles like a failed call.
\<close>

definition prepare_dispatch ::
  "iso_time \<Rightarrow> iso_time \<Rightarrow> uuid_stream \<Rightarrow> dispatch_row \<Rightarrow> forum_db \<Rightarrow> prepared \<times> forum_db" where
  "prepare_dispatch now now2 u row db =
    (if hasCompactionFence (pd_topic row) db \<and> \<not> isCompactionRecoveryPost (pd_post row) db then (No_dispatch, db)
     else if (case getPost (pd_post row) db of None \<Rightarrow> True | Some p \<Rightarrow> po_deleted_at p \<noteq> None)
     then (No_dispatch, snd (markPostDispatchAbandoned now (u 0) (pd_id row) (lit ''Post was deleted before dispatch.'') db))
     else if (case getTopic (pd_topic row) db of None \<Rightarrow> True | Some t \<Rightarrow> to_status t \<noteq> Topic_open)
     then (No_dispatch, snd (markPostDispatchAbandoned now (u 0) (pd_id row) (lit ''Topic is no longer dispatchable.'') db))
     else if map_option rs_activity (getRobotState (pd_topic row) db) \<in> {Some ''stopping'', Some ''uncertain''}
     then (No_dispatch, db)
     else case dispatch_group row db of
         None \<Rightarrow> (No_dispatch, db)
       | Some members \<Rightarrow>
          let trigger = (if members = [] then row else last members) in
          (case claimPostDispatchGroup now now2 u members db of
             Inl e \<Rightarrow> (No_dispatch, db)
           | Inr (None, db') \<Rightarrow> (No_dispatch, db')
           | Inr (Some claimed, db') \<Rightarrow>
              (case pd_claim_token claimed of
                 None \<Rightarrow> (No_dispatch, db')
               | Some token \<Rightarrow>
                  if \<not> isPostDispatchClaimCurrent (pd_id trigger) token db' then (No_dispatch, db')
                  else (case (pd_contributors claimed, pd_origin claimed) of
                      (Some cs, Some orig) \<Rightarrow> (Call_agent \<lparr>ac_trigger = trigger, ac_token = token,
                         ac_mode = agent_mode_for trigger db', ac_contributors = cs, ac_origin = orig\<rparr>, db')
                    | _ \<Rightarrow> (Failed_early token, db')))))"

datatype agent_outcome = Agent_ok | Agent_not_accepted bool | Agent_transport | Agent_other
  \<comment> \<open>the flag is \<^verbatim>\<open>safeRetry\<close>\<close>

definition failure_retry_at :: "agent_outcome \<Rightarrow> iso_time \<Rightarrow> nat \<Rightarrow> iso_time option" where
  "failure_retry_at err now attempts = (case err of
     Agent_not_accepted True \<Rightarrow> Some (transportRetryAtForAttempt attempts now)
   | Agent_transport \<Rightarrow> Some (transportRetryAtForAttempt attempts now)
   | Agent_not_accepted False \<Rightarrow> None
   | _ \<Rightarrow> retryAtForAttempt now attempts)"

definition failure_class :: "agent_outcome \<Rightarrow> attempt_class" where
  "failure_class err = (case err of Agent_not_accepted _ \<Rightarrow> Cl_lifecycle | Agent_transport \<Rightarrow> Cl_transport | _ \<Rightarrow> Cl_application)"

definition fail_dispatch ::
  "iso_time \<Rightarrow> ident \<Rightarrow> dispatch_row \<Rightarrow> ident \<Rightarrow> agent_outcome \<Rightarrow> js_string \<Rightarrow> forum_db \<Rightarrow> forum_db" where
  "fail_dispatch now aid row token err message db =
    (let claimed = (case List.find (\<lambda>d. pd_claim_token d = Some token) (listPendingPostDispatchesForTopic (pd_topic row) db) of
           Some d \<Rightarrow> d | None \<Rightarrow> row);
         latest = (case getPostDispatch (pd_id claimed) db of Some d \<Rightarrow> d | None \<Rightarrow> claimed)
     in snd (markPostDispatchFailed now aid (pd_id latest) token message
          (failure_retry_at err now (pd_attempt_count latest)) (Some (failure_class err)) db))"

definition complete_dispatch ::
  "iso_time \<Rightarrow> ident \<Rightarrow> dispatch_row \<Rightarrow> agent_call \<Rightarrow> agent_outcome \<Rightarrow> js_string \<Rightarrow> forum_db \<Rightarrow> forum_db" where
  "complete_dispatch now aid row c outcome message db = (case outcome of
     Agent_ok \<Rightarrow> snd (clearRobotTurnError now (pd_topic (ac_trigger c))
       (snd (markPostDispatchDispatched now aid (pd_id (ac_trigger c)) (ac_token c) db)))
   | _ \<Rightarrow> fail_dispatch now aid row (ac_token c) outcome message db)"

end
