(* ===== verification/Dispatch_Demo.thy ===== *)
theory Dispatch_Demo
  imports Dispatch_Spec
begin

text \<open>
  A small database the concrete instances of the queue properties run on: one open topic with four
  posts, the first already dispatched, the second being dispatched, the others waiting.
\<close>

definition queue_demo_origin :: "ident \<Rightarrow> utterance_origin" where
  "queue_demo_origin post = \<lparr>uo_utteranceId = post, uo_originKind = Origin_forum, uo_channelKind = ''web'',
     uo_topicId = ''t'', uo_postId = post, uo_surfaceId = None, uo_externalEventId = None,
     uo_scope = None, uo_scopeKind = None\<rparr>"

definition demo_dispatch :: "ident \<Rightarrow> ident \<Rightarrow> iso_time \<Rightarrow> dispatch_row" where
  "demo_dispatch i post at = new_dispatch i at 0 (queue_demo_origin post)
     \<lparr>cd_topic = ''t'', cd_post = post, cd_session = ''s'', cd_mode = None, cd_model = None,
      cd_reasoning_effort = None, cd_auto_compact = None\<rparr>"

definition demo_claim_row :: "ident \<Rightarrow> ident \<Rightarrow> ident \<Rightarrow> iso_time \<Rightarrow> attempt_row" where
  "demo_claim_row aid i token at = \<lparr>at_id = aid, at_dispatch = i, at_number = 1, at_event = Ev_claimed, at_class = None,
     at_retry_at = None, at_error = None, at_claim_token = Some token, at_created_at = at\<rparr>"

definition queue_demo :: forum_db where
  "queue_demo = \<lparr>
     fb_topics = [\<lparr>to_id = ''t'', to_forum = ''f'', to_title = [], to_status = Topic_open, to_tags = [],
       to_robot_mode = RM_auto, to_auto_compact = False, to_auto_compact_revision = 0,
       to_created_by = ''alice'', to_created_at = 0, to_updated_at = 0\<rparr>],
     fb_posts = map (\<lambda>(i, at). new_post i ''t'' None ''alice'' [] None False at)
       [(''p0'', 10), (''p1'', 20), (''p2'', 30), (''p3'', 40)],
     fb_external_refs = [], fb_drafts = [],
     fb_dispatches = [
       (demo_dispatch ''d0'' ''p0'' 10)\<lparr>pd_status := PD_dispatched, pd_attempt_count := 1, pd_last_attempt_at := Some 11,
          pd_next_attempt_at := None, pd_dispatched_at := Some 12\<rparr>,
       (demo_dispatch ''d1'' ''p1'' 20)\<lparr>pd_status := PD_dispatching, pd_claim_token := Some ''c1'', pd_attempt_count := 1,
          pd_last_attempt_at := Some 21, pd_next_attempt_at := None\<rparr>,
       demo_dispatch ''d2'' ''p2'' 30, demo_dispatch ''d3'' ''p3'' 40],
     fb_generations = [\<lparr>ge_topic = ''t'', ge_generation = 0, ge_updated_at = 10\<rparr>],
     fb_attempts = [demo_claim_row ''a0'' ''d0'' ''c0'' 11, demo_claim_row ''a1'' ''d1'' ''c1'' 21],
     fb_active_origins = [],
     fb_robot_states = [\<lparr>rs_topic = ''t'', rs_session = ''s'', rs_activity = ''idle'', rs_current_plan = None,
       rs_last_updated_at = 0, rs_error_message = None, rs_error_at = None, rs_error_post = None, rs_error_turn = None\<rparr>],
     fb_compactions = [], fb_events = [], fb_auto_runs = [], fb_forks = [], fb_clones = [],
     fb_session_ids = [''s''], fb_identity_ids = [''alice''], fb_forum_ids = [''f''],
     fb_admission = admission_init\<rparr>"

lemmas demo_simps = queue_demo_def demo_dispatch_def demo_claim_row_def new_dispatch_def

lemma demo_generation: "topic_generation queue_demo t = (if t = ''t'' then Some 0 else None)"
  by (simp add: topic_generation_def queue_demo_def sql_get_def)

lemma queue_demo_inv: "queue_inv queue_demo"
proof -
  have "counts_up (claimed_numbers i queue_demo)" for i
  proof -
    have "claimed_numbers i queue_demo = (if i = ''d0'' \<or> i = ''d1'' then [1] else [])"
      by (auto simp: claimed_numbers_def queue_demo_def demo_claim_row_def sql_select_def)
    then show ?thesis by (auto simp: counts_up_def)
  qed
  moreover have "unique_key pd_id (fb_dispatches queue_demo)" "unique_key pd_post (fb_dispatches queue_demo)"
    by (simp_all add: demo_simps)
  moreover have "\<forall>d \<in> set (fb_dispatches queue_demo). \<exists>g. topic_generation queue_demo (pd_topic d) = Some g \<and> pd_generation d \<le> g"
    unfolding demo_generation by (simp add: demo_simps)
  moreover have "at_dispatch ` set (fb_attempts queue_demo) \<subseteq> pd_id ` set (fb_dispatches queue_demo)"
    by (simp add: demo_simps)
  ultimately show ?thesis by (simp add: queue_inv_def)
qed

end
