(* ===== verification/Dispatch_Flow.thy ===== *)
theory Dispatch_Flow
  imports Dispatch_Laws Dispatch_Service Dispatch_Demo
begin

text \<open>
  How a dispatch travels: a claim and its single completion, the order in which due dispatches are
  taken, the groups the service forms and what claiming a group does, and the retry schedule.
\<close>

section \<open>A claim and its completion\<close>

definition claimed_row :: "iso_time \<Rightarrow> ident \<Rightarrow> dispatch_row \<Rightarrow> dispatch_row" where
  "claimed_row now token d = d\<lparr>pd_status := PD_dispatching, pd_claim_token := Some token,
     pd_attempt_count := pd_attempt_count d + 1, pd_last_attempt_at := Some now,
     pd_next_attempt_at := None, pd_error := None, pd_updated_at := now\<rparr>"

lemma claimPostDispatch_Some:
  assumes inv: "queue_inv db" and c: "claimPostDispatch now token aid i st seen db = (Some row, db')"
  obtains d where "getPostDispatch i db = Some d" and "open_status (pd_status d)" and "pd_status d = st"
    and "generation_current db d" and "row = claimed_row now token d"
    and "getPostDispatch i db' = Some row" and "fb_generations db' = fb_generations db"
    and "\<And>j. j \<noteq> i \<Longrightarrow> getPostDispatch j db' = getPostDispatch j db"
    and "fb_attempts db' = fb_attempts db @ [(attempt aid i (Suc (length (claimed_numbers i db))) Ev_claimed now)\<lparr>at_claim_token := Some token\<rparr>]"
proof -
  let ?hit = "\<lambda>d. pd_id d = i \<and> pd_status d = st \<and> pd_last_attempt_at d = seen \<and> generation_current db d"
  define db1 where "db1 = db\<lparr>fb_dispatches := sql_update ?hit (claimed_row now token) (fb_dispatches db)\<rparr>"
  have op: "open_status st" using c by (auto simp: claimPostDispatch_def split: if_splits)
  have get1: "getPostDispatch j db1 = map_option (\<lambda>d. if ?hit d then claimed_row now token d else d) (getPostDispatch j db)" for j
    unfolding db1_def by (rule getPostDispatch_update) (simp add: claimed_row_def)
  have eq: "claimPostDispatch now token aid i st seen db = (if sql_count ?hit (fb_dispatches db) \<noteq> 1 then (None, db1)
      else case getPostDispatch i db1 of None \<Rightarrow> (None, db1)
        | Some x \<Rightarrow> if pd_claim_token x \<noteq> Some token then (None, db1)
            else (Some x, insertPostDispatchAttempt ((attempt aid i (nextPostDispatchAuditAttemptNumber i db1) Ev_claimed now)
                   \<lparr>at_claim_token := Some token\<rparr>) db1))"
    unfolding claimPostDispatch_def update_dispatches_eq db1_def claimed_row_def [abs_def] by (simp only: op simp_thms if_False prod.case)
  then have cnt: "sql_count ?hit (fb_dispatches db) = 1" and g1: "getPostDispatch i db1 = Some row"
    and db': "db' = insertPostDispatchAttempt ((attempt aid i (nextPostDispatchAuditAttemptNumber i db1) Ev_claimed now)
                   \<lparr>at_claim_token := Some token\<rparr>) db1"
    using c by (auto split: if_splits option.splits)
  obtain d where d: "getPostDispatch i db = Some d" "?hit d"
    using cnt sql_count_key_1_iff [OF queue_inv_id [OF inv], of i "\<lambda>d. pd_status d = st \<and> pd_last_attempt_at d = seen \<and> generation_current db d"]
    by (auto simp: getPostDispatch_def dest: sql_get_SomeD)
  have row: "row = claimed_row now token d" using g1 d unfolding get1 by simp
  have num: "nextPostDispatchAuditAttemptNumber i db1 = Suc (length (claimed_numbers i db))"
    using next_number_length [OF inv, of i] by (simp add: nextPostDispatchAuditAttemptNumber_def db1_def)
  have same: "getPostDispatch j db' = getPostDispatch j db1" for j unfolding db' by (simp add: getPostDispatch_def)
  show thesis
  proof (rule that [OF d(1) _ _ _ row])
    show "getPostDispatch i db' = Some row" using g1 same by simp
    show "fb_generations db' = fb_generations db" unfolding db' by (simp add: db1_def)
    show "getPostDispatch j db' = getPostDispatch j db" if "j \<noteq> i" for j
      unfolding same get1 using that by (cases "getPostDispatch j db") (auto dest: getPostDispatchD)
    show "fb_attempts db' = fb_attempts db @ [(attempt aid i (Suc (length (claimed_numbers i db))) Ev_claimed now)\<lparr>at_claim_token := Some token\<rparr>]"
      unfolding db' num by (simp add: db1_def insertPostDispatchAttempt_def sql_insert_def attempt_def sanitizeAttemptError_def)
  qed (use d(2) op in auto)
qed

lemma isPostDispatchClaimCurrent_get:
  assumes "queue_inv db"
  shows "isPostDispatchClaimCurrent i token db \<longleftrightarrow> (\<exists>d. getPostDispatch i db = Some d \<and> pd_status d = PD_dispatching
    \<and> pd_claim_token d = Some token \<and> generation_current db d)"
proof
  assume "isPostDispatchClaimCurrent i token db"
  then obtain d where d: "d \<in> set (fb_dispatches db)" "pd_id d = i" "pd_status d = PD_dispatching"
      "pd_claim_token d = Some token" "generation_current db d"
    unfolding isPostDispatchClaimCurrent_def sql_exists_iff by blast
  then have "getPostDispatch i db = Some d"
    using sql_get_unique [OF queue_inv_id [OF assms] d(1)] by (simp add: getPostDispatch_def)
  with d show "\<exists>d. getPostDispatch i db = Some d \<and> pd_status d = PD_dispatching
    \<and> pd_claim_token d = Some token \<and> generation_current db d" by blast
next
  assume "\<exists>d. getPostDispatch i db = Some d \<and> pd_status d = PD_dispatching
    \<and> pd_claim_token d = Some token \<and> generation_current db d"
  then show "isPostDispatchClaimCurrent i token db"
    unfolding isPostDispatchClaimCurrent_def sql_exists_iff using getPostDispatchD by blast
qed

lemma finish_claim_current:
  assumes inv: "queue_inv db" and cur: "isPostDispatchClaimCurrent i token db"
    and f: "\<And>d. pd_id (f d) = pd_id d" "\<And>d. pd_status (f d) \<noteq> PD_dispatching"
    and fin: "finish_claim i token f audit db = (r, db')"
  shows "\<exists>d. getPostDispatch i db = Some d \<and> getPostDispatch i db' = Some (f d) \<and> r = Some (f d)
    \<and> fb_attempts db' = fb_attempts db @ [(audit (f d) (db\<lparr>fb_dispatches := fb_dispatches db'\<rparr>))
        \<lparr>at_error := sanitizeAttemptError (at_error (audit (f d) (db\<lparr>fb_dispatches := fb_dispatches db'\<rparr>)))\<rparr>]
    \<and> fb_generations db' = fb_generations db
    \<and> \<not> isPostDispatchClaimCurrent i token db'"
proof -
  let ?hit = "\<lambda>d. pd_id d = i \<and> pd_status d = PD_dispatching \<and> pd_claim_token d = Some token \<and> generation_current db d"
  define db1 where "db1 = db\<lparr>fb_dispatches := sql_update ?hit f (fb_dispatches db)\<rparr>"
  obtain d where d: "getPostDispatch i db = Some d" "?hit d"
    using cur isPostDispatchClaimCurrent_get [OF inv] getPostDispatchD by blast
  have cnt: "sql_count ?hit (fb_dispatches db) = 1"
    using d sql_count_key_1_iff [OF queue_inv_id [OF inv]] by (simp add: getPostDispatch_def)
  have get1: "getPostDispatch i db1 = Some (f d)"
    unfolding db1_def using d f(1) by (subst getPostDispatch_update) auto
  have db': "r = Some (f d)" "db' = insertPostDispatchAttempt (audit (f d) db1) db1"
    using fin cnt get1 unfolding finish_claim_def update_dispatches_eq db1_def [symmetric] by auto
  have "\<not> isPostDispatchClaimCurrent i token db'"
  proof
    assume "isPostDispatchClaimCurrent i token db'"
    then obtain x where x: "x \<in> set (fb_dispatches db1)" "pd_id x = i" "pd_status x = PD_dispatching"
        "pd_claim_token x = Some token" "generation_current db' x"
      unfolding isPostDispatchClaimCurrent_def sql_exists_iff db'(2) by auto
    then obtain y where y: "y \<in> set (fb_dispatches db)" "x = (if ?hit y then f y else y)"
      unfolding db1_def by (auto simp: set_sql_update)
    have "generation_current db x" using x(5) by (simp add: db'(2) db1_def generation_current_def topic_generation_def)
    with x y f(2) show False by (auto split: if_splits)
  qed
  moreover have "db\<lparr>fb_dispatches := fb_dispatches db'\<rparr> = db1" by (simp add: db'(2) db1_def)
  ultimately show ?thesis
    using d(1) get1 db' by (simp add: insertPostDispatchAttempt_def sql_insert_def getPostDispatch_def) (simp add: db1_def)
qed

text \<open>
  C10. A successful claim can be completed exactly once: it makes its token the current one; reporting
  the dispatch as done under that token then moves it to dispatched and appends the audit row of
  that same claim; and after that neither success nor failure reported under the token has any
  effect.
\<close>

theorem claim_completes_once:
  assumes inv: "queue_inv db" and claim: "claimPostDispatch now token aid i st seen db = (Some row, db1)"
    and fin: "markPostDispatchDispatched now2 aid2 i token db1 = (r, db2)"
  shows "isPostDispatchClaimCurrent i token db1 \<and> dispatch_status_of db2 i = Some PD_dispatched
    \<and> pd_attempt_count row = Suc (pd_attempt_count (the (getPostDispatch i db)))
    \<and> (\<exists>a. fb_attempts db2 = fb_attempts db1 @ [a] \<and> at_event a = Ev_dispatched \<and> at_claim_token a = Some token
        \<and> at_number a = Suc (length (claimed_numbers i db)))
    \<and> snd (markPostDispatchDispatched now3 aid3 i token db2) = db2
    \<and> snd (markPostDispatchFailed now3 aid3 i token m retryAt cl db2) = db2"
proof -
  let ?f = "\<lambda>d. d\<lparr>pd_status := PD_dispatched, pd_claim_token := None, pd_dispatched_at := Some now2,
         pd_next_attempt_at := None, pd_error := None, pd_updated_at := now2\<rparr>"
  obtain d where d: "getPostDispatch i db = Some d" "generation_current db d" "row = claimed_row now token d"
      "getPostDispatch i db1 = Some row" "fb_generations db1 = fb_generations db"
    and att: "fb_attempts db1 = fb_attempts db @ [(attempt aid i (Suc (length (claimed_numbers i db))) Ev_claimed now)\<lparr>at_claim_token := Some token\<rparr>]"
    using inv claim by (rule claimPostDispatch_Some)
  have inv1: "queue_inv db1" using claimPostDispatch_run [OF claim] inv by (rule queue_run_inv)
  have cur: "isPostDispatchClaimCurrent i token db1"
    unfolding isPostDispatchClaimCurrent_get [OF inv1]
    using d by (simp add: claimed_row_def generation_current_def topic_generation_def)
  let ?audit = "\<lambda>row db'. (attempt aid2 i (claimedPostDispatchAuditAttemptNumber i token (pd_attempt_count row) db') Ev_dispatched now2)
         \<lparr>at_claim_token := Some token\<rparr>"
  have fin': "finish_claim i token ?f ?audit db1 = (r, db2)" using fin by (simp add: markPostDispatchDispatched_def)
  have out: "getPostDispatch i db2 = Some (?f row)" "\<not> isPostDispatchClaimCurrent i token db2"
    "fb_attempts db2 = fb_attempts db1 @ [?audit (?f row) (db1\<lparr>fb_dispatches := fb_dispatches db2\<rparr>)]"
    using finish_claim_current [OF inv1 cur _ _ fin'] d(4) by (auto simp: attempt_def sanitizeAttemptError_def)
  have num: "claimedPostDispatchAuditAttemptNumber i token k (db1\<lparr>fb_dispatches := x\<rparr>) = Suc (length (claimed_numbers i db))" for k x
    using att by (simp add: claimedPostDispatchAuditAttemptNumber_def sql_select_def attempt_def)
  have none: "sql_count (\<lambda>d. pd_id d = i \<and> pd_status d = PD_dispatching \<and> pd_claim_token d = Some token
      \<and> generation_current db2 d) (fb_dispatches db2) = 0"
    using out(2) by (simp add: isPostDispatchClaimCurrent_def sql_count_0_iff)
  have again: "snd (finish_claim i token f audit db2) = db2" for f audit
    using none sql_update_no_changes [OF none, of f] unfolding finish_claim_def update_dispatches_eq
    by (simp split: option.splits)
  have "dispatch_status_of db2 i = Some PD_dispatched" using out(1) by (simp add: dispatch_status_of_def)
  moreover have "pd_attempt_count row = Suc (pd_attempt_count (the (getPostDispatch i db)))"
    using d(1,3) by (simp add: claimed_row_def)
  moreover have "\<exists>a. fb_attempts db2 = fb_attempts db1 @ [a] \<and> at_event a = Ev_dispatched \<and> at_claim_token a = Some token
        \<and> at_number a = Suc (length (claimed_numbers i db))"
    using out(3) num by (simp add: attempt_def)
  ultimately show ?thesis
    using cur again by (simp add: markPostDispatchDispatched_def markPostDispatchFailed_def)
qed

section \<open>Instances of the queue properties\<close>

text \<open>The third post of the sample is claimed; the second, still in flight, is superseded.\<close>

definition demo_claim :: "dispatch_row option \<times> forum_db" where
  "demo_claim = claimPostDispatch 50 ''c2'' ''a2'' ''d2'' PD_pending None queue_demo"

definition demo_superseded :: forum_db where
  "demo_superseded = snd (markPostDispatchSuperseded 50 ''a2'' ''d1'' [] queue_demo)"

lemmas demo_eval = demo_simps claimPostDispatch_def markPostDispatchSuperseded_def close_dispatch_def update_dispatches_def
  sql_simps open_status_def generation_current_def topic_generation_def getPostDispatch_def isPostDispatchClaimCurrent_def

lemma demo_claim_step: "store_step {''c2''} queue_demo (snd demo_claim)"
  unfolding demo_claim_def by (rule store_step.claim) (rule surjective_pairing)

lemma demo_claim_row: "fst demo_claim = Some (claimed_row 50 ''c2'' (demo_dispatch ''d2'' ''p2'' 30))"
  by (simp add: demo_claim_def claimed_row_def demo_eval)

lemma demo_superseded_step: "store_step {} queue_demo demo_superseded"
  unfolding demo_superseded_def by (rule store_step.superseded) (rule surjective_pairing)

lemma demo_superseded_inv: "queue_inv demo_superseded"
  using store_run_inv [OF store_run.more [OF store_run.stop demo_superseded_step] queue_demo_inv] .



theorem stale_claim_fenced_witness:
  "\<not> isPostDispatchClaimCurrent ''d1'' ''c1'' demo_superseded
    \<and> snd (markPostDispatchDispatched 60 ''a3'' ''d1'' ''c1'' demo_superseded) = demo_superseded"
proof -
  have "\<not> isPostDispatchClaimCurrent ''d1'' ''c1'' demo_superseded"
    by (simp add: demo_superseded_def lifecycle_attempt_def attempt_def insertPostDispatchAttempt_def demo_eval)
  with stale_claim_fenced [OF demo_superseded_inv this store_run.stop] show ?thesis by simp
qed


theorem audit_append_only_witness:
  "claimed_numbers ''d2'' (snd demo_claim) = [1..<Suc (length (claimed_numbers ''d2'' (snd demo_claim)))]"
  using audit_append_only [OF store_run.more [OF store_run.stop demo_claim_step] queue_demo_inv] by blast

theorem claim_completes_once_witness:
  "isPostDispatchClaimCurrent ''d2'' ''c2'' (snd demo_claim)
    \<and> dispatch_status_of (snd (markPostDispatchDispatched 60 ''a3'' ''d2'' ''c2'' (snd demo_claim))) ''d2'' = Some PD_dispatched"
proof -
  have "claimPostDispatch 50 ''c2'' ''a2'' ''d2'' PD_pending None queue_demo
      = (Some (claimed_row 50 ''c2'' (demo_dispatch ''d2'' ''p2'' 30)), snd demo_claim)"
    using demo_claim_row surjective_pairing [of demo_claim] by (simp add: demo_claim_def)
  from claim_completes_once [OF queue_demo_inv this surjective_pairing, of 60 "''a3''"] show ?thesis by blast
qed

definition demo_post4 :: forum_db where
  "demo_post4 = queue_demo\<lparr>fb_posts := fb_posts queue_demo @ [new_post ''p4'' ''t'' None ''alice'' [] None False 50],
     fb_admission := admission_init\<lparr>ad_guard := Guard_none\<rparr>\<rparr>"

definition demo_input4 :: create_dispatch_input where
  "demo_input4 = \<lparr>cd_topic = ''t'', cd_post = ''p4'', cd_session = ''s'', cd_mode = None, cd_model = None,
      cd_reasoning_effort = None, cd_auto_compact = None\<rparr>"

theorem one_dispatch_per_post_witness:
  "\<exists>d db'. createPostDispatch 0 50 ''d4'' demo_input4 demo_post4 = (Inr d, db') \<and> pd_post d = ''p4''
    \<and> (\<exists>e. createPostDispatch 0 70 ''d5'' demo_input4 db' = (Inr e, db') \<and> pd_id e = pd_id d)"
proof -
  have inv: "queue_inv demo_post4"
    by (rule queue_run_inv [OF run_other queue_demo_inv]) (simp_all add: demo_post4_def)
  have same: "demo_post4\<lparr>fb_admission := fb_admission demo_post4\<rparr> = demo_post4" by (simp add: demo_post4_def queue_demo_def)
  have "getPostDispatchByPost ''p4'' demo_post4 = None" "topic_generation demo_post4 ''t'' = Some 0" "topic_exists ''t'' demo_post4"
    "getPost ''p4'' demo_post4 \<noteq> None" "''s'' \<in> set (fb_session_ids demo_post4)"
    "\<not> sql_exists (\<lambda>d. pd_id d = ''d4'' \<or> pd_post d = ''p4'') (fb_dispatches demo_post4)"
    by (simp_all add: getPostDispatchByPost_def topic_exists_def getPost_def demo_post4_def demo_eval new_post_def)
  moreover have "assertRobotWorkAdmission 0 (fb_admission demo_post4) = (Inr (), fb_admission demo_post4)"
    by (simp add: demo_post4_def assertRobotWorkAdmission_def store_beginRobotWork_def)
  moreover obtain orig where "resolveUtteranceOrigin ''p4'' demo_post4 = Inr orig"
    by (simp add: resolveUtteranceOrigin_def getPost_def demo_post4_def demo_eval new_post_def Let_def)
  ultimately obtain d db' where c: "createPostDispatch 0 50 ''d4'' demo_input4 demo_post4 = (Inr d, db')"
    by (simp add: createPostDispatch_def ensurePostDispatchGeneration_def demo_input4_def same Let_def)
  from one_dispatch_per_post [OF inv c store_run.stop, of 0 70 "''d5''"] c show ?thesis by (auto simp: demo_input4_def)
qed

end
