(* ===== verification/Dispatch_Order.thy ===== *)
theory Dispatch_Order
  imports Dispatch_Flow
begin

text \<open>
  The order of dispatches: which dispatches are due, how the service groups a topic's waiting posts,
  what claiming a group does, what is true when the agent is called, how many topics one pass
  takes and when a failed dispatch is tried again.
\<close>

section \<open>The order of the queue\<close>

lemma before_in_queue_total:
  assumes key: "unique_key pd_id t" and d: "d \<in> set t" and e: "e \<in> set t" and ne: "e \<noteq> d"
  shows "before_in_queue t e d \<longleftrightarrow> \<not> before_in_queue t d e"
proof -
  have "e \<in> set (takeWhile (\<lambda>r. pd_id r \<noteq> pd_id d) t) \<longleftrightarrow> d \<notin> set (takeWhile (\<lambda>r. pd_id r \<noteq> pd_id e) t)"
    using key d e
  proof (induction t)
    case (Cons x t)
    have "pd_id d \<noteq> pd_id e" using unique_keyD [OF Cons.prems(1)] Cons.prems(2,3) ne by blast
    moreover have "pd_id r \<noteq> pd_id x" if "r \<in> set t" for r using Cons.prems(1) that by (metis imageI unique_key_Cons)
    ultimately show ?case using Cons ne by (auto dest: set_takeWhileD)
  qed simp
  then show ?thesis by (auto simp: before_in_queue_def)
qed

lemma generation_current_same_topic:
  "generation_current db d \<Longrightarrow> generation_current db e \<Longrightarrow> pd_topic e = pd_topic d \<Longrightarrow> pd_generation e = pd_generation d"
  by (simp add: generation_current_def)

lemma generation_current_transfer:
  "generation_current db d \<Longrightarrow> pd_topic e = pd_topic d \<Longrightarrow> pd_generation e = pd_generation d \<Longrightarrow> generation_current db e"
  by (simp add: generation_current_def)

definition first_in_topic :: "forum_db \<Rightarrow> dispatch_row \<Rightarrow> bool" where
  \<comment> \<open>no open dispatch of the topic's current generation comes before it\<close>
  "first_in_topic db d \<longleftrightarrow> (\<forall>e \<in> set (fb_dispatches db). pd_topic e = pd_topic d \<and> generation_current db e
     \<and> open_status (pd_status e) \<longrightarrow> e = d \<or> before_in_queue (fb_dispatches db) d e)"

lemma due_row_first:
  assumes inv: "queue_inv db" and d: "d \<in> set (fb_dispatches db)" and plain: "\<not> isCompactionRecoveryPost (pd_post d) db"
  shows "due_row now db d \<longleftrightarrow> generation_current db d \<and> open_status (pd_status d)
    \<and> (case pd_next_attempt_at d of None \<Rightarrow> True | Some t \<Rightarrow> t \<le> now)
    \<and> \<not> activeCompaction (pd_topic d) db \<and> \<not> recoveryOutstanding (pd_topic d) db \<and> first_in_topic db d"
proof -
  have irrefl: "\<not> before_in_queue (fb_dispatches db) d d"
    by (auto simp: before_in_queue_def dest: set_takeWhileD)
  have "(\<not> sql_exists (\<lambda>e. pd_topic e = pd_topic d \<and> pd_generation e = pd_generation d \<and> open_status (pd_status e)
             \<and> before_in_queue (fb_dispatches db) e d) (fb_dispatches db)) \<longleftrightarrow> first_in_topic db d"
    if cur: "generation_current db d"
    unfolding first_in_topic_def sql_exists_iff
    using before_in_queue_total [OF queue_inv_id [OF inv] d] irrefl generation_current_transfer [OF cur]
      generation_current_same_topic [OF cur] by blast
  then show ?thesis using plain unfolding due_row_def by blast
qed

text \<open>
  C6. Posts of a topic are dispatched in order: among the due dispatches there is at most one per
  topic besides compaction recovery posts; it is open, of the topic's current generation, its retry
  time has come, no other open dispatch of the topic comes before it, and the topic is neither
  being compacted nor waiting for its recovery post. Conversely every dispatch of which this holds
  is due, and the list gives due dispatches oldest first.
\<close>

theorem due_dispatches_in_order:
  assumes inv: "queue_inv db" and d: "d \<in> set (fb_dispatches db)" and plain: "\<not> isCompactionRecoveryPost (pd_post d) db"
  shows "(due_row now db d \<longleftrightarrow> generation_current db d \<and> open_status (pd_status d)
      \<and> (case pd_next_attempt_at d of None \<Rightarrow> True | Some t \<Rightarrow> t \<le> now)
      \<and> \<not> activeCompaction (pd_topic d) db \<and> \<not> recoveryOutstanding (pd_topic d) db \<and> first_in_topic db d)
    \<and> (\<forall>e \<in> set (listDuePostDispatches now limit db). d \<in> set (listDuePostDispatches now limit db) \<and> pd_topic e = pd_topic d
        \<and> \<not> isCompactionRecoveryPost (pd_post e) db \<longrightarrow> e = d)
    \<and> sorted (map pd_created_at (listDuePostDispatches now limit db))
    \<and> (\<forall>e \<in> set (listDuePostDispatches now limit db). due_row now db e)"
proof -
  have dues: "e \<in> set (fb_dispatches db) \<and> due_row now db e" if "e \<in> set (listDuePostDispatches now limit db)" for e
    using that by (auto simp: listDuePostDispatches_def dest: in_set_takeD)
  have "e = d" if "e \<in> set (listDuePostDispatches now limit db)" "d \<in> set (listDuePostDispatches now limit db)"
      "pd_topic e = pd_topic d" "\<not> isCompactionRecoveryPost (pd_post e) db" for e
  proof (rule ccontr)
    assume "e \<noteq> d"
    from dues that have e: "e \<in> set (fb_dispatches db)" "due_row now db e" and due: "due_row now db d" by blast+
    then have "before_in_queue (fb_dispatches db) e d" "before_in_queue (fb_dispatches db) d e"
      using due_row_first [OF inv e(1) that(4)] due_row_first [OF inv d plain] that(3) d \<open>e \<noteq> d\<close>
      unfolding first_in_topic_def by metis+
    with before_in_queue_total [OF queue_inv_id [OF inv] d e(1) \<open>e \<noteq> d\<close>] show False by blast
  qed
  moreover have "sorted (map pd_created_at (listDuePostDispatches now limit db))"
    by (simp add: listDuePostDispatches_def sql_order_by_def sorted_wrt_take flip: take_map)
  ultimately show ?thesis using due_row_first [OF inv d plain, of now] dues by blast
qed

section \<open>Groups\<close>

lemma find_index_SomeD:
  assumes "find_index p xs = Some n"
  shows "n < length xs \<and> p (xs ! n) \<and> (\<forall>x \<in> set (take n xs). \<not> p x)"
proof -
  have n: "n = length (takeWhile (\<lambda>x. \<not> p x) xs)" "n < length xs"
    using assms by (auto simp: find_index_def Let_def split: if_splits)
  have "take n xs = takeWhile (\<lambda>x. \<not> p x) xs" unfolding n(1) by (rule takeWhile_eq_take [symmetric])
  then have "\<forall>x \<in> set (take n xs). \<not> p x" using set_takeWhileD [of _ "\<lambda>x. \<not> p x" xs] by simp
  moreover have "p (xs ! n)" using nth_length_takeWhile [of "\<lambda>x. \<not> p x" xs] n(2) unfolding n(1) by blast
  ultimately show ?thesis using n(2) by blast
qed

lemma find_index_NoneD:
  assumes "find_index p xs = None" and "x \<in> set xs"
  shows "\<not> p x"
proof -
  have "length xs \<le> length (takeWhile (\<lambda>x. \<not> p x) xs)"
    using assms(1) by (auto simp: find_index_def Let_def split: if_splits)
  then have "takeWhile (\<lambda>x. \<not> p x) xs = xs" using takeWhile_eq_take [of "\<lambda>x. \<not> p x" xs] by simp
  with assms(2) show ?thesis using set_takeWhileD [of x "\<lambda>x. \<not> p x" xs] by simp
qed

lemma group_boundary_props:
  assumes "cs \<noteq> []" and "pd_origin_key (hd cs) = pd_origin_key row"
  shows "0 < group_boundary row cs"
    and "x \<in> set (take (group_boundary row cs) cs) \<Longrightarrow> pd_origin_key x = pd_origin_key row"
    and "x \<in> set (take (group_boundary row cs) cs) \<Longrightarrow> pd_auto_compact x \<noteq> None \<Longrightarrow> group_boundary row cs = 1"
proof -
  let ?o = "find_index (\<lambda>p. pd_origin_key p \<noteq> pd_origin_key row) cs"
  let ?p = "find_index (\<lambda>p. pd_auto_compact p \<noteq> None) cs"
  have pos: "n > 0" if "?o = Some n" for n
    using find_index_SomeD [OF that] assms by (cases n) (auto simp: hd_conv_nth)
  show g: "0 < group_boundary row cs"
    using pos assms(1) by (auto simp: group_boundary_def Let_def split: option.splits nat.splits)
  show "pd_origin_key x = pd_origin_key row" if x: "x \<in> set (take (group_boundary row cs) cs)"
  proof (cases ?o)
    case None
    then show ?thesis using find_index_NoneD [OF None, of x] x by (auto dest: in_set_takeD)
  next
    case (Some n)
    then have "group_boundary row cs \<le> n" by (simp add: group_boundary_def Let_def)
    then have "x \<in> set (take n cs)" using x set_take_subset_set_take [of _ n cs] by blast
    then show ?thesis using find_index_SomeD [OF Some] by blast
  qed
  show "group_boundary row cs = 1" if x: "x \<in> set (take (group_boundary row cs) cs)" "pd_auto_compact x \<noteq> None"
  proof (cases ?p)
    case None
    then show ?thesis using find_index_NoneD [OF None, of x] x by (auto dest: in_set_takeD)
  next
    case (Some n)
    show ?thesis
    proof (cases n)
      case 0
      then have "group_boundary row cs \<le> 1" using Some by (simp add: group_boundary_def Let_def split: option.splits)
      then show ?thesis using g by simp
    next
      case (Suc m)
      then have "group_boundary row cs \<le> n" using Some by (simp add: group_boundary_def Let_def split: option.splits)
      then have "x \<in> set (take n cs)" using x(1) set_take_subset_set_take [of _ n cs] by blast
      then show ?thesis using find_index_SomeD [OF Some] x(2) by blast
    qed
  qed
qed

lemma pending_rows:
  "x \<in> set (listPendingPostDispatchesForTopic topic db) \<longleftrightarrow>
    x \<in> set (fb_dispatches db) \<and> generation_current db x \<and> pd_topic x = topic \<and> open_status (pd_status x)"
  by (auto simp: listPendingPostDispatchesForTopic_def)

lemma dispatch_group_parts:
  assumes inv: "queue_inv db" and row: "row \<in> set (listPendingPostDispatchesForTopic (pd_topic row) db)"
  obtains g pre post where "dispatch_group row db = Some g" and "listPendingPostDispatchesForTopic (pd_topic row) db = pre @ g @ post"
    and "g \<noteq> []" and "hd g = row" and "\<And>x. x \<in> set g \<Longrightarrow> pd_origin_key x = pd_origin_key row"
    and "\<And>x. x \<in> set g \<Longrightarrow> pd_auto_compact x \<noteq> None \<Longrightarrow> g = [row]"
    and "isCompactionRecoveryPost (pd_post row) db \<or> pd_mode row = ''fork-opening'' \<Longrightarrow> g = [row]"
proof -
  let ?ps = "listPendingPostDispatchesForTopic (pd_topic row) db"
  obtain n where n: "find_index (\<lambda>p. pd_id p = pd_id row) ?ps = Some n"
    using find_index_NoneD [of "\<lambda>p. pd_id p = pd_id row" ?ps row] row by (cases "find_index (\<lambda>p. pd_id p = pd_id row) ?ps") auto
  note nD = find_index_SomeD [OF n]
  have "?ps ! n \<in> set ?ps" using nD nth_mem by blast
  then have at: "?ps ! n = row"
    using nD row unique_keyD [OF queue_inv_id [OF inv]] unfolding pending_rows by blast
  define cs where "cs = drop n ?ps"
  have cs: "cs \<noteq> []" "hd cs = row" using nD at by (simp_all add: cs_def hd_drop_conv_nth)
  have split: "?ps = take n ?ps @ cs" by (simp add: cs_def)
  note gb = group_boundary_props [OF cs(1), of row]
  let ?special = "isCompactionRecoveryPost (pd_post row) db \<or> pd_mode row = ''fork-opening''"
  define g where "g = (if ?special then [row] else take (group_boundary row cs) cs)"
  have g: "dispatch_group row db = Some g" using n by (simp add: dispatch_group_def g_def cs_def Let_def)
  define k where "k = (if ?special then 1 else group_boundary row cs)"
  have gk: "g = take k cs" using cs by (cases cs) (auto simp: g_def k_def)
  have k: "0 < k" using gb(1) cs(2) by (simp add: k_def)
  have one: "g = [row]" if "k = 1" using that gk cs by (cases cs) auto
  show thesis
  proof (rule that [OF g])
    show "?ps = take n ?ps @ g @ drop k cs" using split gk by simp
    show "g \<noteq> []" "hd g = row" using gk k cs by auto
    show "pd_origin_key x = pd_origin_key row" if "x \<in> set g" for x
      using that gb(2) cs(2) by (auto simp: g_def split: if_splits)
    show "g = [row]" if "x \<in> set g" "pd_auto_compact x \<noteq> None" for x
      using that gb(3) cs(2) one by (auto simp: g_def k_def split: if_splits)
    show "g = [row]" if ?special using that by (simp add: g_def)
  qed
qed

section \<open>Claiming a group\<close>

definition grouped_away :: "iso_time \<Rightarrow> dispatch_row \<Rightarrow> dispatch_row" where
  "grouped_away now d = d\<lparr>pd_status := PD_superseded, pd_next_attempt_at := None, pd_error := Some group_reason, pd_updated_at := now\<rparr>"

lemma supersede_group_get:
  "supersede_group n u now rows db = (m, db') \<Longrightarrow>
   getPostDispatch j db' = map_option (\<lambda>d. if j \<in> pd_id ` set rows \<and> open_status (pd_status d) then grouped_away now d else d) (getPostDispatch j db)
   \<and> fb_generations db' = fb_generations db"
proof (induction rows arbitrary: n db)
  case Nil
  then show ?case by (simp add: option.map_ident)
next
  case (Cons row rows)
  let ?hit = "\<lambda>d. pd_id d = pd_id row \<and> open_status (pd_status d)"
  define db1 where "db1 = db\<lparr>fb_dispatches := sql_update ?hit (grouped_away now) (fb_dispatches db)\<rparr>"
  have upd: "update_dispatches ?hit (\<lambda>d. d\<lparr>pd_status := PD_superseded, pd_next_attempt_at := None,
      pd_error := Some group_reason, pd_updated_at := now\<rparr>) db = (sql_count ?hit (fb_dispatches db), db1)"
    by (simp add: update_dispatches_def db1_def grouped_away_def [abs_def])
  have get1: "getPostDispatch j db1 = map_option (\<lambda>d. if ?hit d then grouped_away now d else d) (getPostDispatch j db)"
    unfolding db1_def by (rule getPostDispatch_update) (simp add: grouped_away_def)
  obtain k db2 where 2: "supersede_group k u now rows db2 = (m, db')"
      "getPostDispatch j db2 = getPostDispatch j db1" "fb_generations db2 = fb_generations db"
    using Cons.prems unfolding supersede_group.simps upd prod.case
    by (auto simp: db1_def getPostDispatch_def split: if_splits)
  show ?case
    using Cons.IH [OF 2(1)] 2(2,3) get1 getPostDispatchD [of j db]
    by (cases "getPostDispatch j db") (auto simp: grouped_away_def open_status_def)
qed

lemma group_contributors_cover: "rows \<noteq> [] \<Longrightarrow> pd_post ` set rows \<subseteq> set (group_contributors rows)"
  by (auto simp: group_contributors_def Let_def)

lemma contributors_update_get:
  "getPostDispatch j (db\<lparr>fb_dispatches := sql_update hit (\<lambda>d. d\<lparr>pd_contributors := c, pd_updated_at := now\<rparr>) (fb_dispatches db)\<rparr>)
   = map_option (\<lambda>d. if hit d then d\<lparr>pd_contributors := c, pd_updated_at := now\<rparr> else d) (getPostDispatch j db)"
  by (rule getPostDispatch_update) simp

lemma group_all_open:
  assumes claim: "claimPostDispatchGroup now now2 u rows db = Inr (Some claimed, db')" and ne: "rows \<noteq> []" and inv: "queue_inv db"
    and sub: "set rows \<subseteq> set (fb_dispatches db)" and dist: "distinct (map pd_id rows)" and pend: "pd_status (last rows) = PD_pending"
    and r: "r \<in> set rows"
  shows "open_status (pd_status r)"
proof -
  let ?hit = "\<lambda>d. pd_id d \<in> set (map pd_id rows) \<and> open_status (pd_status d)"
  let ?open = "sql_select ?hit (fb_dispatches db)"
  have len: "length ?open = length rows"
    using claim ne pend unfolding claimPostDispatchGroup_def Let_def by (auto split: if_splits)
  have key: "unique_key pd_id (fb_dispatches db)" using inv by (rule queue_inv_id)
  then have "distinct (map pd_id ?open)" by (simp add: unique_key_def sql_select_def distinct_map_filter)
  then have "card (pd_id ` set ?open) = length rows" using distinct_card [of "map pd_id ?open"] len unfolding list.set_map length_map by (simp del: set_sql_select)
  moreover have "card (pd_id ` set rows) = length rows" using distinct_card [OF dist] by simp
  moreover have "pd_id ` set ?open \<subseteq> pd_id ` set rows" by auto
  ultimately have "pd_id ` set ?open = pd_id ` set rows" by (intro card_subset_eq) auto
  then have "pd_id r \<in> pd_id ` set ?open" using r by (simp only: imageI)
  then obtain x where x: "pd_id r = pd_id x" "x \<in> set ?open" by (rule imageE)
  then have "x = r" using unique_keyD [OF key] sub r by auto
  with x show ?thesis by simp
qed

lemma claimed_group:
  assumes inv: "queue_inv db" and rows: "rows \<noteq> []" "set rows \<subseteq> set (fb_dispatches db)" "distinct (map pd_id rows)"
    and pend: "pd_status (last rows) = PD_pending"
    and claim: "claimPostDispatchGroup now now2 u rows db = Inr (Some claimed, db')"
  shows "getPostDispatch (pd_id (last rows)) db' = Some claimed \<and> pd_status claimed = PD_dispatching
    \<and> (\<exists>cs. pd_contributors claimed = Some cs \<and> pd_post ` set rows \<subseteq> set cs)
    \<and> (\<forall>r \<in> set (butlast rows). dispatch_status_of db' (pd_id r) = Some PD_superseded)
    \<and> (\<forall>j. j \<notin> pd_id ` set rows \<longrightarrow> getPostDispatch j db' = getPostDispatch j db)
    \<and> (\<exists>token. pd_claim_token claimed = Some token \<and> isPostDispatchClaimCurrent (pd_id (last rows)) token db')"
proof -
  let ?t = "last rows"
  let ?hit = "\<lambda>d. pd_id d = pd_id ?t \<and> pd_status d = pd_status ?t"
  define upd :: "dispatch_row \<Rightarrow> dispatch_row" where "upd = (\<lambda>d. d\<lparr>pd_contributors := Some (group_contributors rows), pd_updated_at := now\<rparr>)"
  obtain n db1 where s: "supersede_group 0 u now (butlast rows) db = (n, db1)" by fastforce
  define db2 where "db2 = db1\<lparr>fb_dispatches := sql_update ?hit upd (fb_dispatches db1)\<rparr>"
  have c: "claimPostDispatch now2 (u n) (u (Suc n)) (pd_id ?t) PD_pending (pd_last_attempt_at ?t) db2 = (Some claimed, db')"
    using claim rows(1) pend s unfolding claimPostDispatchGroup_def Let_def
    by (simp add: update_dispatches_eq db2_def upd_def split: if_splits)
  have op: "open_status (pd_status r)" if "r \<in> set rows" for r
    using group_all_open [OF claim rows(1) inv rows(2,3) pend] that by blast
  have "queue_run {} db db1" using supersede_group_run [OF s] by blast
  moreover have "queue_run {} db1 db2" unfolding db2_def by (intro run_move) (auto simp: fixed_columns_def upd_def)
  ultimately have inv2: "queue_inv db2" using inv queue_run_inv by blast
  have inv': "queue_inv db'" using claimPostDispatch_run [OF c] inv2 by (rule queue_run_inv)
  from inv2 c obtain d where d: "getPostDispatch (pd_id ?t) db2 = Some d" "generation_current db2 d" "claimed = claimed_row now2 (u n) d"
      "getPostDispatch (pd_id ?t) db' = Some claimed" "fb_generations db' = fb_generations db2"
      and others: "\<And>j. j \<noteq> pd_id ?t \<Longrightarrow> getPostDispatch j db' = getPostDispatch j db2" and dst: "pd_status d = PD_pending"
    by (rule claimPostDispatch_Some) blast
  have ids: "pd_id ?t \<notin> pd_id ` set (butlast rows)"
    using rows(3) append_butlast_last_id [OF rows(1)] distinct_append [of "map pd_id (butlast rows)" "[pd_id ?t]"]
    by (metis disjoint_insert(1) list.set(2) list.set_map list.simps(8,9) map_append)
  have get2: "getPostDispatch j db2 = map_option (\<lambda>d. if ?hit d then upd d else d) (getPostDispatch j db1)" for j
    unfolding db2_def upd_def by (rule contributors_update_get)
  have get1: "getPostDispatch j db1 = map_option (\<lambda>d. if j \<in> pd_id ` set (butlast rows) \<and> open_status (pd_status d)
      then grouped_away now d else d) (getPostDispatch j db)" for j
    using supersede_group_get [OF s] by blast
  obtain e where e: "getPostDispatch (pd_id ?t) db1 = Some e" "d = (if ?hit e then upd e else e)"
    using d(1) unfolding get2 by auto
  have "?hit e" using e dst pend getPostDispatchD [OF e(1)] by (auto simp: upd_def split: if_splits)
  then have contrib: "pd_contributors claimed = Some (group_contributors rows)"
    using e(2) d(3) by (simp add: claimed_row_def upd_def)
  have gone: "dispatch_status_of db' (pd_id r) = Some PD_superseded" if r: "r \<in> set (butlast rows)" for r
  proof -
    have "r \<in> set (fb_dispatches db)" using rows(2) in_set_butlastD [OF r] by blast
    then have g: "getPostDispatch (pd_id r) db = Some r"
      unfolding getPostDispatch_def by (rule sql_get_unique [OF queue_inv_id [OF inv]])
    have "pd_id r \<noteq> pd_id ?t" using r ids by (metis imageI)
    then show ?thesis
      using others get1 get2 g r op [OF in_set_butlastD [OF r]] by (simp add: dispatch_status_of_def grouped_away_def)
  qed
  have rest: "getPostDispatch j db' = getPostDispatch j db" if "j \<notin> pd_id ` set rows" for j
  proof -
    have "j \<noteq> pd_id ?t" "j \<notin> pd_id ` set (butlast rows)" using that rows(1) in_set_butlastD by fastforce+
    then show ?thesis using others get1 get2
      by (cases "getPostDispatch j db") (auto dest: getPostDispatchD)
  qed
  have "isPostDispatchClaimCurrent (pd_id ?t) (u n) db'"
    unfolding isPostDispatchClaimCurrent_get [OF inv']
    using d by (simp add: claimed_row_def generation_current_def topic_generation_def)
  then show ?thesis
    using d(3,4) contrib group_contributors_cover [OF rows(1)] gone rest by (auto simp: claimed_row_def)
qed


section \<open>At the call to the agent\<close>

lemma prepare_dispatch_call:
  assumes "prepare_dispatch now now2 u row db = (Call_agent c, db')"
  obtains g claimed where "dispatch_group row db = Some g" and "claimPostDispatchGroup now now2 u g db = Inr (Some claimed, db')"
    and "ac_trigger c = (if g = [] then row else last g)" and "pd_claim_token claimed = Some (ac_token c)"
    and "isPostDispatchClaimCurrent (pd_id (ac_trigger c)) (ac_token c) db'"
    and "pd_contributors claimed = Some (ac_contributors c)" and "ac_mode c = agent_mode_for (ac_trigger c) db'"
    and "hasCompactionFence (pd_topic row) db \<longrightarrow> isCompactionRecoveryPost (pd_post row) db"
    and "\<exists>p. getPost (pd_post row) db = Some p \<and> po_deleted_at p = None"
    and "map_option to_status (getTopic (pd_topic row) db) = Some Topic_open"
  using assms unfolding prepare_dispatch_def
  by (auto simp: Let_def split: if_splits option.splits sum.splits prod.splits)

text \<open>
  C2. What holds whenever the agent is called: the topic is open, the post exists, the topic is not
  held back by a compaction, fork or clone (unless the post is the recovery post itself), the claim is
  the current one, the contributors include every post of the group that was taken, the group is
  an unbroken run of the topic's waiting posts from one origin, and the call steers a running turn
  only if that turn has the same generation and origin.
\<close>

theorem agent_called_safely:
  assumes inv: "queue_inv db" and row: "row \<in> set (listPendingPostDispatchesForTopic (pd_topic row) db)"
    and call: "prepare_dispatch now now2 u row db = (Call_agent c, db')"
  shows "map_option to_status (getTopic (pd_topic row) db) = Some Topic_open
    \<and> (\<exists>p. getPost (pd_post row) db = Some p \<and> po_deleted_at p = None)
    \<and> (hasCompactionFence (pd_topic row) db \<longrightarrow> isCompactionRecoveryPost (pd_post row) db)
    \<and> isPostDispatchClaimCurrent (pd_id (ac_trigger c)) (ac_token c) db'
    \<and> (\<exists>pre g post. listPendingPostDispatchesForTopic (pd_topic row) db = pre @ g @ post \<and> hd g = row
        \<and> g \<noteq> [] \<and> last g = ac_trigger c \<and> (\<forall>x \<in> set g. pd_origin_key x = pd_origin_key row)
        \<and> (pd_status (ac_trigger c) = PD_pending \<longrightarrow> pd_post ` set g \<subseteq> set (ac_contributors c)))
    \<and> (ac_mode c = Mode_steer \<longrightarrow> (\<exists>a. getActiveTurnOrigin (pd_topic (ac_trigger c)) db' = Some a
        \<and> ao_generation a = pd_generation (ac_trigger c) \<and> ao_origin_key a = pd_origin_key (ac_trigger c)))"
proof -
  from call obtain g claimed where g: "dispatch_group row db = Some g" "claimPostDispatchGroup now now2 u g db = Inr (Some claimed, db')"
      "ac_trigger c = (if g = [] then row else last g)" "isPostDispatchClaimCurrent (pd_id (ac_trigger c)) (ac_token c) db'"
      "pd_contributors claimed = Some (ac_contributors c)" "ac_mode c = agent_mode_for (ac_trigger c) db'"
    and safe: "hasCompactionFence (pd_topic row) db \<longrightarrow> isCompactionRecoveryPost (pd_post row) db"
      "\<exists>p. getPost (pd_post row) db = Some p \<and> po_deleted_at p = None"
      "map_option to_status (getTopic (pd_topic row) db) = Some Topic_open"
    by (rule prepare_dispatch_call) blast
  from inv row obtain pre post where parts: "listPendingPostDispatchesForTopic (pd_topic row) db = pre @ g @ post"
      "g \<noteq> []" "hd g = row" "\<And>x. x \<in> set g \<Longrightarrow> pd_origin_key x = pd_origin_key row"
    by (rule dispatch_group_parts) (use g(1) in auto)
  have last: "last g = ac_trigger c" using g(3) parts(2) by simp
  have sub: "set g \<subseteq> set (fb_dispatches db)"
    using parts(1) pending_rows [of _ "pd_topic row" db] by auto
  have "distinct (map pd_id (listPendingPostDispatchesForTopic (pd_topic row) db))"
    using queue_inv_id [OF inv]
    by (simp add: listPendingPostDispatchesForTopic_def sql_order_by_def sql_select_def unique_key_def distinct_map
        distinct_filter distinct_sort inj_on_def)
  then have dist: "distinct (map pd_id g)" unfolding parts(1) by simp
  have "pd_post ` set g \<subseteq> set (ac_contributors c)" if "pd_status (ac_trigger c) = PD_pending"
    using claimed_group [OF inv parts(2) sub dist _ g(2)] that last g(5) by auto
  moreover have "\<exists>a. getActiveTurnOrigin (pd_topic (ac_trigger c)) db' = Some a \<and> ao_generation a = pd_generation (ac_trigger c)
      \<and> ao_origin_key a = pd_origin_key (ac_trigger c)" if "ac_mode c = Mode_steer"
    using that g(6) by (auto simp: agent_mode_for_def Let_def split: if_splits option.splits)
  ultimately show ?thesis using safe g(4) parts last by blast
qed

section \<open>One pass\<close>

lemma pick_Some:
  assumes "pick now active selected row db = Some p"
    and "row \<in> set (listPendingPostDispatchesForTopic (pd_topic row) db)"
  shows "pd_topic p = pd_topic row \<and> pd_topic p \<notin> set active \<and> pd_topic p \<notin> set (map pd_topic selected)
    \<and> \<not> busy now p \<and> p \<in> set (listPendingPostDispatchesForTopic (pd_topic p) db)
    \<and> (hasCompactionFence (pd_topic p) db \<longrightarrow> isCompactionRecoveryPost (pd_post p) db)"
proof -
  let ?ps = "listPendingPostDispatchesForTopic (pd_topic row) db"
  let ?cp = "recovery_checkpoint now db ?ps"
  have cp: "x \<in> set ?ps \<and> isCompactionRecoveryPost (pd_post x) db" if "?cp = Some x" for x
    using that by (auto simp: recovery_checkpoint_def find_Some_iff)
  obtain q qs where qs: "?ps = q # qs" using assms(2) by (cases ?ps) auto
  have p: "p = (case ?cp of Some x \<Rightarrow> x | None \<Rightarrow> q)" and fence: "hasCompactionFence (pd_topic row) db \<Longrightarrow> ?cp \<noteq> None"
    and free: "\<not> busy now p" "pd_topic p \<notin> set active" "pd_topic p \<notin> set (map pd_topic selected)"
    using assms(1) qs unfolding pick_def Let_def by (auto split: if_splits option.splits)
  have "p \<in> set ?ps" using p cp qs by (auto split: option.splits)
  moreover have "hasCompactionFence (pd_topic row) db \<Longrightarrow> isCompactionRecoveryPost (pd_post p) db"
    using fence p cp by (auto split: option.splits)
  ultimately show ?thesis using free pending_rows [of p "pd_topic row" db] by auto
qed

definition selectable :: "iso_time \<Rightarrow> ident list \<Rightarrow> forum_db \<Rightarrow> dispatch_row \<Rightarrow> bool" where
  "selectable now active db p \<longleftrightarrow> pd_topic p \<notin> set active \<and> \<not> busy now p
     \<and> p \<in> set (listPendingPostDispatchesForTopic (pd_topic p) db)
     \<and> (hasCompactionFence (pd_topic p) db \<longrightarrow> isCompactionRecoveryPost (pd_post p) db)"

lemma select_due_props:
  assumes "\<forall>r \<in> set due. r \<in> set (listPendingPostDispatchesForTopic (pd_topic r) db)"
    and "length selected \<le> n" and "distinct (map pd_topic selected)" and "\<forall>p \<in> set selected. selectable now active db p"
  shows "length (select_due now n active db due selected) \<le> n
    \<and> distinct (map pd_topic (select_due now n active db due selected))
    \<and> (\<forall>p \<in> set (select_due now n active db due selected). selectable now active db p)"
  using assms
proof (induction due arbitrary: selected)
  case (Cons row due)
  show ?case
  proof (cases "length selected \<ge> n")
    case False
    show ?thesis
    proof (cases "pick now active selected row db")
      case (Some p)
      have "selectable now active db p" "pd_topic p \<notin> set (map pd_topic selected)"
        using pick_Some [OF Some] Cons.prems(1) by (auto simp: selectable_def)
      then show ?thesis using Cons.IH [of "selected @ [p]"] Cons.prems False Some by simp
    qed (use Cons.IH [of selected] Cons.prems False in simp)
  qed (use Cons.prems in simp)
qed simp

text \<open>
  One pass over the queue takes at most the configured number of dispatches, at most one per
  topic and none of a topic that is still being worked on; what it takes is open and current, is not
  in flight with another worker (unless that claim went stale), and respects the topic's fence. A
  stopped service, or one whose pass is still running, takes nothing.
\<close>

theorem pass_takes_bounded:
  "length (processDue now n svc db) \<le> nat (max 1 n)
    \<and> distinct (map pd_topic (processDue now n svc db))
    \<and> (\<forall>p \<in> set (processDue now n svc db). pd_topic p \<notin> set (ds_activeTopics svc)
        \<and> \<not> (pd_status p = PD_dispatching \<and> \<not> isStaleDispatching now p)
        \<and> p \<in> set (fb_dispatches db) \<and> open_status (pd_status p) \<and> generation_current db p
        \<and> (hasCompactionFence (pd_topic p) db \<longrightarrow> isCompactionRecoveryPost (pd_post p) db))
    \<and> (ds_stopped svc \<or> ds_running svc \<longrightarrow> processDue now n svc db = [])"
proof -
  have due: "r \<in> set (listPendingPostDispatchesForTopic (pd_topic r) db)" if "r \<in> set (listDuePostDispatches now k db)" for r k
    using that by (auto simp: listDuePostDispatches_def due_row_def pending_rows dest!: in_set_takeD)
  have "length (processDue now n svc db) \<le> nat (max 1 n)
    \<and> distinct (map pd_topic (processDue now n svc db))
    \<and> (\<forall>p \<in> set (processDue now n svc db). selectable now (ds_activeTopics svc) db p)"
    using select_due_props [of "listDuePostDispatches now (max 1 n * 4) db" db "[]" "nat (max 1 n)" now "ds_activeTopics svc"] due
    by (simp add: processDue_def Let_def)
  then show ?thesis by (auto simp: selectable_def busy_def pending_rows processDue_def)
qed

section \<open>Failure and retry\<close>

lemma delay_bounds:
  "10000 \<le> delay_for RETRY_DELAYS_MS n \<and> delay_for RETRY_DELAYS_MS n \<le> 300000"
  "30000 \<le> delay_for TRANSPORT_RETRY_DELAYS_MS n \<and> delay_for TRANSPORT_RETRY_DELAYS_MS n \<le> 300000"
  by (auto simp: delay_for_def RETRY_DELAYS_MS_def TRANSPORT_RETRY_DELAYS_MS_def nth_Cons split: nat.splits)

lemma failure_retry_bounds:
  "failure_retry_at err now n = Some t \<Longrightarrow> now + 10000 \<le> t \<and> t \<le> now + 300000"
  using delay_bounds [of n]
  by (auto simp: failure_retry_at_def retryAtForAttempt_def transportRetryAtForAttempt_def split: agent_outcome.splits bool.splits if_splits)

lemma fail_dispatch_latest:
  assumes inv: "queue_inv db" and cur: "isPostDispatchClaimCurrent i token db" and d: "getPostDispatch i db = Some d"
    and topic: "pd_topic row = pd_topic d"
    and only: "\<And>e. e \<in> set (fb_dispatches db) \<Longrightarrow> pd_claim_token e = Some token \<Longrightarrow> e = d"
  shows "fail_dispatch now aid row token err m db = snd (markPostDispatchFailed now aid i token m
    (failure_retry_at err now (pd_attempt_count d)) (Some (failure_class err)) db)"
proof -
  let ?ps = "listPendingPostDispatchesForTopic (pd_topic row) db"
  have dcur: "pd_status d = PD_dispatching" "pd_claim_token d = Some token" "generation_current db d"
    using cur d isPostDispatchClaimCurrent_get [OF inv] by auto
  note din = getPostDispatchD [OF d]
  have "d \<in> set ?ps" using dcur din topic by (simp add: pending_rows open_status_def)
  then obtain x where x: "List.find (\<lambda>d. pd_claim_token d = Some token) ?ps = Some x"
    using dcur(2) by (cases "List.find (\<lambda>d. pd_claim_token d = Some token) ?ps") (auto simp: find_None_iff)
  then have "x \<in> set ?ps" "pd_claim_token x = Some token" by (auto simp: find_Some_iff)
  then have "x = d" using only pending_rows by blast
  with x d din show ?thesis by (simp add: fail_dispatch_def)
qed

text \<open>
  C29. A failed call is retried or given up as the failure demands: after a transport failure or a
  refusal marked safe to retry the dispatch always waits for another attempt; after a refusal not
  marked so it is failed; after any other error it is failed exactly from the fifth attempt on. A
  retry is scheduled between 10 seconds and 5 minutes ahead, and the claim is given up either way.
\<close>

theorem failed_call_outcome:
  assumes inv: "queue_inv db" and cur: "isPostDispatchClaimCurrent i (ac_token c) db" and d: "getPostDispatch i db = Some d"
    and topic: "pd_topic row = pd_topic d"
    and only: "\<And>e. e \<in> set (fb_dispatches db) \<Longrightarrow> pd_claim_token e = Some (ac_token c) \<Longrightarrow> e = d"
    and err: "outcome \<noteq> Agent_ok"
  shows "\<exists>d'. getPostDispatch i (complete_dispatch now aid row c outcome m db) = Some d'
    \<and> pd_claim_token d' = None \<and> pd_attempt_count d' = pd_attempt_count d
    \<and> (pd_status d' = PD_failed \<and> pd_next_attempt_at d' = None
       \<or> pd_status d' = PD_pending \<and> (\<exists>t. pd_next_attempt_at d' = Some t \<and> now + 10000 \<le> t \<and> t \<le> now + 300000))
    \<and> (pd_status d' = PD_failed \<longleftrightarrow> outcome = Agent_not_accepted False \<or> outcome = Agent_other \<and> 5 \<le> pd_attempt_count d)"
proof -
  let ?r = "failure_retry_at outcome now (pd_attempt_count d)"
  let ?f = "\<lambda>d. d\<lparr>pd_status := (if ?r \<noteq> None then PD_pending else PD_failed), pd_claim_token := None,
          pd_next_attempt_at := ?r, pd_error := Some (js_slice 1000 m), pd_updated_at := now\<rparr>"
  obtain audit where fin: "snd (markPostDispatchFailed now aid i (ac_token c) m ?r (Some (failure_class outcome)) db)
      = snd (finish_claim i (ac_token c) ?f audit db)"
    using d by (auto simp: markPostDispatchFailed_def)
  have "complete_dispatch now aid row c outcome m db = fail_dispatch now aid row (ac_token c) outcome m db"
    using err by (cases outcome) (auto simp: complete_dispatch_def)
  then have db': "complete_dispatch now aid row c outcome m db = snd (finish_claim i (ac_token c) ?f audit db)"
    using fail_dispatch_latest [OF inv cur d topic only] fin by simp
  have "getPostDispatch i (snd (finish_claim i (ac_token c) ?f audit db)) = Some (?f d)"
    using finish_claim_current [OF inv cur _ _ surjective_pairing, of ?f audit] d by auto
  moreover have "?r = None \<longleftrightarrow> outcome = Agent_not_accepted False \<or> outcome = Agent_other \<and> 5 \<le> pd_attempt_count d"
    using err by (auto simp: failure_retry_at_def retryAtForAttempt_def MAX_ATTEMPTS_def split: agent_outcome.splits bool.splits if_splits)
  moreover have "now + 10000 \<le> t \<and> t \<le> now + 300000" if "?r = Some t" for t using that by (rule failure_retry_bounds)
  ultimately show ?thesis unfolding db' by (cases ?r) auto
qed

section \<open>Instances\<close>

lemmas order_eval = demo_eval due_row_def listDuePostDispatches_def listPendingPostDispatchesForTopic_def isCompactionRecoveryPost_def
  activeCompaction_def recoveryOutstanding_def hasCompactionFence_def hasForkFence_def hasCloneFence_def before_in_queue_def

lemma demo_origin_key: "normalizedOriginKey (queue_demo_origin post) = ''forum:web:t''"
  by (simp add: normalizedOriginKey_def queue_demo_origin_def)

lemma demo_not_recovery: "\<not> isCompactionRecoveryPost post queue_demo"
  by (simp add: isCompactionRecoveryPost_def queue_demo_def)

theorem due_dispatches_in_order_witness:
  "\<not> due_row 50 queue_demo (demo_dispatch ''d2'' ''p2'' 30)
    \<and> sorted (map pd_created_at (listDuePostDispatches 50 10 queue_demo))"
proof -
  have d: "demo_dispatch ''d2'' ''p2'' 30 \<in> set (fb_dispatches queue_demo)" by (simp add: queue_demo_def)
  have "\<not> first_in_topic queue_demo (demo_dispatch ''d2'' ''p2'' 30)"
    by (simp add: first_in_topic_def order_eval)
  then show ?thesis using due_dispatches_in_order [OF queue_demo_inv d demo_not_recovery, of 50 10] by blast
qed

definition demo_group :: "dispatch_row list" where
  "demo_group = [demo_dispatch ''d2'' ''p2'' 30, demo_dispatch ''d3'' ''p3'' 40]"

definition demo_ids :: uuid_stream where
  "demo_ids n = ''u'' @ replicate n CHR ''x''"


theorem pass_takes_bounded_witness:
  "length (processDue 400000 1 \<lparr>ds_running = False, ds_stopped = False, ds_activeTopics = []\<rparr> queue_demo) \<le> 1
    \<and> processDue 400000 1 \<lparr>ds_running = False, ds_stopped = False, ds_activeTopics = []\<rparr> queue_demo \<noteq> []"
proof -
  have "processDue 400000 1 \<lparr>ds_running = False, ds_stopped = False, ds_activeTopics = []\<rparr> queue_demo \<noteq> []"
    by (simp add: processDue_def pick_def recovery_checkpoint_def busy_def isStaleDispatching_def DISPATCHING_STALE_MS_def
        order_eval Let_def)
  then show ?thesis
    using pass_takes_bounded [of 400000 1 "\<lparr>ds_running = False, ds_stopped = False, ds_activeTopics = []\<rparr>" queue_demo] by simp
qed

definition demo_call :: agent_call where
  "demo_call = \<lparr>ac_trigger = demo_dispatch ''d1'' ''p1'' 20, ac_token = ''c1'', ac_mode = Mode_queue, ac_contributors = [''p1''],
     ac_origin = queue_demo_origin ''p1''\<rparr>"

theorem failed_call_outcome_witness:
  "\<exists>d'. getPostDispatch ''d1'' (complete_dispatch 60 ''a3'' (demo_dispatch ''d1'' ''p1'' 20) demo_call Agent_transport [] queue_demo) = Some d'
    \<and> pd_status d' = PD_pending \<and> pd_claim_token d' = None"
proof -
  let ?d = "fb_dispatches queue_demo ! 1"
  have "isPostDispatchClaimCurrent ''d1'' (ac_token demo_call) queue_demo" "getPostDispatch ''d1'' queue_demo = Some ?d"
      "pd_topic (demo_dispatch ''d1'' ''p1'' 20) = pd_topic ?d"
    by (simp_all add: demo_call_def demo_eval)
  moreover have "e = ?d" if "e \<in> set (fb_dispatches queue_demo)" "pd_claim_token e = Some (ac_token demo_call)" for e
    using that by (auto simp: demo_call_def demo_eval)
  ultimately show ?thesis
    using failed_call_outcome [OF queue_demo_inv, of "''d1''" demo_call ?d "demo_dispatch ''d1'' ''p1'' 20" Agent_transport 60 "''a3''" "[]"]
    by auto
qed

text \<open>The first post gone, the second waits at the head and is handed to the agent with the third.\<close>

theorem agent_called_safely_witness:
  "\<exists>c db'. prepare_dispatch 50 51 demo_ids (demo_dispatch ''d2'' ''p2'' 30) queue_demo = (Call_agent c, db')
    \<and> isPostDispatchClaimCurrent (pd_id (ac_trigger c)) (ac_token c) db'"
proof -
  have row: "demo_dispatch ''d2'' ''p2'' 30 \<in> set (listPendingPostDispatchesForTopic (pd_topic (demo_dispatch ''d2'' ''p2'' 30)) queue_demo)"
    by (simp add: order_eval)
  have g: "dispatch_group (demo_dispatch ''d2'' ''p2'' 30) queue_demo = Some demo_group"
    by (simp add: dispatch_group_def find_index_def group_boundary_def demo_group_def order_eval Let_def normalizedOriginKey_def
        queue_demo_origin_def)
  have claim: "\<exists>claimed db'. claimPostDispatchGroup 50 51 demo_ids demo_group queue_demo = Inr (Some claimed, db')
      \<and> pd_claim_token claimed = Some (demo_ids 1) \<and> isPostDispatchClaimCurrent ''d3'' (demo_ids 1) db'
      \<and> pd_contributors claimed \<noteq> None \<and> pd_origin claimed \<noteq> None"
    by (simp add: claimPostDispatchGroup_def demo_group_def group_contributors_def demo_eval insertPostDispatchAttempt_def
        lifecycle_attempt_def attempt_def Let_def demo_origin_key)
  have safe: "\<not> hasCompactionFence ''t'' queue_demo" "getPost ''p2'' queue_demo = Some (new_post ''p2'' ''t'' None ''alice'' [] None False 30)"
      "map_option to_status (getTopic ''t'' queue_demo) = Some Topic_open" "map_option rs_activity (getRobotState ''t'' queue_demo) = Some ''idle''"
    by (simp_all add: order_eval getPost_def getTopic_def getRobotState_def new_post_def)
  have ids: "pd_topic (demo_dispatch ''d2'' ''p2'' 30) = ''t''" "pd_post (demo_dispatch ''d2'' ''p2'' 30) = ''p2''"
      "pd_id (last demo_group) = ''d3''" "demo_group \<noteq> []" "po_deleted_at (new_post ''p2'' ''t'' None ''alice'' [] None False 30) = None"
    by (simp_all add: demo_group_def demo_simps new_post_def)
  from claim safe obtain c db' where "prepare_dispatch 50 51 demo_ids (demo_dispatch ''d2'' ''p2'' 30) queue_demo = (Call_agent c, db')"
    unfolding prepare_dispatch_def ids g by (auto simp: ids Let_def)
  with agent_called_safely [OF queue_demo_inv row this] show ?thesis by blast
qed

end
