(* ===== verification/Compaction_Laws.thy ===== *)
theory Compaction_Laws
  imports Dispatch_Order
begin

text \<open>
  Conversation compaction over any run of store operations: a topic has at most one compaction
  waiting or running, an operation is finished once, and a successful compaction hands the fence
  over to its recovery post without letting an ordinary post of the topic through.
\<close>

section \<open>Elementary changes of the operation table\<close>

inductive compaction_edge :: "op_status \<Rightarrow> op_status \<Rightarrow> bool" where
  "compaction_edge Op_pending Op_running"
| "compaction_edge Op_running Op_pending"
| "compaction_edge Op_running Op_succeeded"
| "compaction_edge Op_running Op_failed"

inductive_simps compaction_edge_simps:
  "compaction_edge Op_pending s" "compaction_edge Op_running s" "compaction_edge Op_succeeded s"
  "compaction_edge Op_failed s" "compaction_edge Op_needs_manual_review s"

definition active_op :: "op_status \<Rightarrow> bool" where
  "active_op s \<longleftrightarrow> s = Op_pending \<or> s = Op_running"

inductive compaction_change :: "forum_db \<Rightarrow> forum_db \<Rightarrow> bool" where
  same: "fb_compactions db' = fb_compactions db \<Longrightarrow> compaction_change db db'"
| insert: "fb_compactions db' = sql_insert c (fb_compactions db) \<Longrightarrow> getCompactionOperation (co_id c) db = None \<Longrightarrow>
    \<not> activeCompaction (co_topic c) db \<Longrightarrow> active_op (co_status c) \<Longrightarrow> compaction_change db db'"
| move: "fb_compactions db' = sql_update hit f (fb_compactions db) \<Longrightarrow>
    (\<And>c. hit c \<Longrightarrow> co_id (f c) = co_id c \<and> co_topic (f c) = co_topic c \<and> compaction_edge (co_status c) (co_status (f c))) \<Longrightarrow>
    compaction_change db db'"

definition compaction_inv :: "forum_db \<Rightarrow> bool" where
  "compaction_inv db \<longleftrightarrow> unique_key co_id (fb_compactions db)
     \<and> (\<forall>topic. sql_count (\<lambda>c. co_topic c = topic \<and> active_op (co_status c)) (fb_compactions db) \<le> 1)"

lemma activeCompaction_count:
  "activeCompaction topic db \<longleftrightarrow> sql_count (\<lambda>c. co_topic c = topic \<and> active_op (co_status c)) (fb_compactions db) \<noteq> 0"
  by (auto simp: activeCompaction_def sql_count_0_iff active_op_def)

lemma edge_active: "compaction_edge a b \<Longrightarrow> active_op a"
  by (auto simp: active_op_def elim: compaction_edge.cases)

lemma compaction_change_inv:
  assumes "compaction_change db db'" and "compaction_inv db"
  shows "compaction_inv db'"
  using assms(1)
proof cases
  case same
  with assms(2) show ?thesis by (simp add: compaction_inv_def)
next
  case (insert c)
  have "co_id c \<notin> co_id ` set (fb_compactions db)"
    using insert(2) by (auto simp: getCompactionOperation_def sql_get_None_iff)
  then have "unique_key co_id (fb_compactions db')"
    using assms(2) insert(1) by (simp add: compaction_inv_def unique_key_insert)
  then show ?thesis using assms(2) insert activeCompaction_count [of "co_topic c" db] by (simp add: compaction_inv_def)
next
  case (move hit f)
  have "sql_count (\<lambda>c. co_topic c = topic \<and> active_op (co_status c)) (fb_compactions db')
      \<le> sql_count (\<lambda>c. co_topic c = topic \<and> active_op (co_status c)) (fb_compactions db)" for topic
  proof -
    have "co_topic r = topic \<and> active_op (co_status r)" if "hit r" "co_topic (f r) = topic \<and> active_op (co_status (f r))" for r
      using move(2) [OF that(1)] edge_active that(2) by auto
    then show ?thesis unfolding move(1) by (rule sql_count_update_le)
  qed
  moreover have "map co_id (fb_compactions db') = map co_id (fb_compactions db)"
    unfolding move(1) using move(2) by (intro map_sql_update) blast
  ultimately show ?thesis using assms(2) by (auto simp: compaction_inv_def unique_key_def intro: order_trans)
qed

section \<open>Operations\<close>

lemma assert_admission_only: "fb_compactions (db\<lparr>fb_admission := a\<rparr>) = fb_compactions db" by simp

lemma insertPostDispatchAttempt_compactions [simp]: "fb_compactions (insertPostDispatchAttempt a db) = fb_compactions db"
  by (simp add: insertPostDispatchAttempt_def)

lemma ensure_compactions: "ensurePostDispatchGeneration now topic db = Inr db' \<Longrightarrow> fb_compactions db' = fb_compactions db"
  by (auto simp: ensurePostDispatchGeneration_def split: if_splits)

lemma createPostDispatch_compactions:
  assumes "createPostDispatch clock now i input db = (r, db')"
  shows "fb_compactions db' = fb_compactions db"
  using assms unfolding createPostDispatch_def Let_def
  by (auto dest!: ensure_compactions split: option.splits prod.splits sum.splits if_splits)

lemma claimPostDispatch_compactions:
  "claimPostDispatch now token aid i st seen db = (r, db') \<Longrightarrow> fb_compactions db' = fb_compactions db"
  unfolding claimPostDispatch_def update_dispatches_eq by (auto split: if_splits option.splits)

lemma supersede_group_compactions:
  "supersede_group n u now rows db = (m, db') \<Longrightarrow> fb_compactions db' = fb_compactions db"
proof (induction rows arbitrary: n db)
  case (Cons row rows)
  then show ?case unfolding supersede_group.simps update_dispatches_eq by (auto split: if_splits dest!: Cons.IH)
qed simp

lemma claim_group_compactions:
  "claimPostDispatchGroup now now2 u rows db = Inr (r, db') \<Longrightarrow> fb_compactions db' = fb_compactions db"
  unfolding claimPostDispatchGroup_def Let_def update_dispatches_eq
  by (auto dest!: supersede_group_compactions claimPostDispatch_compactions split: if_splits prod.splits)

lemma finish_claim_compactions: "finish_claim i token f audit db = (r, db') \<Longrightarrow> fb_compactions db' = fb_compactions db"
  unfolding finish_claim_def update_dispatches_eq by (auto split: option.splits if_splits)

lemma close_dispatch_compactions: "close_dispatch now aid i extra st ev why db = (r, db') \<Longrightarrow> fb_compactions db' = fb_compactions db"
  unfolding close_dispatch_def update_dispatches_eq by (auto split: option.splits if_splits)

lemma audit_superseded_compactions [simp]: "fb_compactions (audit_superseded n u now why rows db) = fb_compactions db"
  by (induction rows arbitrary: n db) simp_all

lemma advance_compactions:
  "advanceTopicDispatchGeneration now u topic why db = Inr (r, db') \<Longrightarrow> fb_compactions db' = fb_compactions db"
  unfolding advanceTopicDispatchGeneration_def Let_def update_dispatches_eq
  by (auto dest!: ensure_compactions split: sum.splits option.splits)

lemma createPost_compactions: "createPost now i input db = Inr (r, db') \<Longrightarrow> fb_compactions db' = fb_compactions db"
  by (auto simp: createPost_def apply_auto_compact_def Let_def split: if_splits sum.splits option.splits)

lemma event_compactions: "createTopicOperationalEvent e db = Inr (r, db') \<Longrightarrow> fb_compactions db' = fb_compactions db"
  by (auto simp: createTopicOperationalEvent_def split: option.splits if_splits)

lemma record_origin_compactions: "recordActiveTurnOriginFromDispatch now topic d db = (r, db') \<Longrightarrow> fb_compactions db' = fb_compactions db"
  by (auto simp: recordActiveTurnOriginFromDispatch_def recordActiveTurnOrigin_def Let_def split: option.splits if_splits)

lemmas keeps_compactions = createPostDispatch_compactions claimPostDispatch_compactions claim_group_compactions
  finish_claim_compactions close_dispatch_compactions advance_compactions createPost_compactions event_compactions
  record_origin_compactions

lemma insert_compaction_change:
  assumes "insert_compaction row db = Inr db'" and "\<not> activeCompaction (co_topic row) db" and "active_op (co_status row)"
  shows "compaction_change db db'"
  using assms by (intro compaction_change.insert [of db' row db])
    (auto simp: insert_compaction_def getCompactionOperation_def sql_get_None_iff split: if_splits)

lemma compaction_change_from:
  assumes "compaction_change db0 db'" and "fb_compactions db0 = fb_compactions db"
  shows "compaction_change db db'"
  using assms(1)
proof cases
  case (insert c)
  with assms(2) show ?thesis
    by (intro compaction_change.insert [of db' c db]) (simp_all add: getCompactionOperation_def activeCompaction_def)
next
  case (move hit f)
  with assms(2) show ?thesis by (intro compaction_change.move [of db' hit f db]) simp_all
qed (use assms(2) in \<open>simp add: compaction_change.same\<close>)

lemma enqueue_change:
  assumes "enqueueCompactionOperationIfIdle clock now input db = (r, db')"
  shows "compaction_change db db'"
proof -
  consider a where "db' = db\<lparr>fb_admission := a\<rparr>" | "db' = db"
    | a where "\<not> activeCompaction (cc_topic input) (db\<lparr>fb_admission := a\<rparr>)"
        "insert_compaction (new_compaction now Op_pending None input) (db\<lparr>fb_admission := a\<rparr>) = Inr db'"
    using assms unfolding enqueueCompactionOperationIfIdle_def createCompactionOperation_def Let_def hasCompactionFence_def
    by (auto split: if_splits prod.splits sum.splits option.splits)
  then show ?thesis
  proof cases
    case (3 a)
    then have "compaction_change (db\<lparr>fb_admission := a\<rparr>) db'"
      by (intro insert_compaction_change) (auto simp: new_compaction_def active_op_def)
    then show ?thesis by (rule compaction_change_from) simp
  qed (auto intro: compaction_change.same)
qed

lemma start_change:
  assumes "startCompactionOperation now input db = Inr (r, db')"
  shows "compaction_change db db'"
proof (cases "db' = db")
  case False
  then have "insert_compaction (new_compaction now Op_running (Some now) input) db = Inr db'" "\<not> activeCompaction (cc_topic input) db"
    using assms by (auto simp: startCompactionOperation_def split: if_splits sum.splits)
  then show ?thesis by (intro insert_compaction_change) (auto simp: new_compaction_def active_op_def)
qed (simp add: compaction_change.same)

lemma update_compactions_change:
  assumes "snd (update_compactions hit f db) = db'"
    and "\<And>c. hit c \<Longrightarrow> co_id (f c) = co_id c \<and> co_topic (f c) = co_topic c \<and> compaction_edge (co_status c) (co_status (f c))"
  shows "compaction_change db db'"
  using assms by (intro compaction_change.move [of db' hit f db]) (auto simp: update_compactions_def)

lemma finishSuccess_cases:
  assumes "finishCompactionSuccess t u i db = (r, db')"
  obtains e a where "r = Inl e" and "db' = db\<lparr>fb_admission := a\<rparr>"
  | op post db1 d db2 event db3 c where "running_compaction i db = Inr op"
      and "createPost (t 1) (u 0) \<lparr>cp_topic = co_topic op, cp_parent = None, cp_author = co_initiated_by op,
               cp_body = co_recovery_prompt op, cp_source_message = None, cp_silent = False,
               cp_draft = None, cp_auto_compact = None, cp_auto_compact_revision = None\<rparr> db = Inr (post, db1)"
      and "createPostDispatch (t 2) (t 3) (u 1) \<lparr>cd_topic = co_topic op, cd_post = u 0, cd_session = co_session op,
                   cd_mode = Some ''auto'', cd_model = None, cd_reasoning_effort = None, cd_auto_compact = None\<rparr> db1 = (Inr d, db2)"
      and "createTopicOperationalEvent (compaction_event (u 2) (t 4) op (getLatestPostId (co_topic op) db) True
                       ''Conversation context was compacted.'' (Detail_compacted (co_expected_leaf op) (u 0))) db2 = Inr (event, db3)"
      and "db' = db3\<lparr>fb_compactions := sql_update (\<lambda>c. co_id c = i \<and> co_status c = Op_running)
                          (\<lambda>c. c\<lparr>co_status := Op_succeeded, co_event := Some (oe_id event),
                             co_recovery_post := Some (u 0), co_finished_at := Some (t 0)\<rparr>) (fb_compactions db3)\<rparr>"
      and "r = Inr c" and "getCompactionOperation i db' = Some c"
proof (cases r)
  case (Inl e)
  then have "\<exists>a. db' = db\<lparr>fb_admission := a\<rparr>"
    using assms unfolding finishCompactionSuccess_def Let_def
    by (auto split: sum.splits option.splits prod.splits intro: exI [of _ "fb_admission db"])
  with Inl that(1) show thesis by blast
next
  case (Inr c)
  then show thesis
    using assms unfolding finishCompactionSuccess_def Let_def update_compactions_def
    by (auto split: sum.splits option.splits prod.splits intro: that(2))
qed

lemma store_step_compactions: "store_step S db db' \<Longrightarrow> compaction_change db db'"
proof (induction rule: store_step.induct)
  case (enqueue_compaction clock now cinput db cr db')
  then show ?case by (rule enqueue_change)
next
  case (start_compaction now cinput db c' db')
  then show ?case by (rule start_change)
next
  case (claim_compaction now i db c' db')
  then show ?case
    by (intro update_compactions_change [of "\<lambda>c. co_id c = i \<and> compaction_due now c"])
      (auto simp: claimCompactionOperation_def compaction_due_def update_compactions_def compaction_edge_simps)
next
  case (requeue_running db n db')
  then show ?case
    by (intro update_compactions_change [of "\<lambda>c. co_status c = Op_running" requeued])
      (auto simp: requeueRunningCompactionOperations_def requeued_def compaction_edge_simps)
next
  case (requeue i db b db')
  then show ?case
    by (intro update_compactions_change [of "\<lambda>c. co_id c = i \<and> co_status c = Op_running" requeued])
      (auto simp: requeueCompactionOperation_def requeued_def update_compactions_def compaction_edge_simps)
next
  case (requeue_uncertain i m at db ur db')
  then show ?case
    by (intro update_compactions_change [of "\<lambda>c. co_id c = i \<and> co_status c = Op_running"
          "\<lambda>c. c\<lparr>co_status := Op_pending, co_started_at := None, co_next_attempt_at := Some at, co_error := Some (js_slice 1000 m)\<rparr>"])
      (auto simp: requeueUncertainCompaction_def update_compactions_def compaction_edge_simps split: option.splits if_splits)
next
  case (compaction_failed ts i' i m db c db')
  define fin where "fin event db1 = snd (update_compactions (\<lambda>c. co_id c = i \<and> co_status c = Op_running)
      (\<lambda>c. c\<lparr>co_status := Op_failed, co_event := Some (oe_id event),
         co_error := Some (js_slice 1000 m), co_finished_at := Some (ts 1)\<rparr>) db1)" for event :: op_event_row and db1
  from compaction_failed obtain event db1 where 1: "fb_compactions db1 = fb_compactions db" "db' = fin event db1"
    unfolding finishCompactionFailure_def Let_def fin_def [symmetric]
    by (auto dest!: event_compactions split: sum.splits option.splits prod.splits)
  have "compaction_change db1 db'"
    unfolding 1(2) fin_def by (rule update_compactions_change [OF refl]) (auto simp: compaction_edge_simps)
  then show ?case using 1(1) by (rule compaction_change_from)
next
  case (compaction_succeeded ts u i db ur db')
  then show ?case
  proof (cases rule: finishSuccess_cases)
    case (2 op post db1 d db2 event db3 c)
    have "compaction_change db3 db'"
      unfolding 2(5) by (rule compaction_change.move [of _ "\<lambda>c. co_id c = i \<and> co_status c = Op_running"
          "\<lambda>c. c\<lparr>co_status := Op_succeeded, co_event := Some (oe_id event),
             co_recovery_post := Some (u 0), co_finished_at := Some (ts 0)\<rparr>"]) (auto simp: compaction_edge_simps)
    then show ?thesis
      using createPost_compactions [OF 2(2)] createPostDispatch_compactions [OF 2(3)] event_compactions [OF 2(4)]
      by (intro compaction_change_from [of db3 db' db]) simp_all
  qed (auto intro: compaction_change.same)
next
  case (generation now topic db g db')
  then show ?case
    by (auto simp: getTopicDispatchGeneration_def dest!: ensure_compactions intro!: compaction_change.same split: sum.splits option.splits)
next
  case (failed now aid i token m retryAt cl db r db')
  then show ?case
    by (auto simp: markPostDispatchFailed_def dest!: finish_claim_compactions intro!: compaction_change.same split: if_splits)
next
  case (reconcile now u db n db')
  then show ?case
    by (auto simp: reconcilePostDispatchGenerations_def update_dispatches_eq Let_def intro!: compaction_change.same)
next
  case (retry now i db r db')
  then show ?case by (auto simp: retryTerminalPostDispatch_def update_dispatches_eq intro!: compaction_change.same)
qed (auto simp: markPostDispatchDispatched_def markPostDispatchSuperseded_def markPostDispatchAbandoned_def clearActiveTurnOrigin_def
    createTopic_def update_topic_def update_live_post_def update_robot_def resetRobotActivities_def Let_def
    dest!: keeps_compactions intro!: compaction_change.same split: option.splits if_splits)

section \<open>The operation as a status machine\<close>

definition compaction_status_of :: "forum_db \<Rightarrow> ident \<Rightarrow> op_status option" where
  "compaction_status_of db i = map_option co_status (getCompactionOperation i db)"

lemma compaction_change_edges:
  assumes "compaction_change db db'" and "compaction_status_of db i = Some a"
  shows "\<exists>b. compaction_status_of db' i = Some b \<and> compaction_edge\<^sup>*\<^sup>* a b"
  using assms(1)
proof cases
  case same
  with assms(2) show ?thesis by (auto simp: compaction_status_of_def getCompactionOperation_def)
next
  case (insert c)
  with assms(2) show ?thesis by (auto simp: compaction_status_of_def getCompactionOperation_def sql_get_insert)
next
  case (move hit f)
  obtain c where c: "getCompactionOperation i db = Some c" "co_status c = a" using assms(2) by (auto simp: compaction_status_of_def)
  have "List.find (\<lambda>c. co_id c = i) (map (\<lambda>c. if hit c then f c else c) t)
      = map_option (\<lambda>c. if hit c then f c else c) (List.find (\<lambda>c. co_id c = i) t)" for t
    using move(2) by (induction t) auto
  then have "getCompactionOperation i db' = Some (if hit c then f c else c)"
    using c(1) move(1) by (simp add: getCompactionOperation_def sql_get_def sql_update_def)
  then show ?thesis using c(2) move(2) [of c] by (auto simp: compaction_status_of_def)
qed

interpretation compaction_machine: status_machine compaction_status_of compaction_edge store_any compaction_inv
proof
  fix db db' :: forum_db and i a
  assume "compaction_inv db" and "store_any db db'"
  moreover from this obtain ch: "compaction_change db db'" using store_step_compactions unfolding store_any_def by blast
  ultimately show "compaction_inv db'" using compaction_change_inv by blast
  show "\<exists>b. compaction_status_of db' i = Some b \<and> compaction_edge\<^sup>*\<^sup>* a b" if "compaction_status_of db i = Some a"
    using ch that by (rule compaction_change_edges)
qed


text \<open>
  A compaction is finished once: after it succeeded or failed, whatever operations run, neither
  another success nor another failure can be recorded for it, and nothing but the admission fence
  changes when that is tried.
\<close>

theorem compaction_finishes_once:
  assumes "store_any\<^sup>*\<^sup>* db db'" and "compaction_inv db" and "compaction_status_of db i = Some st"
    and "st = Op_succeeded \<or> st = Op_failed"
  shows "compaction_status_of db' i = Some st
    \<and> finishCompactionSuccess t u i db' = (Inl (Store_error ''compaction operation is not running''), db')
    \<and> finishCompactionFailure t eid i m db' = Inl (Store_error ''compaction operation is not running'')"
proof -
  have "compaction_status_of db' i = Some st"
    using compaction_machine.terminal_stays [OF assms(1-3)] assms(4) by (auto simp: compaction_edge_simps)
  moreover from this assms(4) have "running_compaction i db' = Inl (Store_error ''compaction operation is not running'')"
    by (auto simp: running_compaction_def compaction_status_of_def)
  ultimately show ?thesis by (simp add: finishCompactionSuccess_def finishCompactionFailure_def)
qed

section \<open>Handing the fence over\<close>

lemma createPostDispatch_new:
  assumes "createPostDispatch clock now i input db = (Inr d, db')" and "getPostDispatchByPost (cd_post input) db = None"
  shows "d \<in> set (fb_dispatches db') \<and> generation_current db' d \<and> pd_status d = PD_pending \<and> pd_post d = cd_post input
    \<and> pd_topic d = cd_topic input"
proof -
  obtain db1 g orig where "topic_generation db1 (cd_topic input) = Some g" "d = new_dispatch i now g orig input"
      "db' = db1\<lparr>fb_dispatches := sql_insert d (fb_dispatches db1)\<rparr>"
    using assms unfolding createPostDispatch_def Let_def by (auto split: prod.splits sum.splits option.splits if_splits)
  then show ?thesis by (simp add: new_dispatch_def generation_current_def topic_generation_def)
qed

lemma createPost_fields:
  assumes "createPost now i input db = Inr (p, db')"
  shows "fb_dispatches db' = fb_dispatches db"
    and "p = Some (new_post i (cp_topic input) (cp_parent input) (cp_author input) (cp_body input) (cp_source_message input) (cp_silent input) now)"
proof -
  obtain db1 where 1: "apply_auto_compact now input db = Inr db1" "\<not> sql_exists (\<lambda>p. po_id p = i) (fb_posts db1)"
      "p = getPost i db'" "fb_posts db' = sql_insert (new_post i (cp_topic input) (cp_parent input) (cp_author input) (cp_body input)
          (cp_source_message input) (cp_silent input) now) (fb_posts db1)"
    using assms unfolding createPost_def Let_def by (auto split: if_splits sum.splits)
  have "sql_get (\<lambda>p. po_id p = i) (fb_posts db1) = None" using 1(2) by (simp add: sql_get_None_iff)
  then show "p = Some (new_post i (cp_topic input) (cp_parent input) (cp_author input) (cp_body input) (cp_source_message input) (cp_silent input) now)"
    using 1 by (simp add: getPost_def sql_get_insert new_post_def)
  show "fb_dispatches db' = fb_dispatches db" using createPost_same [OF assms] by (simp add: same_queue_def)
qed

lemma event_posts: "createTopicOperationalEvent e db = Inr (ev, db') \<Longrightarrow>
    fb_posts db' = fb_posts db \<and> fb_dispatches db' = fb_dispatches db \<and> fb_generations db' = fb_generations db \<and> ev \<in> set (fb_events db')"
  by (auto simp: createTopicOperationalEvent_def dest: sql_get_SomeD split: option.splits if_splits)

lemma createPostDispatch_posts: "createPostDispatch clock now i input db = (Inr d, db') \<Longrightarrow> fb_posts db' = fb_posts db"
  unfolding createPostDispatch_def Let_def
  by (auto simp: ensurePostDispatchGeneration_def split: option.splits prod.splits sum.splits if_splits)

lemma getCompactionOperation_update:
  assumes "\<And>c. co_id (f c) = co_id c"
  shows "getCompactionOperation i (db\<lparr>fb_compactions := sql_update hit f (fb_compactions db)\<rparr>)
    = map_option (\<lambda>c. if hit c then f c else c) (getCompactionOperation i db)"
  using sql_get_update_key [of co_id f i hit "fb_compactions db"] assms by (simp add: getCompactionOperation_def)

text \<open>
  C4. A finished compaction hands its fence over without a gap. If finishing fails, no table changes.
  If it succeeds, the operation is closed as succeeded, its recovery prompt is a new post of the
  topic, that post has a pending dispatch of the topic's current generation, the event is recorded,
  the topic stays fenced, and no ordinary dispatch of the topic is due at any time while the recovery
  post has not been dispatched.
\<close>

theorem compaction_hands_over:
  assumes fin: "finishCompactionSuccess t u i db = (r, db')" and fresh: "getPostDispatchByPost (u 0) db = None"
  shows "case r of Inl e \<Rightarrow> db' = db\<lparr>fb_admission := fb_admission db'\<rparr>
    | Inr c \<Rightarrow> co_id c = i \<and> co_status c = Op_succeeded \<and> compaction_status_of db i = Some Op_running
        \<and> (\<exists>p. getPost (u 0) db' = Some p \<and> po_topic p = co_topic c \<and> po_body p = co_recovery_prompt c)
        \<and> (\<exists>d \<in> set (fb_dispatches db'). pd_post d = u 0 \<and> pd_topic d = co_topic c \<and> pd_status d = PD_pending \<and> generation_current db' d)
        \<and> (\<exists>ev \<in> set (fb_events db'). co_event c = Some (oe_id ev))
        \<and> hasCompactionFence (co_topic c) db'
        \<and> (\<forall>now. \<forall>d \<in> set (fb_dispatches db'). pd_topic d = co_topic c \<and> \<not> isCompactionRecoveryPost (pd_post d) db' \<longrightarrow> \<not> due_row now db' d)"
  using fin
proof (cases rule: finishSuccess_cases)
  case (1 e a)
  then show ?thesis by simp
next
  case (2 op post db1 d db2 event db3 c)
  let ?f = "\<lambda>c. c\<lparr>co_status := Op_succeeded, co_event := Some (oe_id event), co_recovery_post := Some (u 0), co_finished_at := Some (t 0)\<rparr>"
  have op: "getCompactionOperation i db = Some op" "co_status op = Op_running" "co_id op = i"
    using 2(1) by (auto simp: running_compaction_def getCompactionOperation_def dest: sql_get_SomeD split: option.splits if_splits)
  have comps: "fb_compactions db3 = fb_compactions db"
    using createPost_compactions [OF 2(2)] createPostDispatch_compactions [OF 2(3)] event_compactions [OF 2(4)] by simp
  then have "getCompactionOperation i db3 = Some op" using op(1) by (simp add: getCompactionOperation_def)
  then have c: "c = ?f op" using 2(7) op unfolding 2(5) by (subst (asm) getCompactionOperation_update) auto
  have cin: "c \<in> set (fb_compactions db')" using 2(7) by (auto simp: getCompactionOperation_def dest: sql_get_SomeD)
  have "getPostDispatchByPost (u 0) db1 = None"
    using fresh createPost_fields(1) [OF 2(2)] by (simp add: getPostDispatchByPost_def)
  then have d: "d \<in> set (fb_dispatches db2)" "generation_current db2 d" "pd_status d = PD_pending" "pd_post d = u 0" "pd_topic d = co_topic op"
    using createPostDispatch_new [OF 2(3)] by simp_all
  have d': "d \<in> set (fb_dispatches db')" "generation_current db' d"
    using d event_posts [OF 2(4)] unfolding 2(5) by (simp_all add: generation_current_def topic_generation_def)
  have "getPost (u 0) db1 = post" using 2(2) by (auto simp: createPost_def Let_def split: if_splits sum.splits)
  moreover have "fb_posts db' = fb_posts db1"
    using event_posts [OF 2(4)] createPostDispatch_posts [OF 2(3)] unfolding 2(5) by simp
  ultimately have post: "getPost (u 0) db' = Some (new_post (u 0) (co_topic op) None (co_initiated_by op) (co_recovery_prompt op) None False (t 1))"
    using createPost_fields(2) [OF 2(2)] by (simp add: getPost_def)
  have "\<exists>x \<in> set (fb_dispatches db'). Some (pd_post x) = co_recovery_post c \<and> generation_current db' x \<and> actionable x"
    using d' d by (intro bexI [of _ d]) (simp_all add: c actionable_def open_status_def)
  then have rec: "recoveryOutstanding (co_topic c) db'"
    unfolding recoveryOutstanding_def sql_exists_iff using cin by (intro bexI [of _ c]) (simp_all add: c)
  then have fence: "hasCompactionFence (co_topic c) db'" by (simp add: hasCompactionFence_def)
  have held: "\<not> due_row now db' x" if "pd_topic x = co_topic c" "\<not> isCompactionRecoveryPost (pd_post x) db'" for now x
    using rec that by (simp add: due_row_def)
  have ev: "event \<in> set (fb_events db')" using event_posts [OF 2(4)] unfolding 2(5) by simp
  have "\<exists>p. getPost (u 0) db' = Some p \<and> po_topic p = co_topic c \<and> po_body p = co_recovery_prompt c"
    using post by (simp add: c new_post_def)
  moreover have "\<exists>ev \<in> set (fb_events db'). co_event c = Some (oe_id ev)" using ev by (auto simp: c)
  moreover have "compaction_status_of db i = Some Op_running" using op by (simp add: compaction_status_of_def)
  moreover have "\<exists>d \<in> set (fb_dispatches db'). pd_post d = u 0 \<and> pd_topic d = co_topic c \<and> pd_status d = PD_pending \<and> generation_current db' d"
    using d d' by (auto simp: c)
  moreover have "co_id c = i" "co_status c = Op_succeeded" using op(3) by (simp_all add: c)
  ultimately show ?thesis using 2(6) fence held by simp
qed

section \<open>Instances\<close>

definition demo_compaction :: compaction_row where
  "demo_compaction = (new_compaction 50 Op_running (Some 50) \<lparr>cc_id = ''k'', cc_topic = ''t'', cc_session = ''s'',
     cc_initiated_by = ''alice'', cc_expected_leaf = ''leaf'', cc_custom_instructions = None, cc_recovery_prompt = []\<rparr>)"

definition compacting_demo :: forum_db where
  "compacting_demo = queue_demo\<lparr>fb_compactions := [demo_compaction], fb_admission := admission_init\<lparr>ad_guard := Guard_none\<rparr>\<rparr>"

lemma compacting_demo_inv: "compaction_inv compacting_demo"
  by (simp add: compaction_inv_def compacting_demo_def sql_count_def)

theorem compaction_hands_over_witness:
  "\<exists>c db'. finishCompactionSuccess (\<lambda>n. 60) demo_ids ''k'' compacting_demo = (Inr c, db')
    \<and> co_status c = Op_succeeded \<and> hasCompactionFence (co_topic c) db'"
proof -
  have ok: "\<not> isl (fst (finishCompactionSuccess (\<lambda>n. 60) demo_ids ''k'' compacting_demo))" by code_simp
  obtain r db' where fin: "finishCompactionSuccess (\<lambda>n. 60) demo_ids ''k'' compacting_demo = (r, db')" by fastforce
  with ok obtain c where c: "r = Inr c" by (cases r) auto
  have "getPostDispatchByPost (demo_ids 0) compacting_demo = None" by code_simp
  from compaction_hands_over [OF fin this] fin c show ?thesis by auto
qed


definition failed_demo :: forum_db where
  "failed_demo = queue_demo\<lparr>fb_compactions := [demo_compaction\<lparr>co_status := Op_failed\<rparr>]\<rparr>"

theorem compaction_finishes_once_witness:
  "finishCompactionSuccess (\<lambda>n. 60) demo_ids ''k'' failed_demo = (Inl (Store_error ''compaction operation is not running''), failed_demo)"
proof -
  have "compaction_inv failed_demo" "compaction_status_of failed_demo ''k'' = Some Op_failed"
    by (simp_all add: compaction_inv_def failed_demo_def sql_count_def compaction_status_of_def getCompactionOperation_def sql_get_def
        demo_compaction_def new_compaction_def)
  from compaction_finishes_once [OF rtranclp.rtrancl_refl this] show ?thesis by simp
qed

end
