(* ===== verification/Timed_Cache.thy ===== *)
theory Timed_Cache
  imports Prelude
begin

text \<open>
  The \<^verbatim>\<open>TimedCache\<close> of \<^verbatim>\<open>server/store.ts\<close> and the read-through lookup the store builds on it
  (\<^verbatim>\<open>getForum\<close>, \<^verbatim>\<open>getTopic\<close>, \<^verbatim>\<open>getIdentity\<close>). \<^verbatim>\<open>Date.now()\<close> is an argument. The locale
  \<open>read_through\<close> states when such a cache may be trusted: as long as every entry agrees with the
  table behind it, lookups answer as the table does.
\<close>

section \<open>The cache\<close>

record ('k, 'v) timed_cache =
  tc_ttlMs :: int
  tc_maxEntries :: nat
  tc_store :: "('k \<times> 'v \<times> int) list"

definition cache_get :: "int \<Rightarrow> 'k \<Rightarrow> ('k, 'v) timed_cache \<Rightarrow> 'v option \<times> ('k, 'v) timed_cache" where
  "cache_get now key c =
    (if tc_ttlMs c \<le> 0 then (None, c)
     else case map_of (tc_store c) key of
         None \<Rightarrow> (None, c)
       | Some (v, expiresAt) \<Rightarrow>
           if expiresAt \<le> now then (None, c\<lparr>tc_store := map_delete key (tc_store c)\<rparr>) else (Some v, c))"

definition cache_set :: "int \<Rightarrow> 'k \<Rightarrow> 'v \<Rightarrow> ('k, 'v) timed_cache \<Rightarrow> ('k, 'v) timed_cache" where
  "cache_set now key v c =
    (if tc_ttlMs c \<le> 0 then c
     else let m = map_set key (v, now + tc_ttlMs c) (tc_store c) in
       c\<lparr>tc_store := (if length m > tc_maxEntries c then map_delete (fst (hd m)) m else m)\<rparr>)"

definition cache_delete :: "'k \<Rightarrow> ('k, 'v) timed_cache \<Rightarrow> ('k, 'v) timed_cache" where
  "cache_delete key c = c\<lparr>tc_store := map_delete key (tc_store c)\<rparr>"

definition cache_clear :: "('k, 'v) timed_cache \<Rightarrow> ('k, 'v) timed_cache" where
  "cache_clear c = c\<lparr>tc_store := []\<rparr>"

definition cached_get ::
  "int \<Rightarrow> ('k \<Rightarrow> 'v option) \<Rightarrow> 'k \<Rightarrow> ('k, 'v) timed_cache \<Rightarrow> 'v option \<times> ('k, 'v) timed_cache" where
  \<comment> \<open>the body shared by the three lookups: from the cache, else from the table and into the cache\<close>
  "cached_get now lookup key c = (case cache_get now key c of
     (Some v, c') \<Rightarrow> (Some v, c')
   | (None, c') \<Rightarrow> (case lookup key of None \<Rightarrow> (None, c') | Some v \<Rightarrow> (Some v, cache_set now key v c')))"

section \<open>Laws\<close>

definition cache_ok :: "('k, 'v) timed_cache \<Rightarrow> bool" where
  "cache_ok c \<longleftrightarrow> distinct (map fst (tc_store c)) \<and> length (tc_store c) \<le> tc_maxEntries c"

lemma cache_get_ok: "cache_ok c \<Longrightarrow> cache_ok (snd (cache_get now k c))"
  using distinct_map_delete map_delete_subset(2) [of k "tc_store c"]
  by (auto simp: cache_get_def cache_ok_def split: option.splits intro: order_trans)

lemma cache_set_ok:
  assumes "cache_ok c"
  shows "cache_ok (cache_set now k v c)"
proof (cases "tc_ttlMs c \<le> 0")
  case False
  let ?m = "map_set k (v, now + tc_ttlMs c) (tc_store c)"
  have d: "distinct (map fst ?m)" using assms by (simp add: cache_ok_def keys_map_set)
  have le: "length ?m \<le> Suc (tc_maxEntries c)"
    using assms length_map_set [of k "(v, now + tc_ttlMs c)" "tc_store c"] by (simp add: cache_ok_def)
  obtain x m where x: "?m = x # m" using map_set_Cons [of k _ "tc_store c"] by (cases ?m) auto
  have "length (map_delete (fst x) (x # m)) \<le> length m" by (auto simp: map_delete_def)
  then show ?thesis using False d le x distinct_map_delete [OF d] by (auto simp: cache_set_def cache_ok_def Let_def)
qed (use assms in \<open>simp add: cache_set_def\<close>)

lemma cache_delete_ok: "cache_ok c \<Longrightarrow> cache_ok (cache_delete k c)"
  using distinct_map_delete map_delete_subset(2) [of k "tc_store c"] by (auto simp: cache_delete_def cache_ok_def intro: order_trans)

lemma cached_get_ok: "cache_ok c \<Longrightarrow> cache_ok (snd (cached_get now lookup k c))"
  using cache_get_ok [of c now k] cache_set_ok by (auto simp: cached_get_def split: prod.splits option.splits)

section \<open>Trusting a read-through cache\<close>

definition coherent :: "('v \<Rightarrow> 'w) \<Rightarrow> ('k \<Rightarrow> 'v option) \<Rightarrow> ('k, 'v) timed_cache \<Rightarrow> bool" where
  \<comment> \<open>cached rows agree with the table on the columns \<open>view\<close> shows\<close>
  "coherent view lookup c \<longleftrightarrow> (\<forall>k v e. map_of (tc_store c) k = Some (v, e) \<longrightarrow> map_option view (lookup k) = Some (view v))"

locale read_through =
  fixes lookup :: "'s \<Rightarrow> 'k \<Rightarrow> 'v option"
    and cache :: "'s \<Rightarrow> ('k, 'v) timed_cache"
    and put_cache :: "('k, 'v) timed_cache \<Rightarrow> 's \<Rightarrow> 's"
    and view :: "'v \<Rightarrow> 'w"
  assumes lookup_put: "lookup (put_cache c s) = lookup s"
    and cache_put: "cache (put_cache c s) = c"
begin

definition read :: "int \<Rightarrow> 'k \<Rightarrow> 's \<Rightarrow> 'v option \<times> 's" where
  "read now k s = (case cached_get now (lookup s) k (cache s) of (v, c) \<Rightarrow> (v, put_cache c s))"

definition trusted :: "'s \<Rightarrow> bool" where
  "trusted s \<longleftrightarrow> coherent view (lookup s) (cache s)"

lemma read_trusted:
  assumes "trusted s"
  shows "map_option view (fst (read now k s)) = map_option view (lookup s k) \<and> trusted (snd (read now k s))
    \<and> lookup (snd (read now k s)) = lookup s"
proof -
  have get: "coherent view (lookup s) (snd (cache_get now k (cache s)))
      \<and> (\<forall>v. fst (cache_get now k (cache s)) = Some v \<longrightarrow> map_option view (lookup s k) = Some (view v))"
    using assms by (auto simp: cache_get_def trusted_def coherent_def map_of_map_delete split: option.splits if_splits)
  have set: "coherent view (lookup s) (cache_set now k v c)" if "coherent view (lookup s) c" "lookup s k = Some v" for c v
    using that by (auto simp: cache_set_def coherent_def map_of_map_delete map_of_map_set Let_def split: if_splits)
  show ?thesis
    using get set by (auto simp: read_def cached_get_def trusted_def lookup_put cache_put split: prod.splits option.splits)
qed

text \<open>
  A write to the table keeps the trust if it drops the entry of the row it changes, or if it does not
  change what the view shows.
\<close>

lemma write_trusted:
  assumes "trusted s" and "\<And>j. j \<noteq> k \<Longrightarrow> map_option view (lookup s' j) = map_option view (lookup s j)"
    and "cache s' = cache_delete k (cache s)"
  shows "trusted s'"
  unfolding trusted_def coherent_def
proof (intro allI impI)
  fix j v e
  assume "map_of (tc_store (cache s')) j = Some (v, e)"
  then have "j \<noteq> k" "map_of (tc_store (cache s)) j = Some (v, e)"
    using assms(3) by (auto simp: cache_delete_def map_of_map_delete split: if_splits)
  then show "map_option view (lookup s' j) = Some (view v)"
    using assms(1) assms(2) [of j] unfolding trusted_def coherent_def by metis
qed

lemma same_trusted:
  assumes "trusted s" and "\<And>j v. lookup s j = Some v \<Longrightarrow> map_option view (lookup s' j) = Some (view v)" and "cache s' = cache s"
  shows "trusted s'"
  using assms by (fastforce simp: trusted_def coherent_def)

end

end
