(* ===== verification/Auth_Store.thy ===== *)
theory Auth_Store
  imports Forum_Db Timed_Cache
begin

text \<open>
  The part of \<^verbatim>\<open>server/store.ts\<close> that authentication and authorisation rest on: identities with
  their cache, forums, roles and access rules, login sessions, API keys, impersonation tokens,
  WebAuthn challenges and credentials, and invites. \<^verbatim>\<open>hashToken\<close> (SHA-256) is the argument \<open>H\<close>.
\<close>

section \<open>Rows\<close>

record identity_row =
  id_id :: ident
  id_tenant :: "ident option"
  id_display_name :: js_string
  id_kind :: string
  id_parent :: "ident option"
  id_avatar :: "js_string option"
  id_username :: "js_string option"
  id_password_hash :: "string option"
  id_location :: "js_string option"
  id_signature :: "js_string option"
  id_theme :: "js_string option"
  id_private_email :: "js_string option"
  id_quick_reply_desktop :: "string option"
  id_quick_reply_mobile :: "string option"
  id_created_at :: iso_time
  id_updated_at :: iso_time

record forum_row =
  fo_id :: ident
  fo_tenant :: "ident option"
  fo_parent :: "ident option"
  fo_category :: "js_string option"
  fo_name :: js_string
  fo_description :: "js_string option"
  fo_cwd :: "js_string option"
  fo_pre_prompt :: "js_string option"
  fo_status :: string
  fo_visibility :: string
  fo_archived_at :: "iso_time option"
  fo_created_at :: iso_time
  fo_updated_at :: iso_time

record role_row =
  ro_id :: ident
  ro_tenant :: "ident option"
  ro_name :: string
  ro_permissions :: "string list option"
  ro_created_at :: iso_time

record identity_role_row =
  ir_identity :: ident
  ir_role :: ident
  ir_tenant :: "ident option"
  ir_created_at :: iso_time

datatype rule_scope_kind = Scope_forum | Scope_topic
datatype rule_principal_kind = Principal_all | Principal_logged_in | Principal_identity | Principal_role
datatype rule_action = Act_view | Act_post | Act_topic_create | Act_moderate
datatype rule_effect = Allow | Deny

record access_rule_row =
  ar_id :: ident
  ar_scope_kind :: rule_scope_kind
  ar_scope_id :: ident
  ar_principal_kind :: rule_principal_kind
  ar_principal_id :: "ident option"
  ar_action :: rule_action
  ar_effect :: rule_effect
  ar_created_at :: iso_time

datatype auth_method = Method_password | Method_webauthn | Method_verification | Method_internal

record auth_session_row =
  as_token_hash :: string
  as_identity :: ident
  as_method :: auth_method
  as_authenticated_at :: iso_time
  as_created_at :: iso_time
  as_expires_at :: iso_time

text \<open>A scopes column: malformed JSON, JSON that is no array, or an array of strings and other values.\<close>

datatype scopes_column = Sc_malformed | Sc_not_array | Sc_items "js_string option list"

record api_key_row =
  ak_id :: ident
  ak_identity :: ident
  ak_label :: js_string
  ak_token_hash :: string
  ak_token_prefix :: js_string
  ak_scopes :: scopes_column
  ak_last_used_at :: "iso_time option"
  ak_expires_at :: "iso_time option"
  ak_created_at :: iso_time
  ak_revoked_at :: "iso_time option"

record impersonation_row =
  im_id :: ident
  im_owner :: ident
  im_identity :: ident
  im_label :: js_string
  im_token_hash :: string
  im_token_prefix :: js_string
  im_scopes :: scopes_column
  im_last_used_at :: "iso_time option"
  im_expires_at :: "iso_time option"
  im_created_at :: iso_time
  im_revoked_at :: "iso_time option"

datatype ceremony = Registration | Authentication

record challenge_row =
  wc_id :: ident
  wc_challenge :: js_string
  wc_ceremony :: ceremony
  wc_identity :: "ident option"
  wc_expires_at :: iso_time
  wc_created_at :: iso_time

record credential_row =
  cr_id :: string
  cr_identity :: ident
  cr_name :: js_string
  cr_public_key :: "8 word list"
  cr_counter :: int
  cr_transports :: "string list"
  cr_device_type :: string
  cr_backed_up :: bool
  cr_created_at :: iso_time
  cr_last_used_at :: "iso_time option"
  cr_updated_at :: iso_time

record invite_row =
  iv_id :: ident
  iv_code :: string
  iv_created_by :: ident
  iv_max_uses :: int
  iv_uses :: int
  iv_expires_at :: "iso_time option"
  iv_created_at :: iso_time

record auth_db =
  av_identities :: "identity_row table"
  av_identity_cache :: "(ident, identity_row) timed_cache"
  av_forums :: "forum_row table"
  av_forum_cache :: "(ident, forum_row) timed_cache"
  av_topics :: "topic_row table"
  av_topic_cache :: "(ident, topic_row) timed_cache"
  av_posts :: "post_row table"
  av_roles :: "role_row table"
  av_identity_roles :: "identity_role_row table"
  av_rules :: "access_rule_row table"
  av_sessions :: "auth_session_row table"
  av_api_keys :: "api_key_row table"
  av_impersonations :: "impersonation_row table"
  av_challenges :: "challenge_row table"
  av_credentials :: "credential_row table"
  av_invites :: "invite_row table"
  av_tenant_ids :: "ident list"

section \<open>Cached lookups\<close>

definition identity_row_of :: "auth_db \<Rightarrow> ident \<Rightarrow> identity_row option" where
  "identity_row_of db i = sql_get (\<lambda>r. id_id r = i) (av_identities db)"

definition put_identity_cache :: "(ident, identity_row) timed_cache \<Rightarrow> auth_db \<Rightarrow> auth_db" where
  "put_identity_cache c db = db\<lparr>av_identity_cache := c\<rparr>"

definition getIdentity :: "int \<Rightarrow> ident \<Rightarrow> auth_db \<Rightarrow> identity_row option \<times> auth_db" where
  "getIdentity clock i db = (case cached_get clock (identity_row_of db) i (av_identity_cache db) of
     (row, c) \<Rightarrow> (row, put_identity_cache c db))"

definition invalidateIdentityCache :: "ident \<Rightarrow> auth_db \<Rightarrow> auth_db" where
  \<comment> \<open>an empty id is falsy and invalidates nothing\<close>
  "invalidateIdentityCache i db = (if i = [] then db else put_identity_cache (cache_delete i (av_identity_cache db)) db)"

definition forum_row_of :: "auth_db \<Rightarrow> ident \<Rightarrow> forum_row option" where
  "forum_row_of db i = sql_get (\<lambda>r. fo_id r = i) (av_forums db)"

definition put_forum_cache :: "(ident, forum_row) timed_cache \<Rightarrow> auth_db \<Rightarrow> auth_db" where
  "put_forum_cache c db = db\<lparr>av_forum_cache := c\<rparr>"

definition getForum :: "int \<Rightarrow> ident \<Rightarrow> auth_db \<Rightarrow> forum_row option \<times> auth_db" where
  "getForum clock i db = (case cached_get clock (forum_row_of db) i (av_forum_cache db) of
     (row, c) \<Rightarrow> (row, put_forum_cache c db))"

definition invalidateForumCache :: "ident \<Rightarrow> auth_db \<Rightarrow> auth_db" where
  "invalidateForumCache i db = (if i = [] then db else put_forum_cache (cache_delete i (av_forum_cache db)) db)"

definition topic_row_of :: "auth_db \<Rightarrow> ident \<Rightarrow> topic_row option" where
  "topic_row_of db i = sql_get (\<lambda>r. to_id r = i) (av_topics db)"

definition put_topic_cache :: "(ident, topic_row) timed_cache \<Rightarrow> auth_db \<Rightarrow> auth_db" where
  "put_topic_cache c db = db\<lparr>av_topic_cache := c\<rparr>"

definition getTopicCached :: "int \<Rightarrow> ident \<Rightarrow> auth_db \<Rightarrow> topic_row option \<times> auth_db" where
  "getTopicCached clock i db = (case cached_get clock (topic_row_of db) i (av_topic_cache db) of
     (row, c) \<Rightarrow> (row, put_topic_cache c db))"

section \<open>Identities\<close>

definition new_identity ::
  "ident \<Rightarrow> js_string \<Rightarrow> string \<Rightarrow> ident option \<Rightarrow> js_string option \<Rightarrow> js_string option \<Rightarrow> string option \<Rightarrow> iso_time \<Rightarrow> identity_row" where
  "new_identity i name kind parent avatar username password now = \<lparr>id_id = i, id_tenant = None, id_display_name = name,
     id_kind = kind, id_parent = parent, id_avatar = avatar, id_username = username, id_password_hash = password,
     id_location = None, id_signature = None, id_theme = None, id_private_email = None,
     id_quick_reply_desktop = None, id_quick_reply_mobile = None, id_created_at = now, id_updated_at = now\<rparr>"

definition insert_identity :: "identity_row \<Rightarrow> auth_db \<Rightarrow> store_error + auth_db" where
  \<comment> \<open>the primary key and the unique index on user names\<close>
  "insert_identity row db =
    (if sql_exists (\<lambda>r. id_id r = id_id row \<or> id_username row \<noteq> None \<and> id_username r = id_username row) (av_identities db)
     then Inl Store_constraint else Inr (db\<lparr>av_identities := sql_insert row (av_identities db)\<rparr>))"

definition createIdentity where
  "createIdentity clock now i name kind avatar parent db =
    (case insert_identity (new_identity i name kind parent avatar None None now) db of
       Inl e \<Rightarrow> Inl e | Inr db' \<Rightarrow> Inr (getIdentity clock i db'))"

definition createIdentityWithPassword where
  "createIdentityWithPassword clock now i name username passwordHash kind avatar db =
    (case insert_identity (new_identity i name kind None avatar (Some username) (Some passwordHash) now) db of
       Inl e \<Rightarrow> Inl e | Inr db' \<Rightarrow> Inr (getIdentity clock i db'))"

record identity_updates =
  iu_displayName :: "js_string option"
  iu_avatarUrl :: "js_string option option"
  iu_location :: "js_string option option"
  iu_signature :: "js_string option option"
  iu_theme :: "js_string option option"

definition or_existing :: "'a option \<Rightarrow> 'a \<Rightarrow> 'a" where
  "or_existing u x = (case u of None \<Rightarrow> x | Some y \<Rightarrow> y)"

definition updateIdentity ::
  "int \<Rightarrow> iso_time \<Rightarrow> ident \<Rightarrow> identity_updates \<Rightarrow> auth_db \<Rightarrow> (store_error + identity_row option) \<times> auth_db" where
  "updateIdentity clock now i u db = (case getIdentity clock i db of
     (None, db1) \<Rightarrow> (Inl (Store_error ''identity not found''), db1)
   | (Some existing, db1) \<Rightarrow>
       let db2 = db1\<lparr>av_identities := sql_update (\<lambda>r. id_id r = i)
             (\<lambda>r. r\<lparr>id_display_name := or_existing (iu_displayName u) (id_display_name existing),
                id_avatar := or_existing (iu_avatarUrl u) (id_avatar existing),
                id_location := or_existing (iu_location u) (id_location existing),
                id_signature := or_existing (iu_signature u) (id_signature existing),
                id_theme := or_existing (iu_theme u) (id_theme existing), id_updated_at := now\<rparr>) (av_identities db1)\<rparr>
       in (case getIdentity clock i (invalidateIdentityCache i db2) of (row, db3) \<Rightarrow> (Inr row, db3)))"

definition setIdentityPrivateEmail where
  "setIdentityPrivateEmail clock now i email db = (case getIdentity clock i db of
     (None, db1) \<Rightarrow> (Inl (Store_error ''identity not found''), db1)
   | (Some _, db1) \<Rightarrow> (Inr (), db1\<lparr>av_identities := sql_update (\<lambda>r. id_id r = i)
        (\<lambda>r. r\<lparr>id_private_email := email, id_updated_at := now\<rparr>) (av_identities db1)\<rparr>))"

definition setIdentityQuickReplyPreferences where
  "setIdentityQuickReplyPreferences clock now i desktop mobile db = (case getIdentity clock i db of
     (None, db1) \<Rightarrow> (Inl (Store_error ''identity not found''), db1)
   | (Some _, db1) \<Rightarrow> (Inr (), invalidateIdentityCache i (db1\<lparr>av_identities := sql_update (\<lambda>r. id_id r = i)
        (\<lambda>r. r\<lparr>id_quick_reply_desktop := Some desktop, id_quick_reply_mobile := Some mobile, id_updated_at := now\<rparr>)
        (av_identities db1)\<rparr>)))"

definition setIdentityPassword ::
  "iso_time \<Rightarrow> ident \<Rightarrow> js_string \<Rightarrow> string option \<Rightarrow> auth_db \<Rightarrow> store_error + auth_db" where
  "setIdentityPassword now i username passwordHash db =
    (if sql_exists (\<lambda>r. id_id r \<noteq> i \<and> id_username r = Some username) (av_identities db)
        \<and> sql_exists (\<lambda>r. id_id r = i) (av_identities db)
     then Inl Store_constraint
     else Inr (invalidateIdentityCache i (db\<lparr>av_identities := sql_update (\<lambda>r. id_id r = i)
        (\<lambda>r. r\<lparr>id_username := Some username, id_password_hash := passwordHash, id_updated_at := now\<rparr>) (av_identities db)\<rparr>)))"

definition getPersonaByDisplayName :: "js_string \<Rightarrow> auth_db \<Rightarrow> identity_row option" where
  "getPersonaByDisplayName name db =
    sql_get (\<lambda>r. id_display_name r = name \<and> id_kind r = ''persona'') (av_identities db)"

definition getOrCreatePersona ::
  "int \<Rightarrow> iso_time \<Rightarrow> ident \<Rightarrow> js_string \<Rightarrow> ident \<Rightarrow> auth_db \<Rightarrow> store_error + (identity_row option \<times> auth_db)" where
  "getOrCreatePersona clock now i displayName parent db =
    (let trimmed = js_trim displayName in
     case getPersonaByDisplayName trimmed db of
       Some existing \<Rightarrow>
         let db' = (if id_parent existing = None \<or> id_parent existing = Some []
               then db\<lparr>av_identities := sql_update (\<lambda>r. id_id r = id_id existing)
                 (\<lambda>r. r\<lparr>id_parent := Some parent, id_updated_at := now\<rparr>) (av_identities db)\<rparr> else db)
         in Inr (getIdentity clock (id_id existing) db')
     | None \<Rightarrow> createIdentity clock now i trimmed ''persona'' None (Some parent) db)"

definition isDisplayNameTakenByOther :: "js_string \<Rightarrow> ident \<Rightarrow> auth_db \<Rightarrow> bool" where
  "isDisplayNameTakenByOther name i db =
    sql_exists (\<lambda>r. sqlite_lower (id_display_name r) = sqlite_lower name \<and> id_id r \<noteq> i) (av_identities db)"

definition getIdentityByUsername :: "js_string \<Rightarrow> auth_db \<Rightarrow> identity_row option" where
  \<comment> \<open>\<^verbatim>\<open>collate nocase\<close> folds the ASCII letters\<close>
  "getIdentityByUsername name db =
    sql_get (\<lambda>r. map_option sqlite_lower (id_username r) = Some (sqlite_lower name)) (av_identities db)"

section \<open>Forums\<close>

definition createForum where
  "createForum clock now i name description cwd parent category status visibility prePrompt db =
    (if sql_exists (\<lambda>f. fo_id f = i) (av_forums db)
        \<or> (case parent of None \<Rightarrow> False | Some p \<Rightarrow> \<not> sql_exists (\<lambda>f. fo_id f = p) (av_forums db))
     then Inl Store_constraint
     else let row = \<lparr>fo_id = i, fo_tenant = None, fo_parent = parent, fo_category = category, fo_name = name,
                fo_description = description, fo_cwd = cwd, fo_pre_prompt = prePrompt, fo_status = status,
                fo_visibility = visibility, fo_archived_at = (if status = ''archived'' then Some now else None),
                fo_created_at = now, fo_updated_at = now\<rparr>
          in Inr (getForum clock i (db\<lparr>av_forums := sql_insert row (av_forums db)\<rparr>)))"

record forum_updates =
  fu_name :: "js_string option"
  fu_description :: "js_string option option"
  fu_cwd :: "js_string option option"
  fu_pre_prompt :: "js_string option option"
  fu_parent :: "ident option option"
  fu_category :: "js_string option option"
  fu_status :: "string option"
  fu_visibility :: "string option"
  fu_archived_at :: "iso_time option option"

definition updateForum ::
  "int \<Rightarrow> iso_time \<Rightarrow> ident \<Rightarrow> forum_updates \<Rightarrow> auth_db \<Rightarrow> (store_error + forum_row option) \<times> auth_db" where
  "updateForum clock now i u db = (case getForum clock i db of
     (None, db1) \<Rightarrow> (Inr None, db1)
   | (Some forum, db1) \<Rightarrow>
       let nextStatus = or_existing (fu_status u) (fo_status forum);
           nextArchivedAt = (case fu_archived_at u of Some a \<Rightarrow> a
             | None \<Rightarrow> if nextStatus = ''archived''
                 then Some (case fo_archived_at forum of None \<Rightarrow> now | Some a \<Rightarrow> a) else None);
           parent = or_existing (fu_parent u) (fo_parent forum)
       in if (case parent of None \<Rightarrow> False | Some p \<Rightarrow> \<not> sql_exists (\<lambda>f. fo_id f = p) (av_forums db1))
             \<and> sql_exists (\<lambda>f. fo_id f = i) (av_forums db1)
          then (Inl Store_constraint, db1)
          else let db2 = db1\<lparr>av_forums := sql_update (\<lambda>f. fo_id f = i)
                 (\<lambda>f. f\<lparr>fo_parent := parent, fo_category := or_existing (fu_category u) (fo_category forum),
                    fo_name := or_existing (fu_name u) (fo_name forum),
                    fo_description := or_existing (fu_description u) (fo_description forum),
                    fo_cwd := or_existing (fu_cwd u) (fo_cwd forum),
                    fo_pre_prompt := or_existing (fu_pre_prompt u) (fo_pre_prompt forum),
                    fo_status := nextStatus, fo_visibility := or_existing (fu_visibility u) (fo_visibility forum),
                    fo_archived_at := nextArchivedAt, fo_updated_at := now\<rparr>) (av_forums db1)\<rparr>
            in (case getForum clock i (invalidateForumCache i db2) of (row, db3) \<Rightarrow> (Inr row, db3)))"

definition deleteForum :: "bool \<Rightarrow> ident \<Rightarrow> auth_db \<Rightarrow> (store_error + bool) \<times> auth_db" where
  \<comment> \<open>the flag says that a row outside these tables refers to the forum; the statements run without a transaction\<close>
  "deleteForum referenced i db =
    (if sql_count (\<lambda>t. to_forum t = i) (av_topics db) > 0 then (Inr False, db)
     else let db1 = db\<lparr>av_rules := sql_delete (\<lambda>r. ar_scope_kind r = Scope_forum \<and> ar_scope_id r = i) (av_rules db)\<rparr> in
       if sql_count (\<lambda>f. fo_id f = i) (av_forums db1) = 0 then (Inr False, db1)
       else if referenced \<or> sql_exists (\<lambda>f. fo_parent f = Some i \<and> fo_id f \<noteq> i) (av_forums db1) then (Inl Store_constraint, db1)
       else (Inr True, invalidateForumCache i (db1\<lparr>av_forums := sql_delete (\<lambda>f. fo_id f = i) (av_forums db1)\<rparr>)))"

section \<open>Roles\<close>

definition identity_exists :: "ident \<Rightarrow> auth_db \<Rightarrow> bool" where
  "identity_exists i db = sql_exists (\<lambda>r. id_id r = i) (av_identities db)"

definition tenant_ok :: "ident option \<Rightarrow> auth_db \<Rightarrow> bool" where
  "tenant_ok t db = (case t of None \<Rightarrow> True | Some x \<Rightarrow> x \<in> set (av_tenant_ids db))"

definition getRole :: "ident \<Rightarrow> auth_db \<Rightarrow> role_row option" where
  "getRole i db = sql_get (\<lambda>r. ro_id r = i) (av_roles db)"

definition createRole ::
  "iso_time \<Rightarrow> ident \<Rightarrow> string \<Rightarrow> string list \<Rightarrow> ident option \<Rightarrow> auth_db \<Rightarrow> store_error + (role_row option \<times> auth_db)" where
  "createRole now i name permissions tenant db =
    (if sql_exists (\<lambda>r. ro_id r = i) (av_roles db) \<or> \<not> tenant_ok tenant db then Inl Store_constraint
     else let db' = db\<lparr>av_roles := sql_insert \<lparr>ro_id = i, ro_tenant = tenant, ro_name = name,
              ro_permissions = Some permissions, ro_created_at = now\<rparr> (av_roles db)\<rparr> in Inr (getRole i db', db'))"

definition getRoleByName :: "string \<Rightarrow> ident option \<Rightarrow> auth_db \<Rightarrow> role_row option" where
  "getRoleByName name tenant db = sql_get (\<lambda>r. ro_name r = name \<and> ro_tenant r = tenant) (av_roles db)"

definition listRoles :: "ident option \<Rightarrow> auth_db \<Rightarrow> role_row list" where
  "listRoles tenant db = sql_order_by ro_created_at
     (if truthy_id tenant then sql_select (\<lambda>r. ro_tenant r = tenant \<or> ro_tenant r = None) (av_roles db) else av_roles db)"

definition updateRole ::
  "ident \<Rightarrow> string option \<Rightarrow> string list option \<Rightarrow> auth_db \<Rightarrow> store_error + (role_row option \<times> auth_db)" where
  "updateRole i name permissions db = (case getRole i db of
     None \<Rightarrow> Inl (Store_error ''role not found'')
   | Some existing \<Rightarrow> let db' = db\<lparr>av_roles := sql_update (\<lambda>r. ro_id r = i)
         (\<lambda>r. r\<lparr>ro_name := or_existing name (ro_name existing),
            ro_permissions := (case permissions of None \<Rightarrow> ro_permissions existing | Some ps \<Rightarrow> Some ps)\<rparr>) (av_roles db)\<rparr>
       in Inr (getRole i db', db'))"

definition deleteRole :: "ident \<Rightarrow> auth_db \<Rightarrow> auth_db" where
  "deleteRole i db = db\<lparr>av_identity_roles := sql_delete (\<lambda>r. ir_role r = i) (av_identity_roles db),
     av_roles := sql_delete (\<lambda>r. ro_id r = i) (av_roles db)\<rparr>"

definition getIdentityRole :: "ident \<Rightarrow> ident \<Rightarrow> ident option \<Rightarrow> auth_db \<Rightarrow> identity_role_row option" where
  "getIdentityRole i role tenant db =
    sql_get (\<lambda>r. ir_identity r = i \<and> ir_role r = role \<and> ir_tenant r = tenant) (av_identity_roles db)"

definition assignRole ::
  "iso_time \<Rightarrow> ident \<Rightarrow> ident \<Rightarrow> ident option \<Rightarrow> auth_db \<Rightarrow> store_error + (identity_role_row option \<times> auth_db)" where
  \<comment> \<open>\<^verbatim>\<open>insert or ignore\<close>: a repeated key is ignored, a dangling reference is not; a null tenant never conflicts\<close>
  "assignRole now i role tenant db =
    (if tenant \<noteq> None \<and> getIdentityRole i role tenant db \<noteq> None then Inr (getIdentityRole i role tenant db, db)
     else if \<not> identity_exists i db \<or> getRole role db = None \<or> \<not> tenant_ok tenant db then Inl Store_constraint
     else let db' = db\<lparr>av_identity_roles := sql_insert \<lparr>ir_identity = i, ir_role = role, ir_tenant = tenant,
              ir_created_at = now\<rparr> (av_identity_roles db)\<rparr> in Inr (getIdentityRole i role tenant db', db'))"

definition revokeRole :: "ident \<Rightarrow> ident \<Rightarrow> ident option \<Rightarrow> auth_db \<Rightarrow> auth_db" where
  "revokeRole i role tenant db = db\<lparr>av_identity_roles :=
     sql_delete (\<lambda>r. ir_identity r = i \<and> ir_role r = role \<and> ir_tenant r = tenant) (av_identity_roles db)\<rparr>"

definition listIdentityRoles :: "ident \<Rightarrow> ident option \<Rightarrow> auth_db \<Rightarrow> role_row list" where
  "listIdentityRoles i tenant db =
    [r. r \<leftarrow> av_roles db, ir \<leftarrow> av_identity_roles db, ir_role ir = ro_id r \<and> ir_identity ir = i
       \<and> (truthy_id tenant \<longrightarrow> ir_tenant ir = tenant \<or> ir_tenant ir = None)]"

fun collect_permissions :: "role_row list \<Rightarrow> string list \<Rightarrow> store_error + string list" where
  "collect_permissions [] acc = Inr acc"
| "collect_permissions (r # rs) acc = (case ro_permissions r of
     None \<Rightarrow> Inl (Store_error ''malformed permissions'')
   | Some ps \<Rightarrow> collect_permissions rs (acc @ ps))"

definition getIdentityPermissions :: "ident \<Rightarrow> ident option \<Rightarrow> auth_db \<Rightarrow> store_error + string list" where
  "getIdentityPermissions i tenant db = (case collect_permissions (listIdentityRoles i tenant db) [] of
     Inl e \<Rightarrow> Inl e | Inr ps \<Rightarrow> Inr (set_to_array ps))"

definition hasPermission :: "ident \<Rightarrow> string \<Rightarrow> ident option \<Rightarrow> auth_db \<Rightarrow> store_error + bool" where
  "hasPermission i permission tenant db = (case getIdentityPermissions i tenant db of
     Inl e \<Rightarrow> Inl e | Inr ps \<Rightarrow> Inr (permission \<in> set ps \<or> ''*'' \<in> set ps))"

section \<open>Access rules\<close>

definition listAccessRules :: "rule_scope_kind \<Rightarrow> ident \<Rightarrow> auth_db \<Rightarrow> access_rule_row list" where
  "listAccessRules kind i db = sql_order_by ar_created_at (sql_select (\<lambda>r. ar_scope_kind r = kind \<and> ar_scope_id r = i) (av_rules db))"

definition same_rule :: "access_rule_row \<Rightarrow> access_rule_row \<Rightarrow> bool" where
  "same_rule a b \<longleftrightarrow> ar_scope_kind a = ar_scope_kind b \<and> ar_scope_id a = ar_scope_id b
     \<and> ar_principal_kind a = ar_principal_kind b \<and> ar_principal_id a = ar_principal_id b \<and> ar_action a = ar_action b"

definition createAccessRule :: "access_rule_row \<Rightarrow> auth_db \<Rightarrow> store_error + (access_rule_row \<times> auth_db)" where
  \<comment> \<open>the upsert goes by a unique index, in which null principals are all distinct\<close>
  "createAccessRule row db =
    (if ar_principal_id row \<noteq> None \<and> sql_exists (same_rule row) (av_rules db)
     then let db' = db\<lparr>av_rules := sql_update (same_rule row)
              (\<lambda>r. r\<lparr>ar_effect := ar_effect row, ar_created_at := ar_created_at row\<rparr>) (av_rules db)\<rparr>
          in (case sql_get (same_rule row) (av_rules db') of
                None \<Rightarrow> Inl (Store_error ''access rule not found'') | Some r \<Rightarrow> Inr (r, db'))
     else if sql_exists (\<lambda>r. ar_id r = ar_id row) (av_rules db) then Inl Store_constraint
     else let db' = db\<lparr>av_rules := sql_insert row (av_rules db)\<rparr>
          in (case sql_get (same_rule row) (av_rules db') of
                None \<Rightarrow> Inl (Store_error ''access rule not found'') | Some r \<Rightarrow> Inr (r, db')))"

definition deleteAccessRule :: "ident \<Rightarrow> auth_db \<Rightarrow> bool \<times> auth_db" where
  "deleteAccessRule i db = (sql_count (\<lambda>r. ar_id r = i) (av_rules db) > 0,
     db\<lparr>av_rules := sql_delete (\<lambda>r. ar_id r = i) (av_rules db)\<rparr>)"

section \<open>Login sessions\<close>

definition ACCESS_TOKEN_TTL_DAYS :: int where "ACCESS_TOKEN_TTL_DAYS = 7"

definition createAuthSession ::
  "(js_string \<Rightarrow> string) \<Rightarrow> int \<Rightarrow> iso_time \<Rightarrow> js_string \<Rightarrow> ident \<Rightarrow> int option \<Rightarrow> auth_method option \<Rightarrow> auth_db \<Rightarrow>
   store_error + (auth_session_row \<times> auth_db)" where
  "createAuthSession H clock now token i ttlDays method db =
    (let row = \<lparr>as_token_hash = H token, as_identity = i,
           as_method = (case method of None \<Rightarrow> Method_internal | Some m \<Rightarrow> m), as_authenticated_at = now, as_created_at = now,
           as_expires_at = clock + (case ttlDays of None \<Rightarrow> ACCESS_TOKEN_TTL_DAYS | Some d \<Rightarrow> d) * 24 * 60 * 60 * 1000\<rparr>
     in if sql_exists (\<lambda>r. as_token_hash r = H token) (av_sessions db) \<or> \<not> identity_exists i db then Inl Store_constraint
        else Inr (row, db\<lparr>av_sessions := sql_insert row (av_sessions db)\<rparr>))"

definition getAuthSession :: "(js_string \<Rightarrow> string) \<Rightarrow> iso_time \<Rightarrow> js_string \<Rightarrow> auth_db \<Rightarrow> auth_session_row option" where
  "getAuthSession H now token db = sql_get (\<lambda>r. as_token_hash r = H token \<and> as_expires_at r > now) (av_sessions db)"

definition deleteAuthSessionByHash :: "string \<Rightarrow> auth_db \<Rightarrow> auth_db" where
  "deleteAuthSessionByHash h db = db\<lparr>av_sessions := sql_delete (\<lambda>r. as_token_hash r = h) (av_sessions db)\<rparr>"

definition deleteAuthSession :: "(js_string \<Rightarrow> string) \<Rightarrow> js_string \<Rightarrow> auth_db \<Rightarrow> auth_db" where
  "deleteAuthSession H token db = deleteAuthSessionByHash (H token) db"

definition deleteAuthSessionsForIdentity :: "ident \<Rightarrow> string option \<Rightarrow> auth_db \<Rightarrow> auth_db" where
  "deleteAuthSessionsForIdentity i keep db = db\<lparr>av_sessions :=
     sql_delete (\<lambda>r. as_identity r = i \<and> (truthy_id keep \<longrightarrow> Some (as_token_hash r) \<noteq> keep)) (av_sessions db)\<rparr>"

definition cleanupExpiredAuthSessions :: "iso_time \<Rightarrow> auth_db \<Rightarrow> nat \<times> auth_db" where
  "cleanupExpiredAuthSessions now db = (sql_count (\<lambda>r. as_expires_at r \<le> now) (av_sessions db),
     db\<lparr>av_sessions := sql_delete (\<lambda>r. as_expires_at r \<le> now) (av_sessions db)\<rparr>)"

section \<open>API keys and impersonation tokens\<close>

definition createApiKey :: "api_key_row \<Rightarrow> auth_db \<Rightarrow> store_error + (api_key_row \<times> auth_db)" where
  "createApiKey row db =
    (let fresh = row\<lparr>ak_last_used_at := None, ak_revoked_at := None\<rparr> in
     if sql_exists (\<lambda>r. ak_id r = ak_id row \<or> ak_token_hash r = ak_token_hash row) (av_api_keys db)
        \<or> \<not> identity_exists (ak_identity row) db
     then Inl Store_constraint else Inr (fresh, db\<lparr>av_api_keys := sql_insert fresh (av_api_keys db)\<rparr>))"

definition listApiKeys :: "ident \<Rightarrow> auth_db \<Rightarrow> api_key_row list" where
  "listApiKeys i db = sql_order_by (\<lambda>r. - ak_created_at r) (sql_select (\<lambda>r. ak_identity r = i) (av_api_keys db))"

definition getApiKeyByHash :: "string \<Rightarrow> auth_db \<Rightarrow> api_key_row option" where
  "getApiKeyByHash h db = sql_get (\<lambda>r. ak_token_hash r = h) (av_api_keys db)"

definition touchApiKeyLastUsed :: "iso_time \<Rightarrow> ident \<Rightarrow> auth_db \<Rightarrow> auth_db" where
  "touchApiKeyLastUsed now i db = db\<lparr>av_api_keys :=
     sql_update (\<lambda>r. ak_id r = i) (\<lambda>r. r\<lparr>ak_last_used_at := Some now\<rparr>) (av_api_keys db)\<rparr>"

definition revokeApiKey :: "iso_time \<Rightarrow> ident \<Rightarrow> ident \<Rightarrow> auth_db \<Rightarrow> bool \<times> auth_db" where
  "revokeApiKey now owner i db =
    (let hit = (\<lambda>r. ak_id r = i \<and> ak_identity r = owner \<and> ak_revoked_at r = None) in
     (sql_count hit (av_api_keys db) > 0,
      db\<lparr>av_api_keys := sql_update hit (\<lambda>r. r\<lparr>ak_revoked_at := Some now\<rparr>) (av_api_keys db)\<rparr>))"

definition createImpersonationToken :: "impersonation_row \<Rightarrow> auth_db \<Rightarrow> store_error + (impersonation_row \<times> auth_db)" where
  "createImpersonationToken row db =
    (let fresh = row\<lparr>im_last_used_at := None, im_revoked_at := None\<rparr> in
     if sql_exists (\<lambda>r. im_id r = im_id row \<or> im_token_hash r = im_token_hash row) (av_impersonations db)
        \<or> \<not> identity_exists (im_owner row) db \<or> \<not> identity_exists (im_identity row) db
     then Inl Store_constraint else Inr (fresh, db\<lparr>av_impersonations := sql_insert fresh (av_impersonations db)\<rparr>))"

definition listImpersonationTokens :: "ident \<Rightarrow> auth_db \<Rightarrow> impersonation_row list" where
  \<comment> \<open>the join drops tokens whose identity is gone\<close>
  "listImpersonationTokens owner db = sql_order_by (\<lambda>r. - im_created_at r)
     (sql_select (\<lambda>r. im_owner r = owner \<and> identity_exists (im_identity r) db) (av_impersonations db))"

definition getImpersonationTokenByHash :: "string \<Rightarrow> auth_db \<Rightarrow> impersonation_row option" where
  "getImpersonationTokenByHash h db = sql_get (\<lambda>r. im_token_hash r = h) (av_impersonations db)"

definition touchImpersonationTokenLastUsed :: "iso_time \<Rightarrow> ident \<Rightarrow> auth_db \<Rightarrow> auth_db" where
  "touchImpersonationTokenLastUsed now i db = db\<lparr>av_impersonations :=
     sql_update (\<lambda>r. im_id r = i) (\<lambda>r. r\<lparr>im_last_used_at := Some now\<rparr>) (av_impersonations db)\<rparr>"

definition revokeImpersonationToken :: "iso_time \<Rightarrow> ident \<Rightarrow> ident \<Rightarrow> auth_db \<Rightarrow> bool \<times> auth_db" where
  "revokeImpersonationToken now owner i db =
    (let hit = (\<lambda>r. im_id r = i \<and> im_owner r = owner \<and> im_revoked_at r = None) in
     (sql_count hit (av_impersonations db) > 0,
      db\<lparr>av_impersonations := sql_update hit (\<lambda>r. r\<lparr>im_revoked_at := Some now\<rparr>) (av_impersonations db)\<rparr>))"

section \<open>WebAuthn\<close>

definition oldest_challenges :: "(challenge_row \<Rightarrow> bool) \<Rightarrow> nat \<Rightarrow> challenge_row table \<Rightarrow> ident list" where
  \<comment> \<open>\<^verbatim>\<open>select id ... order by created_at asc, id asc limit n\<close>\<close>
  "oldest_challenges p n t = map wc_id (take n (sql_order_by (\<lambda>c. (wc_created_at c, wc_id c)) (sql_select p t)))"

definition make_room :: "(challenge_row \<Rightarrow> bool) \<Rightarrow> nat \<Rightarrow> challenge_row table \<Rightarrow> challenge_row table" where
  \<comment> \<open>with \<open>count >= max\<close> the oldest \<open>count - max + 1\<close> go\<close>
  "make_room p limit t = (let n = sql_count p t in
     if n \<ge> limit then sql_delete (\<lambda>c. wc_id c \<in> set (oldest_challenges p (n - limit + 1) t)) t else t)"

definition createWebAuthnChallenge ::
  "int \<Rightarrow> iso_time \<Rightarrow> ident \<Rightarrow> js_string \<Rightarrow> ceremony \<Rightarrow> ident option \<Rightarrow> int option \<Rightarrow> auth_db \<Rightarrow> store_error + (challenge_row \<times> auth_db)" where
  "createWebAuthnChallenge clock createdAt i challenge ceremony identity ttlMs db =
    (let row = \<lparr>wc_id = i, wc_challenge = challenge, wc_ceremony = ceremony, wc_identity = identity,
           wc_expires_at = clock + (case ttlMs of None \<Rightarrow> 5 * 60000 | Some t \<Rightarrow> t), wc_created_at = createdAt\<rparr>;
         t1 = sql_delete (\<lambda>c. wc_expires_at c \<le> createdAt) (av_challenges db);
         t2 = (if truthy_id identity then make_room (\<lambda>c. wc_identity c = identity \<and> wc_ceremony c = ceremony) 20 t1 else t1);
         t3 = make_room (\<lambda>_. True) 10000 t2
     in if sql_exists (\<lambda>c. wc_id c = i) t3 \<or> (case identity of None \<Rightarrow> False | Some x \<Rightarrow> \<not> identity_exists x db)
        then Inl Store_constraint else Inr (row, db\<lparr>av_challenges := sql_insert row t3\<rparr>))"

definition consumeWebAuthnChallenge ::
  "iso_time \<Rightarrow> ident \<Rightarrow> ceremony \<Rightarrow> ident option \<Rightarrow> auth_db \<Rightarrow> challenge_row option \<times> auth_db" where
  "consumeWebAuthnChallenge now i ceremony identity db = (case sql_get (\<lambda>c. wc_id c = i) (av_challenges db) of
     None \<Rightarrow> (None, db)
   | Some row \<Rightarrow> let db' = db\<lparr>av_challenges := sql_delete (\<lambda>c. wc_id c = i) (av_challenges db)\<rparr> in
       if wc_ceremony row \<noteq> ceremony \<or> wc_identity row \<noteq> identity \<or> wc_expires_at row \<le> now then (None, db') else (Some row, db'))"

definition cleanupExpiredWebAuthnChallenges :: "iso_time \<Rightarrow> auth_db \<Rightarrow> nat \<times> auth_db" where
  "cleanupExpiredWebAuthnChallenges now db = (sql_count (\<lambda>c. wc_expires_at c \<le> now) (av_challenges db),
     db\<lparr>av_challenges := sql_delete (\<lambda>c. wc_expires_at c \<le> now) (av_challenges db)\<rparr>)"

definition getWebAuthnCredential :: "string \<Rightarrow> auth_db \<Rightarrow> credential_row option" where
  "getWebAuthnCredential i db = sql_get (\<lambda>c. cr_id c = i) (av_credentials db)"

definition createWebAuthnCredential :: "credential_row \<Rightarrow> auth_db \<Rightarrow> store_error + (credential_row option \<times> auth_db)" where
  "createWebAuthnCredential row db =
    (if sql_exists (\<lambda>c. cr_id c = cr_id row) (av_credentials db) \<or> \<not> identity_exists (cr_identity row) db then Inl Store_constraint
     else let db' = db\<lparr>av_credentials := sql_insert (row\<lparr>cr_last_used_at := None\<rparr>) (av_credentials db)\<rparr>
          in Inr (getWebAuthnCredential (cr_id row) db', db'))"

definition listWebAuthnCredentials :: "ident \<Rightarrow> auth_db \<Rightarrow> credential_row list" where
  "listWebAuthnCredentials i db = sql_order_by cr_created_at (sql_select (\<lambda>c. cr_identity c = i) (av_credentials db))"

definition updateWebAuthnCredentialUsage :: "iso_time \<Rightarrow> string \<Rightarrow> int \<Rightarrow> string \<Rightarrow> bool \<Rightarrow> auth_db \<Rightarrow> auth_db" where
  "updateWebAuthnCredentialUsage now i counter deviceType backedUp db = db\<lparr>av_credentials :=
     sql_update (\<lambda>c. cr_id c = i) (\<lambda>c. c\<lparr>cr_counter := counter, cr_device_type := deviceType, cr_backed_up := backedUp,
       cr_last_used_at := Some now, cr_updated_at := now\<rparr>) (av_credentials db)\<rparr>"

definition deleteWebAuthnCredential :: "ident \<Rightarrow> string \<Rightarrow> auth_db \<Rightarrow> bool \<times> auth_db" where
  "deleteWebAuthnCredential owner i db = (let hit = (\<lambda>c. cr_identity c = owner \<and> cr_id c = i) in
     (sql_count hit (av_credentials db) > 0, db\<lparr>av_credentials := sql_delete hit (av_credentials db)\<rparr>))"

definition countWebAuthnCredentials :: "ident \<Rightarrow> auth_db \<Rightarrow> nat" where
  "countWebAuthnCredentials i db = sql_count (\<lambda>c. cr_identity c = i) (av_credentials db)"

definition hasWebAuthnAdmin :: "auth_db \<Rightarrow> bool" where
  "hasWebAuthnAdmin db = sql_exists (\<lambda>c. sql_exists (\<lambda>r. id_id r = cr_identity c \<and> id_kind r = ''admin'') (av_identities db)) (av_credentials db)"

section \<open>Invites\<close>

datatype invite_result = Invite_ok invite_row | Invite_error string

definition getInvite :: "ident \<Rightarrow> auth_db \<Rightarrow> invite_row option" where
  "getInvite i db = sql_get (\<lambda>v. iv_id v = i) (av_invites db)"

definition getInviteByCode :: "string \<Rightarrow> auth_db \<Rightarrow> invite_row option" where
  "getInviteByCode code db = sql_get (\<lambda>v. iv_code v = code) (av_invites db)"

definition createInvite ::
  "iso_time \<Rightarrow> uuid_stream \<Rightarrow> ident \<Rightarrow> int \<Rightarrow> iso_time option \<Rightarrow> auth_db \<Rightarrow> store_error + (invite_row option \<times> auth_db)" where
  "createInvite now u createdBy maxUses expiresAt db =
    (let code = take 16 (filter (\<lambda>c. c \<noteq> CHR ''-'') (u 1)) in
     if sql_exists (\<lambda>v. iv_id v = u 0 \<or> iv_code v = code) (av_invites db) \<or> \<not> identity_exists createdBy db then Inl Store_constraint
     else let db' = db\<lparr>av_invites := sql_insert \<lparr>iv_id = u 0, iv_code = code, iv_created_by = createdBy, iv_max_uses = maxUses,
              iv_uses = 0, iv_expires_at = expiresAt, iv_created_at = now\<rparr> (av_invites db)\<rparr> in Inr (getInvite (u 0) db', db'))"

definition useInvite :: "iso_time \<Rightarrow> string \<Rightarrow> auth_db \<Rightarrow> invite_result \<times> auth_db" where
  "useInvite now code db = (case getInviteByCode code db of
     None \<Rightarrow> (Invite_error ''invite not found'', db)
   | Some invite \<Rightarrow>
       if (case iv_expires_at invite of None \<Rightarrow> False | Some e \<Rightarrow> now > e) then (Invite_error ''invite expired'', db)
       else if iv_uses invite \<ge> iv_max_uses invite then (Invite_error ''invite exhausted'', db)
       else let db' = db\<lparr>av_invites := sql_update (\<lambda>v. iv_id v = iv_id invite) (\<lambda>v. v\<lparr>iv_uses := iv_uses v + 1\<rparr>) (av_invites db)\<rparr>
            in (Invite_ok (case getInvite (iv_id invite) db' of None \<Rightarrow> invite | Some v \<Rightarrow> v), db'))"

definition listInvites :: "nat \<Rightarrow> nat \<Rightarrow> auth_db \<Rightarrow> invite_row list" where
  "listInvites page pageSize db = take pageSize (drop ((page - 1) * pageSize) (sql_order_by (\<lambda>v. - iv_created_at v) (av_invites db)))"

definition deleteInvite :: "ident \<Rightarrow> auth_db \<Rightarrow> auth_db" where
  "deleteInvite i db = db\<lparr>av_invites := sql_delete (\<lambda>v. iv_id v = i) (av_invites db)\<rparr>"

end
