(* ===== verification/Access_Control.thy ===== *)
theory Access_Control
  imports Auth_Store
begin

text \<open>
  Authentication and authorisation of a request: \<^verbatim>\<open>server/utils/access.ts\<close>, the scopes of
  \<^verbatim>\<open>server/utils/auth.ts\<close> and the handler of \<^verbatim>\<open>PATCH /admin/users/:userId\<close>. A request is its three
  credential headers. \<^verbatim>\<open>hashToken\<close> is \<open>H\<close>; the clock readings of one request are one instant \<open>now\<close>
  (the helpers run without yielding). The store and its caches are passed explicitly; an exception
  leaves the writes made before it.
\<close>

section \<open>Requests and errors\<close>

datatype header_value = Absent | Text js_string | Texts "js_string list"

record headers_request =
  rq_authorization :: header_value
  rq_x_api_key :: header_value
  rq_cookie :: header_value

datatype http_error = Unauthorized string | Forbidden string | Not_found string | Bad_request string | Internal

section \<open>decodeURIComponent\<close>

definition hex_value :: "code_unit \<Rightarrow> nat option" where
  "hex_value c = (let n = unat c in
     if 48 \<le> n \<and> n \<le> 57 then Some (n - 48)
     else if 65 \<le> n \<and> n \<le> 70 then Some (n - 55)
     else if 97 \<le> n \<and> n \<le> 102 then Some (n - 87) else None)"

definition hex_byte :: "js_string \<Rightarrow> (nat \<times> js_string) option" where
  \<comment> \<open>the two digits after a per cent sign\<close>
  "hex_byte s = (case s of
     a # b # r \<Rightarrow> (case (hex_value a, hex_value b) of (Some x, Some y) \<Rightarrow> Some (16 * x + y, r) | _ \<Rightarrow> None)
   | _ \<Rightarrow> None)"

fun continuation_bytes :: "nat \<Rightarrow> nat \<Rightarrow> js_string \<Rightarrow> (nat \<times> js_string) option" where
  "continuation_bytes 0 acc s = Some (acc, s)"
| "continuation_bytes (Suc n) acc s = (case s of
     [] \<Rightarrow> None
   | c # r \<Rightarrow> if c \<noteq> 37 then None else (case hex_byte r of
       None \<Rightarrow> None
     | Some (b, r') \<Rightarrow> if b div 64 = 2 then continuation_bytes n (64 * acc + b mod 64) r' else None))"

definition leading_byte :: "nat \<Rightarrow> (nat \<times> nat \<times> nat) option" where
  \<comment> \<open>continuation bytes to follow, payload, and the least code point of that length\<close>
  "leading_byte b =
    (if b < 0xC0 then None else if b < 0xE0 then Some (1, b - 0xC0, 0x80)
     else if b < 0xF0 then Some (2, b - 0xE0, 0x800) else if b < 0xF8 then Some (3, b - 0xF0, 0x10000) else None)"

definition utf16_encode :: "nat \<Rightarrow> js_string" where
  "utf16_encode n = (if n < 0x10000 then [word_of_nat n]
     else [word_of_nat (0xD800 + (n - 0x10000) div 0x400), word_of_nat (0xDC00 + (n - 0x10000) mod 0x400)])"

lemma hex_byte_length: "hex_byte s = Some (b, r) \<Longrightarrow> length r < length s"
  by (auto simp: hex_byte_def split: list.splits option.splits)

lemma continuation_bytes_length: "continuation_bytes n acc s = Some (b, r) \<Longrightarrow> length r \<le> length s"
proof (induction n acc s rule: continuation_bytes.induct)
  case (2 n acc s)
  then show ?case by (fastforce split: list.splits option.splits if_splits dest: hex_byte_length)
qed simp

function decodeURIComponent :: "js_string \<Rightarrow> js_string option" where
  "decodeURIComponent [] = Some []"
| "decodeURIComponent (c # s) =
    (if c \<noteq> 37 then map_option ((#) c) (decodeURIComponent s)
     else case hex_byte s of
       None \<Rightarrow> None
     | Some (b, s1) \<Rightarrow>
         if b < 0x80 then map_option ((#) (word_of_nat b)) (decodeURIComponent s1)
         else case leading_byte b of
           None \<Rightarrow> None
         | Some (n, payload, least) \<Rightarrow> (case continuation_bytes n payload s1 of
             None \<Rightarrow> None
           | Some (cp, s2) \<Rightarrow>
               if cp < least \<or> 0x10FFFF < cp \<or> 0xD800 \<le> cp \<and> cp \<le> 0xDFFF then None
               else map_option ((@) (utf16_encode cp)) (decodeURIComponent s2)))"
  by pat_completeness auto
termination
  by (relation "measure length")
     (auto dest!: hex_byte_length continuation_bytes_length)

section \<open>The session cookie\<close>

definition FORUM_SESSION_COOKIE :: "bool \<Rightarrow> js_string" where
  \<comment> \<open>the argument says whether the base URL is https\<close>
  "FORUM_SESSION_COOKIE https = lit (if https then ''__Host-cforum_session'' else ''cforum_session'')"

fun js_split :: "code_unit \<Rightarrow> js_string \<Rightarrow> js_string \<Rightarrow> js_string list" where
  "js_split sep cur [] = [cur]"
| "js_split sep cur (c # s) = (if c = sep then cur # js_split sep [] s else js_split sep (cur @ [c]) s)"

fun find_cookie :: "js_string \<Rightarrow> js_string list \<Rightarrow> js_string option" where
  "find_cookie name [] = None"
| "find_cookie name (part # parts) =
    (if 61 \<notin> set part then find_cookie name parts
     else if js_trim (takeWhile (\<lambda>c. c \<noteq> 61) part) = name
       then decodeURIComponent (js_trim (tl (dropWhile (\<lambda>c. c \<noteq> 61) part)))
     else find_cookie name parts)"

definition readCookie :: "header_value \<Rightarrow> js_string \<Rightarrow> js_string option" where
  "readCookie header name = (case header of Text s \<Rightarrow> find_cookie name (js_split 59 [] s) | _ \<Rightarrow> None)"

section \<open>Scopes\<close>

datatype auth_scope = Scope_read | Scope_write | Scope_admin | Scope_star
datatype auth_type = Session | ApiKey | Impersonation
datatype auth_source = From_cookie | From_authorization | From_api_key_header

record auth_context =
  ac_identityId :: ident
  ac_authType :: auth_type
  ac_authSource :: auth_source
  ac_authMethod :: "auth_method option"
  ac_authenticatedAt :: "iso_time option"
  ac_scopes :: "auth_scope list option"
  ac_tokenId :: string
  ac_ownerIdentityId :: "ident option"

definition scope_of :: "js_string option \<Rightarrow> auth_scope option" where
  \<comment> \<open>lower-casing: no letter outside ASCII becomes a letter of these words\<close>
  "scope_of item = (case item of
     None \<Rightarrow> None
   | Some s \<Rightarrow> let w = sqlite_lower (js_trim s) in
       if w = lit ''read'' then Some Scope_read else if w = lit ''write'' then Some Scope_write
       else if w = lit ''admin'' then Some Scope_admin else if w = lit ''*'' then Some Scope_star else None)"

definition parseScopes :: "scopes_column \<Rightarrow> http_error + auth_scope list" where
  \<comment> \<open>with the \<^verbatim>\<open>JSON.parse\<close> of the column and the default fallback\<close>
  "parseScopes column = (case column of
     Sc_malformed \<Rightarrow> Inl Internal
   | Sc_not_array \<Rightarrow> Inr [Scope_read, Scope_write]
   | Sc_items items \<Rightarrow> let normalized = List.map_filter scope_of items in
       Inr (if normalized = [] then [Scope_read, Scope_write] else normalized))"

definition isTokenExpired :: "iso_time option \<Rightarrow> int \<Rightarrow> bool" where
  "isTokenExpired expiresAt now = (case expiresAt of None \<Rightarrow> False | Some e \<Rightarrow> e \<le> now)"

definition hasScope :: "auth_context \<Rightarrow> auth_scope \<Rightarrow> bool" where
  "hasScope context scope = (case ac_scopes context of
     None \<Rightarrow> True
   | Some scopes \<Rightarrow>
       if Scope_star \<in> set scopes then True
       else if Scope_admin \<in> set scopes then True
       else if scope = Scope_read then Scope_read \<in> set scopes \<or> Scope_write \<in> set scopes
       else scope \<in> set scopes)"

definition requireScope :: "auth_context option \<Rightarrow> auth_scope \<Rightarrow> http_error + auth_context" where
  "requireScope context scope = (case context of
     None \<Rightarrow> Inl (Unauthorized ''Authentication required'')
   | Some c \<Rightarrow> if \<not> hasScope c scope then Inl (Forbidden ''Insufficient scope'') else Inr c)"

section \<open>Who is asking\<close>

definition truthy_text :: "js_string option \<Rightarrow> js_string option" where
  "truthy_text t = (if t = Some [] then None else t)"

definition bearer_token :: "headers_request \<Rightarrow> js_string option" where
  "bearer_token request =
    (let value = (case rq_authorization request of Absent \<Rightarrow> None | Text s \<Rightarrow> Some s
                  | Texts ss \<Rightarrow> (case ss of [] \<Rightarrow> None | s # _ \<Rightarrow> Some s))
     in case value of None \<Rightarrow> None
        | Some v \<Rightarrow> if take 7 v = lit ''Bearer '' then Some (drop 7 v) else None)"

definition api_key_token :: "headers_request \<Rightarrow> js_string option" where
  "api_key_token request = (case rq_x_api_key request of Text s \<Rightarrow> Some s | _ \<Rightarrow> None)"

definition session_context :: "auth_source \<Rightarrow> auth_session_row \<Rightarrow> auth_context" where
  "session_context source session = \<lparr>ac_identityId = as_identity session, ac_authType = Session, ac_authSource = source,
     ac_authMethod = Some (as_method session), ac_authenticatedAt = Some (as_authenticated_at session), ac_scopes = None,
     ac_tokenId = as_token_hash session, ac_ownerIdentityId = None\<rparr>"

definition api_key_context :: "auth_source \<Rightarrow> auth_scope list \<Rightarrow> api_key_row \<Rightarrow> auth_context" where
  "api_key_context source scopes row = \<lparr>ac_identityId = ak_identity row, ac_authType = ApiKey, ac_authSource = source,
     ac_authMethod = None, ac_authenticatedAt = None, ac_scopes = Some scopes,
     ac_tokenId = ak_id row, ac_ownerIdentityId = None\<rparr>"

definition impersonation_context :: "auth_source \<Rightarrow> auth_scope list \<Rightarrow> impersonation_row \<Rightarrow> auth_context" where
  "impersonation_context source scopes row = \<lparr>ac_identityId = im_identity row, ac_authType = Impersonation,
     ac_authSource = source, ac_authMethod = None, ac_authenticatedAt = None, ac_scopes = Some scopes,
     ac_tokenId = im_id row, ac_ownerIdentityId = Some (im_owner row)\<rparr>"

definition usable :: "int \<Rightarrow> iso_time option \<Rightarrow> iso_time option \<Rightarrow> bool" where
  "usable now revokedAt expiresAt \<longleftrightarrow> revokedAt = None \<and> \<not> isTokenExpired expiresAt now"

fun check_tokens ::
  "(js_string \<Rightarrow> string) \<Rightarrow> int \<Rightarrow> js_string option \<Rightarrow> js_string list \<Rightarrow> auth_db \<Rightarrow> (http_error + auth_context option) \<times> auth_db" where
  "check_tokens H now apiKeyToken [] db = (Inr None, db)"
| "check_tokens H now apiKeyToken (rawToken # rest) db =
    (let source = (if Some rawToken = apiKeyToken then From_api_key_header else From_authorization);
         impersonate = (case getImpersonationTokenByHash (H rawToken) db of
           None \<Rightarrow> check_tokens H now apiKeyToken rest db
         | Some row \<Rightarrow>
             if usable now (im_revoked_at row) (im_expires_at row)
             then (map_sum id (\<lambda>scopes. Some (impersonation_context source scopes row)) (parseScopes (im_scopes row)),
                   touchImpersonationTokenLastUsed now (im_id row) db)
             else check_tokens H now apiKeyToken rest db)
     in case getApiKeyByHash (H rawToken) db of
          None \<Rightarrow> impersonate
        | Some row \<Rightarrow>
            if usable now (ak_revoked_at row) (ak_expires_at row)
            then (map_sum id (\<lambda>scopes. Some (api_key_context source scopes row)) (parseScopes (ak_scopes row)),
                  touchApiKeyLastUsed now (ak_id row) db)
            else impersonate)"

definition session_for ::
  "(js_string \<Rightarrow> string) \<Rightarrow> int \<Rightarrow> auth_source \<Rightarrow> js_string option \<Rightarrow> auth_db \<Rightarrow> auth_context option" where
  "session_for H now source token db = (case truthy_text token of
     None \<Rightarrow> None
   | Some t \<Rightarrow> map_option (session_context source) (getAuthSession H now t db))"

definition resolveAuthContext ::
  "(js_string \<Rightarrow> string) \<Rightarrow> bool \<Rightarrow> int \<Rightarrow> headers_request \<Rightarrow> auth_db \<Rightarrow> (http_error + auth_context option) \<times> auth_db" where
  "resolveAuthContext H https now request db =
    (let bearerToken = bearer_token request;
         apiKeyToken = api_key_token request;
         cookieToken = readCookie (rq_cookie request) (FORUM_SESSION_COOKIE https)
     in case session_for H now From_authorization bearerToken db of
          Some c \<Rightarrow> (Inr (Some c), db)
        | None \<Rightarrow> (case check_tokens H now apiKeyToken (List.map_filter truthy_text [bearerToken, apiKeyToken]) db of
            (Inr None, db') \<Rightarrow> (Inr (session_for H now From_cookie cookieToken db'), db')
          | found \<Rightarrow> found))"

definition getCurrentUser ::
  "(js_string \<Rightarrow> string) \<Rightarrow> bool \<Rightarrow> int \<Rightarrow> headers_request \<Rightarrow> auth_db \<Rightarrow> (http_error + auth_context option) \<times> auth_db" where
  "getCurrentUser H https now request db = resolveAuthContext H https now request db"

section \<open>Gates\<close>

definition requireAdmin ::
  "(js_string \<Rightarrow> string) \<Rightarrow> bool \<Rightarrow> int \<Rightarrow> headers_request \<Rightarrow> auth_db \<Rightarrow> (http_error + auth_context) \<times> auth_db" where
  "requireAdmin H https now request db = (case getCurrentUser H https now request db of
     (Inl e, db1) \<Rightarrow> (Inl e, db1)
   | (Inr current, db1) \<Rightarrow> (case requireScope current Scope_admin of
       Inl e \<Rightarrow> (Inl e, db1)
     | Inr user \<Rightarrow> (case getIdentity now (ac_identityId user) db1 of (identity, db2) \<Rightarrow>
         if (case identity of None \<Rightarrow> True | Some row \<Rightarrow> id_kind row \<noteq> ''admin'')
         then (Inl (Forbidden ''Admin access required''), db2) else (Inr user, db2))))"

fun any_permission :: "ident \<Rightarrow> string list \<Rightarrow> ident option \<Rightarrow> auth_db \<Rightarrow> http_error + bool" where
  \<comment> \<open>a chain of \<^verbatim>\<open>store.hasPermission(...) || ...\<close>\<close>
  "any_permission i [] tenant db = Inr False"
| "any_permission i (p # ps) tenant db = (case hasPermission i p tenant db of
     Inl _ \<Rightarrow> Inl Internal
   | Inr allowed \<Rightarrow> if allowed then Inr True else any_permission i ps tenant db)"

definition requireModerator ::
  "(js_string \<Rightarrow> string) \<Rightarrow> bool \<Rightarrow> int \<Rightarrow> headers_request \<Rightarrow> ident option \<Rightarrow> auth_db \<Rightarrow> (http_error + auth_context) \<times> auth_db" where
  "requireModerator H https now request tenant db = (case getCurrentUser H https now request db of
     (Inl e, db1) \<Rightarrow> (Inl e, db1)
   | (Inr current, db1) \<Rightarrow> (case requireScope current Scope_write of
       Inl e \<Rightarrow> (Inl e, db1)
     | Inr user \<Rightarrow> (case getIdentity now (ac_identityId user) db1 of (identity, db2) \<Rightarrow>
         if (case identity of None \<Rightarrow> False | Some row \<Rightarrow> id_kind row = ''admin'') then (Inr user, db2)
         else case any_permission (ac_identityId user)
                [''mod.sticky'', ''mod.all'', ''admin.write'', ''admin.all'', ''*''] tenant db2 of
             Inl e \<Rightarrow> (Inl e, db2)
           | Inr allowed \<Rightarrow> if allowed then (Inr user, db2) else (Inl (Forbidden ''Moderator access required''), db2))))"

definition getIdentityFromRequest ::
  "(js_string \<Rightarrow> string) \<Rightarrow> bool \<Rightarrow> int \<Rightarrow> headers_request \<Rightarrow> auth_db \<Rightarrow> (http_error + identity_row option) \<times> auth_db" where
  "getIdentityFromRequest H https now request db = (case getCurrentUser H https now request db of
     (Inl e, db1) \<Rightarrow> (Inl e, db1)
   | (Inr None, db1) \<Rightarrow> (Inr None, db1)
   | (Inr (Some user), db1) \<Rightarrow> (case getIdentity now (ac_identityId user) db1 of (row, db2) \<Rightarrow> (Inr row, db2)))"

definition canViewForum :: "forum_row \<Rightarrow> identity_row option \<Rightarrow> auth_db \<Rightarrow> http_error + bool" where
  "canViewForum forum identity db =
    (if fo_visibility forum = [] \<or> fo_visibility forum = ''public'' then Inr True
     else if fo_visibility forum = ''members'' then Inr (identity \<noteq> None)
     else if fo_visibility forum = ''admin'' then (case identity of
         None \<Rightarrow> Inr False
       | Some row \<Rightarrow> if id_kind row = ''admin'' then Inr True
           else any_permission (id_id row) [''admin.all'', ''admin.read'', ''*''] (id_tenant row) db)
     else Inr True)"

definition canViewTopic :: "topic_row \<Rightarrow> forum_row \<Rightarrow> identity_row option \<Rightarrow> auth_db \<Rightarrow> http_error + bool" where
  "canViewTopic topic forum identity db = canViewForum forum identity db"

definition canCreateTopic :: "forum_row \<Rightarrow> identity_row option \<Rightarrow> auth_db \<Rightarrow> http_error + bool" where
  "canCreateTopic forum identity db = (if identity = None then Inr False else canViewForum forum identity db)"

definition canPostTopic :: "topic_row \<Rightarrow> forum_row \<Rightarrow> identity_row option \<Rightarrow> auth_db \<Rightarrow> http_error + bool" where
  "canPostTopic topic forum identity db = (if identity = None then Inr False else canViewForum forum identity db)"

definition require_true :: "string \<Rightarrow> http_error + bool \<Rightarrow> http_error + unit" where
  "require_true message r = (case r of Inl e \<Rightarrow> Inl e | Inr b \<Rightarrow> if b then Inr () else Inl (Not_found message))"

definition requireForumVisible :: "forum_row \<Rightarrow> identity_row option \<Rightarrow> auth_db \<Rightarrow> http_error + unit" where
  "requireForumVisible forum identity db = require_true ''Forum not found'' (canViewForum forum identity db)"

definition requireForumVisibleById ::
  "int \<Rightarrow> ident \<Rightarrow> identity_row option \<Rightarrow> auth_db \<Rightarrow> (http_error + forum_row) \<times> auth_db" where
  "requireForumVisibleById now forumId identity db = (case getForum now forumId db of
     (None, db1) \<Rightarrow> (Inl (Not_found ''Forum not found''), db1)
   | (Some forum, db1) \<Rightarrow>
       (map_sum id (\<lambda>_. forum) (require_true ''Forum not found'' (canViewForum forum identity db1)), db1))"

definition requireTopicVisible ::
  "(js_string \<Rightarrow> string) \<Rightarrow> bool \<Rightarrow> int \<Rightarrow> ident \<Rightarrow> headers_request \<Rightarrow> auth_db \<Rightarrow> (http_error + topic_row) \<times> auth_db" where
  "requireTopicVisible H https now topicId request db = (case getTopicCached now topicId db of
     (None, db1) \<Rightarrow> (Inl (Not_found ''topic not found''), db1)
   | (Some topic, db1) \<Rightarrow> (case getForum now (to_forum topic) db1 of
       (None, db2) \<Rightarrow> (Inl (Not_found ''forum not found''), db2)
     | (Some forum, db2) \<Rightarrow> (case getIdentityFromRequest H https now request db2 of
         (Inl e, db3) \<Rightarrow> (Inl e, db3)
       | (Inr identity, db3) \<Rightarrow>
           (map_sum id (\<lambda>_. topic) (require_true ''topic not found'' (canViewTopic topic forum identity db3)), db3))))"

definition requirePostVisible ::
  "(js_string \<Rightarrow> string) \<Rightarrow> bool \<Rightarrow> int \<Rightarrow> ident \<Rightarrow> headers_request \<Rightarrow> auth_db \<Rightarrow> (http_error + post_row) \<times> auth_db" where
  "requirePostVisible H https now postId request db = (case sql_get (\<lambda>p. po_id p = postId) (av_posts db) of
     None \<Rightarrow> (Inl (Not_found ''post not found''), db)
   | Some post \<Rightarrow> (case requireTopicVisible H https now (po_topic post) request db of
       (Inl e, db1) \<Rightarrow> (Inl e, db1)
     | (Inr _, db1) \<Rightarrow> (Inr post, db1)))"

section \<open>PATCH /admin/users/:userId\<close>

record admin_user_body =
  au_displayName :: "js_string option"
  au_kind :: "string option"
  au_password :: "js_string option"

definition no_updates :: identity_updates where
  "no_updates = \<lparr>iu_displayName = None, iu_avatarUrl = None, iu_location = None, iu_signature = None, iu_theme = None\<rparr>"

definition admin_update_user ::
  "(js_string \<Rightarrow> string) \<Rightarrow> bool \<Rightarrow> bool \<Rightarrow> int \<Rightarrow> headers_request \<Rightarrow> ident \<Rightarrow> admin_user_body \<Rightarrow> auth_db \<Rightarrow>
   (http_error + unit) \<times> auth_db" where
  \<comment> \<open>the handler up to the asynchronous hashing of a new password\<close>
  "admin_update_user H https passwordLogin now request userId body db = (case requireAdmin H https now request db of
     (Inl e, db1) \<Rightarrow> (Inl e, db1)
   | (Inr _, db1) \<Rightarrow> (case getIdentity now userId db1 of
       (None, db2) \<Rightarrow> (Inl (Not_found ''User not found''), db2)
     | (Some _, db2) \<Rightarrow>
         let db3 = (case au_kind body of
               None \<Rightarrow> db2
             | Some kind \<Rightarrow> if kind = [] then db2 else db2\<lparr>av_identities := sql_update (\<lambda>r. id_id r = userId)
                   (\<lambda>r. r\<lparr>id_kind := kind, id_updated_at := now\<rparr>) (av_identities db2)\<rparr>);
             (named, db4) = (case truthy_text (au_displayName body) of
               None \<Rightarrow> (Inr None, db3)
             | Some name \<Rightarrow> updateIdentity now now userId (no_updates\<lparr>iu_displayName := Some name\<rparr>) db3)
         in case named of
              Inl _ \<Rightarrow> (Inl Internal, db4)
            | Inr _ \<Rightarrow> if truthy_text (au_password body) \<noteq> None \<and> \<not> passwordLogin
                then (Inl (Forbidden ''Password credentials are disabled''), db4) else (Inr (), db4)))"

definition admin_update_password :: "int \<Rightarrow> ident \<Rightarrow> string \<Rightarrow> auth_db \<Rightarrow> (http_error + unit) \<times> auth_db" where
  \<comment> \<open>the rest of the handler, once the hash of the new password is there\<close>
  "admin_update_password now userId passwordHash db = (case getIdentity now userId db of (target, db1) \<Rightarrow>
     (case truthy_text (case target of None \<Rightarrow> None | Some row \<Rightarrow> id_username row) of
        None \<Rightarrow> (Inl (Bad_request ''User does not support password login''), db1)
      | Some username \<Rightarrow> (case setIdentityPassword now userId username (Some passwordHash) db1 of
          Inl _ \<Rightarrow> (Inl Internal, db1)
        | Inr db2 \<Rightarrow> (Inr (), deleteAuthSessionsForIdentity userId None db2))))"

end
