(* ===== verification/Access_Laws.thy ===== *)
theory Access_Laws
  imports Access_Control
begin

text \<open>
  What authentication and authorisation guarantee: only live credentials authenticate, revocation is
  final, the caches of identities and forums stay trustworthy under every operation of the store, the
  visibility gate decides as the tables do, and challenges and invites stay within their bounds.
\<close>

section \<open>Steps of the authentication store\<close>

text \<open>Forum ids come from \<^verbatim>\<open>randomUUID()\<close> and are not empty.\<close>

inductive store_step :: "(js_string \<Rightarrow> string) \<Rightarrow> auth_db \<Rightarrow> auth_db \<Rightarrow> bool" for H where
  resolve: "store_step H db (snd (resolveAuthContext H https now request db))"
| read_identity: "store_step H db (snd (getIdentity clock i db))"
| read_forum: "store_step H db (snd (getForum clock i db))"
| read_topic: "store_step H db (snd (getTopicCached clock i db))"
| create_identity: "createIdentity clock now i name kind avatar parent db = Inr (row, db') \<Longrightarrow> store_step H db db'"
| create_login: "createIdentityWithPassword clock now i name username hash kind avatar db = Inr (row, db') \<Longrightarrow> store_step H db db'"
| update_identity: "store_step H db (snd (updateIdentity clock now i u db))"
| private_email: "store_step H db (snd (setIdentityPrivateEmail clock now i email db))"
| quick_reply: "store_step H db (snd (setIdentityQuickReplyPreferences clock now i desktop mobile db))"
| set_password: "setIdentityPassword now i username hash' db = Inr db' \<Longrightarrow> store_step H db db'"
| persona: "getOrCreatePersona clock now i name p db = Inr (row, db') \<Longrightarrow> store_step H db db'"
| create_forum: "createForum clock now i name d cwd parent' category status visibility prompt db = Inr (frow, db') \<Longrightarrow> i \<noteq> [] \<Longrightarrow> store_step H db db'"
| update_forum: "store_step H db (snd (updateForum clock now i fu db))"
| delete_forum: "store_step H db (snd (deleteForum referenced i db))"
| create_role: "createRole now i rname permissions tenant db = Inr (rrow, db') \<Longrightarrow> store_step H db db'"
| update_role: "updateRole i oname opermissions db = Inr (rrow, db') \<Longrightarrow> store_step H db db'"
| delete_role: "store_step H db (deleteRole i db)"
| assign_role: "assignRole now i role tenant db = Inr (irow, db') \<Longrightarrow> store_step H db db'"
| revoke_role: "store_step H db (revokeRole i role tenant db)"
| create_rule: "createAccessRule rule db = Inr (arow, db') \<Longrightarrow> store_step H db db'"
| delete_rule: "store_step H db (snd (deleteAccessRule i db))"
| create_session: "createAuthSession H clock now token i ttl method db = Inr (srow, db') \<Longrightarrow> store_step H db db'"
| delete_session: "store_step H db (deleteAuthSessionByHash h db)"
| delete_sessions: "store_step H db (deleteAuthSessionsForIdentity i keep db)"
| cleanup_sessions: "store_step H db (snd (cleanupExpiredAuthSessions now db))"
| create_key: "createApiKey krow db = Inr (krow', db') \<Longrightarrow> store_step H db db'"
| revoke_key: "store_step H db (snd (revokeApiKey now owner i db))"
| create_impersonation: "createImpersonationToken mrow db = Inr (mrow', db') \<Longrightarrow> store_step H db db'"
| revoke_impersonation: "store_step H db (snd (revokeImpersonationToken now owner i db))"
| create_challenge: "createWebAuthnChallenge clock now i challenge ceremony identity ttlMs db = Inr (crow, db') \<Longrightarrow> store_step H db db'"
| consume_challenge: "store_step H db (snd (consumeWebAuthnChallenge now i ceremony identity db))"
| cleanup_challenges: "store_step H db (snd (cleanupExpiredWebAuthnChallenges now db))"
| create_credential: "createWebAuthnCredential wrow db = Inr (wrow', db') \<Longrightarrow> store_step H db db'"
| use_credential: "store_step H db (updateWebAuthnCredentialUsage now ci counter deviceType backedUp db)"
| delete_credential: "store_step H db (snd (deleteWebAuthnCredential owner ci db))"
| create_invite: "createInvite now us i maxUses expiresAt db = Inr (vrow, db') \<Longrightarrow> store_step H db db'"
| use_invite: "store_step H db (snd (useInvite now code db))"
| delete_invite: "store_step H db (deleteInvite i db)"

text \<open>The administrator's handler writes to the identities past the store.\<close>

inductive admin_step :: "(js_string \<Rightarrow> string) \<Rightarrow> auth_db \<Rightarrow> auth_db \<Rightarrow> bool" for H where
  store: "store_step H db db' \<Longrightarrow> admin_step H db db'"
| patch_user: "admin_step H db (snd (admin_update_user H https passwordLogin now request userId body db))"
| patch_password: "admin_step H db (snd (admin_update_password now userId passwordHash db))"

section \<open>The caches\<close>

interpretation identity_cache: read_through identity_row_of av_identity_cache put_identity_cache
  "\<lambda>r. (id_id r, id_kind r, id_tenant r)"
  by unfold_locales (auto simp: identity_row_of_def put_identity_cache_def fun_eq_iff)

interpretation forum_cache: read_through forum_row_of av_forum_cache put_forum_cache fo_visibility
  by unfold_locales (auto simp: forum_row_of_def put_forum_cache_def fun_eq_iff)

interpretation topic_cache: read_through topic_row_of av_topic_cache put_topic_cache to_forum
  by unfold_locales (auto simp: topic_row_of_def put_topic_cache_def fun_eq_iff)

lemma getIdentity_read: "getIdentity = identity_cache.read"
  by (simp add: fun_eq_iff getIdentity_def identity_cache.read_def)

lemma getForum_read: "getForum = forum_cache.read"
  by (simp add: fun_eq_iff getForum_def forum_cache.read_def)

lemma getTopic_read: "getTopicCached = topic_cache.read"
  by (simp add: fun_eq_iff getTopicCached_def topic_cache.read_def)

definition identities_trusted :: "auth_db \<Rightarrow> bool" where
  \<comment> \<open>cached identities have the kind and the tenant of their rows\<close>
  "identities_trusted db \<longleftrightarrow> coherent (\<lambda>r. (id_id r, id_kind r, id_tenant r)) (identity_row_of db) (av_identity_cache db)"

definition forums_trusted :: "auth_db \<Rightarrow> bool" where
  "forums_trusted db \<longleftrightarrow> coherent fo_visibility (forum_row_of db) (av_forum_cache db)"

definition topics_trusted :: "auth_db \<Rightarrow> bool" where
  "topics_trusted db \<longleftrightarrow> coherent to_forum (topic_row_of db) (av_topic_cache db)"

lemmas trusted_cache = identities_trusted_def [folded identity_cache.trusted_def]
  forums_trusted_def [folded forum_cache.trusted_def] topics_trusted_def [folded topic_cache.trusted_def]

subsection \<open>Frames\<close>

lemma getIdentity_frame: "\<exists>c. snd (getIdentity clock i db) = db\<lparr>av_identity_cache := c\<rparr>"
  by (auto simp: getIdentity_def put_identity_cache_def split: prod.splits)

lemma getForum_frame: "\<exists>c. snd (getForum clock i db) = db\<lparr>av_forum_cache := c\<rparr>"
  by (auto simp: getForum_def put_forum_cache_def split: prod.splits)

lemma getTopicCached_frame: "\<exists>c. snd (getTopicCached clock i db) = db\<lparr>av_topic_cache := c\<rparr>"
  by (auto simp: getTopicCached_def put_topic_cache_def split: prod.splits)

lemma check_tokens_frame:
  "snd (check_tokens H now k tokens db) = db \<or> (\<exists>i. snd (check_tokens H now k tokens db) = touchApiKeyLastUsed now i db)
   \<or> (\<exists>i. snd (check_tokens H now k tokens db) = touchImpersonationTokenLastUsed now i db)"
proof (induction tokens)
  case (Cons t ts)
  then show ?case by (auto simp: Let_def split: option.splits)
qed simp

lemma resolve_db:
  "snd (resolveAuthContext H https now request db) = db \<or> snd (resolveAuthContext H https now request db)
     = snd (check_tokens H now (api_key_token request) (List.map_filter truthy_text [bearer_token request, api_key_token request]) db)"
  unfolding resolveAuthContext_def Let_def by (simp del: check_tokens.simps map_filter_simps split: option.splits prod.splits sum.splits)

lemma resolve_obtain:
  obtains (same) "snd (resolveAuthContext H https now request db) = db"
  | (key) i where "snd (resolveAuthContext H https now request db) = touchApiKeyLastUsed now i db"
  | (impersonation) i where "snd (resolveAuthContext H https now request db) = touchImpersonationTokenLastUsed now i db"
  using resolve_db [of H https now request db] check_tokens_frame [of H now "api_key_token request"] by metis

subsection \<open>Trust\<close>

lemma identities_same:
  "av_identities db' = av_identities db \<Longrightarrow> av_identity_cache db' = av_identity_cache db \<Longrightarrow>
   identities_trusted db' = identities_trusted db"
  by (simp add: identities_trusted_def identity_row_of_def [abs_def])

lemma forums_same:
  "av_forums db' = av_forums db \<Longrightarrow> av_forum_cache db' = av_forum_cache db \<Longrightarrow> forums_trusted db' = forums_trusted db"
  by (simp add: forums_trusted_def forum_row_of_def [abs_def])

lemma identity_read_trusted: "identities_trusted db \<Longrightarrow> identities_trusted (snd (getIdentity clock i db))"
  using identity_cache.read_trusted by (simp add: trusted_cache getIdentity_read)

lemma forum_read_trusted: "forums_trusted db \<Longrightarrow> forums_trusted (snd (getForum clock i db))"
  using forum_cache.read_trusted by (simp add: trusted_cache getForum_read)

lemma coherent_delete: "coherent view lookup c \<Longrightarrow> coherent view lookup (cache_delete k c)"
  by (auto simp: coherent_def cache_delete_def map_of_map_delete)

lemma invalidate_identity_trusted: "identities_trusted db \<Longrightarrow> identities_trusted (invalidateIdentityCache i db)"
  by (auto simp: identities_trusted_def invalidateIdentityCache_def put_identity_cache_def identity_row_of_def [abs_def] coherent_delete)

lemma identity_update_trusted:
  assumes "identities_trusted db" and "\<And>r. id_id (f r) = id_id r \<and> id_kind (f r) = id_kind r \<and> id_tenant (f r) = id_tenant r"
  shows "identities_trusted (db\<lparr>av_identities := sql_update (\<lambda>r. id_id r = i) f (av_identities db)\<rparr>)"
proof -
  have "map_option (\<lambda>r. (id_id r, id_kind r, id_tenant r)) (identity_row_of (db\<lparr>av_identities := sql_update (\<lambda>r. id_id r = i) f (av_identities db)\<rparr>) j)
      = map_option (\<lambda>r. (id_id r, id_kind r, id_tenant r)) (identity_row_of db j)" for j
    using assms(2) by (auto simp: identity_row_of_def sql_get_update_key option.map_comp intro!: option.map_cong)
  with assms(1) show ?thesis unfolding identities_trusted_def coherent_def by simp
qed

lemma insert_identity_trusted:
  assumes "insert_identity row db = Inr db'" and "identities_trusted db"
  shows "identities_trusted db'"
  using assms(2) unfolding trusted_cache
  by (rule identity_cache.same_trusted)
     (use assms(1) in \<open>auto simp: insert_identity_def identity_row_of_def sql_get_insert split: if_splits\<close>)

lemmas role_ops = createRole_def updateRole_def deleteRole_def assignRole_def revokeRole_def createAccessRule_def deleteAccessRule_def
lemmas token_ops = createAuthSession_def deleteAuthSessionByHash_def deleteAuthSessionsForIdentity_def cleanupExpiredAuthSessions_def
  createApiKey_def revokeApiKey_def createImpersonationToken_def revokeImpersonationToken_def touchApiKeyLastUsed_def
  touchImpersonationTokenLastUsed_def
lemmas webauthn_ops = createWebAuthnChallenge_def consumeWebAuthnChallenge_def cleanupExpiredWebAuthnChallenges_def
  createWebAuthnCredential_def updateWebAuthnCredentialUsage_def deleteWebAuthnCredential_def
lemmas invite_ops = createInvite_def useInvite_def deleteInvite_def
lemmas other_ops = role_ops token_ops webauthn_ops invite_ops

definition same_people :: "auth_db \<Rightarrow> auth_db \<Rightarrow> bool" where
  \<comment> \<open>identities, forums and their caches are untouched\<close>
  "same_people db db' \<longleftrightarrow> av_identities db' = av_identities db \<and> av_identity_cache db' = av_identity_cache db
     \<and> av_forums db' = av_forums db \<and> av_forum_cache db' = av_forum_cache db"

inductive people_step :: "auth_db \<Rightarrow> auth_db \<Rightarrow> bool" where
  ps_read_identity: "people_step db (snd (getIdentity clock i db))"
| ps_create: "insert_identity irow db = Inr db1 \<Longrightarrow> people_step db (snd (getIdentity clock i db1))"
| ps_write: "(\<And>r. id_id (f r) = id_id r \<and> id_kind (f r) = id_kind r \<and> id_tenant (f r) = id_tenant r) \<Longrightarrow>
    people_step db (db\<lparr>av_identities := sql_update (\<lambda>r. id_id r = i) f (av_identities db)\<rparr>)"
| ps_invalidate: "people_step db (invalidateIdentityCache i db)"
| ps_read_forum: "people_step db (snd (getForum clock i db))"
| ps_create_forum: "createForum clock now i name d cwd parent' category status visibility prompt db = Inr (frow, db') \<Longrightarrow> i \<noteq> [] \<Longrightarrow> people_step db db'"
| ps_update_forum: "people_step db (snd (updateForum clock now i fu db))"
| ps_delete_forum: "people_step db (snd (deleteForum referenced i db))"

text \<open>Every operation of the store is a sequence of these, or leaves identities and forums alone.\<close>

lemma people_trans: "people_step\<^sup>*\<^sup>* a b \<Longrightarrow> people_step b c \<Longrightarrow> people_step\<^sup>*\<^sup>* a c"
  by (rule rtranclp.rtrancl_into_rtrancl)

lemma people_read: "people_step\<^sup>*\<^sup>* a b \<Longrightarrow> people_step\<^sup>*\<^sup>* a (snd (getIdentity clock i b))"
  by (rule people_trans [OF _ ps_read_identity])

lemma people_read_eq: "getIdentity clock i db = (r, db1) \<Longrightarrow> people_step\<^sup>*\<^sup>* db db1"
  using people_read [of db db clock i] by simp

lemma people_update: "people_step\<^sup>*\<^sup>* db (snd (updateIdentity clock now i u db))"
proof (cases "getIdentity clock i db")
  case (Pair r db1)
  then have s: "people_step\<^sup>*\<^sup>* db db1" by (rule people_read_eq)
  show ?thesis
  proof (cases r)
    case None
    with Pair s show ?thesis by (simp add: updateIdentity_def)
  next
    case (Some e)
    define f where "f = (\<lambda>r. r\<lparr>id_display_name := or_existing (iu_displayName u) (id_display_name e),
                id_avatar := or_existing (iu_avatarUrl u) (id_avatar e),
                id_location := or_existing (iu_location u) (id_location e),
                id_signature := or_existing (iu_signature u) (id_signature e),
                id_theme := or_existing (iu_theme u) (id_theme e), id_updated_at := now\<rparr> :: identity_row)"
    have "people_step\<^sup>*\<^sup>* db (db1\<lparr>av_identities := sql_update (\<lambda>r. id_id r = i) f (av_identities db1)\<rparr>)"
      by (rule people_trans [OF s ps_write]) (simp add: f_def)
    then have "people_step\<^sup>*\<^sup>* db (snd (getIdentity clock i (invalidateIdentityCache i
        (db1\<lparr>av_identities := sql_update (\<lambda>r. id_id r = i) f (av_identities db1)\<rparr>))))"
      by (rule people_read [OF people_trans [OF _ ps_invalidate]])
    with Pair Some show ?thesis by (auto simp: updateIdentity_def f_def Let_def split: prod.splits)
  qed
qed

lemma people_private_email: "people_step\<^sup>*\<^sup>* db (snd (setIdentityPrivateEmail clock now i email db))"
proof (cases "getIdentity clock i db")
  case (Pair r db1)
  have "people_step\<^sup>*\<^sup>* db (db1\<lparr>av_identities := sql_update (\<lambda>r. id_id r = i)
      (\<lambda>r. r\<lparr>id_private_email := email, id_updated_at := now\<rparr>) (av_identities db1)\<rparr>)"
    by (rule people_trans [OF people_read_eq [OF Pair] ps_write]) simp
  with Pair people_read_eq [OF Pair] show ?thesis by (auto simp: setIdentityPrivateEmail_def split: option.splits)
qed

lemma people_quick_reply: "people_step\<^sup>*\<^sup>* db (snd (setIdentityQuickReplyPreferences clock now i desktop mobile db))"
proof (cases "getIdentity clock i db")
  case (Pair r db1)
  have "people_step\<^sup>*\<^sup>* db (db1\<lparr>av_identities := sql_update (\<lambda>r. id_id r = i)
      (\<lambda>r. r\<lparr>id_quick_reply_desktop := Some desktop, id_quick_reply_mobile := Some mobile, id_updated_at := now\<rparr>) (av_identities db1)\<rparr>)"
    by (rule people_trans [OF people_read_eq [OF Pair] ps_write]) simp
  then show ?thesis using Pair people_read_eq [OF Pair] people_trans [OF _ ps_invalidate]
    by (auto simp: setIdentityQuickReplyPreferences_def split: option.splits)
qed

lemma people_set_password:
  assumes "setIdentityPassword now i username hash db = Inr db'"
  shows "people_step\<^sup>*\<^sup>* db db'"
proof -
  have "people_step\<^sup>*\<^sup>* db (db\<lparr>av_identities := sql_update (\<lambda>r. id_id r = i)
      (\<lambda>r. r\<lparr>id_username := Some username, id_password_hash := hash, id_updated_at := now\<rparr>) (av_identities db)\<rparr>)"
    by (rule people_trans [OF rtranclp.rtrancl_refl ps_write]) simp
  then show ?thesis using assms people_trans [OF _ ps_invalidate]
    by (auto simp: setIdentityPassword_def split: if_splits)
qed

lemma people_insert:
  "insert_identity irow db = Inr d \<Longrightarrow> getIdentity clock i d = (r, db') \<Longrightarrow> people_step\<^sup>*\<^sup>* db db'"
  using ps_create [of irow db d clock i] by auto

lemma people_create:
  assumes "createIdentity clock now i name kind avatar parent db = Inr (row, db')"
  shows "people_step\<^sup>*\<^sup>* db db'"
  using assms by (auto simp: createIdentity_def split: sum.splits intro: people_insert)

lemma people_create_login:
  assumes "createIdentityWithPassword clock now i name username hash kind avatar db = Inr (row, db')"
  shows "people_step\<^sup>*\<^sup>* db db'"
  using assms by (auto simp: createIdentityWithPassword_def split: sum.splits intro: people_insert)

lemma people_persona:
  assumes "getOrCreatePersona clock now i name parent db = Inr (row, db')"
  shows "people_step\<^sup>*\<^sup>* db db'"
proof (cases "getPersonaByDisplayName (js_trim name) db")
  case None
  with assms show ?thesis by (auto simp: getOrCreatePersona_def Let_def intro: people_create)
next
  case (Some e)
  have w: "people_step\<^sup>*\<^sup>* db (db\<lparr>av_identities := sql_update (\<lambda>r. id_id r = id_id e)
      (\<lambda>r. r\<lparr>id_parent := Some parent, id_updated_at := now\<rparr>) (av_identities db)\<rparr>)"
    by (rule people_trans [OF rtranclp.rtrancl_refl ps_write]) simp
  from Some assms show ?thesis
    using people_read [OF w, of clock "id_id e"] people_read [of db db clock "id_id e"]
    by (auto simp: getOrCreatePersona_def Let_def split: if_splits)
qed

lemmas people_ops = people_update people_private_email people_quick_reply people_set_password people_create people_create_login
  people_persona

lemma store_step_people:
  assumes "store_step H db db'"
  shows "people_step\<^sup>*\<^sup>* db db' \<or> same_people db db'"
  using assms
proof cases
  case (resolve https now request)
  then show ?thesis
    by (cases rule: resolve_obtain [of H https now request db]) (auto simp: same_people_def token_ops)
next
  case (read_topic clock i)
  then show ?thesis using getTopicCached_frame [of clock i db] by (auto simp: same_people_def)
qed (auto simp: same_people_def other_ops Let_def split: if_splits option.splits
     intro: people_ops people_step.intros)

subsection \<open>The caches stay trustworthy\<close>

definition people_ok :: "auth_db \<Rightarrow> bool" where
  "people_ok db \<longleftrightarrow> identities_trusted db \<and> forums_trusted db \<and> unique_key fo_id (av_forums db) \<and> [] \<notin> fo_id ` set (av_forums db)"

lemma people_ok_same: "same_people db db' \<Longrightarrow> people_ok db' = people_ok db"
  by (auto simp: same_people_def people_ok_def identities_same [of db' db] forums_same [of db' db])

lemma forum_read_db: "av_forums (snd (getForum clock i db)) = av_forums db \<and> av_identities (snd (getForum clock i db)) = av_identities db
    \<and> av_identity_cache (snd (getForum clock i db)) = av_identity_cache db"
  using getForum_frame [of clock i db] by auto

lemma people_ok_read_forum: "people_ok db \<Longrightarrow> people_ok (snd (getForum clock i db))"
  using forum_read_db [of clock i db] by (simp add: people_ok_def forum_read_trusted identities_same [of "snd (getForum clock i db)" db])

lemma identity_read_db: "av_forums (snd (getIdentity clock i db)) = av_forums db \<and> av_identities (snd (getIdentity clock i db)) = av_identities db
    \<and> av_forum_cache (snd (getIdentity clock i db)) = av_forum_cache db"
  using getIdentity_frame [of clock i db] by auto

lemma people_ok_read_identity: "people_ok db \<Longrightarrow> people_ok (snd (getIdentity clock i db))"
  using identity_read_db [of clock i db] by (simp add: people_ok_def identity_read_trusted forums_same [of "snd (getIdentity clock i db)" db])

lemma getForum_missing:
  assumes "forums_trusted db" and "forum_row_of db i = None"
  shows "fst (getForum clock i db) = None"
  using forum_cache.read_trusted [of db clock i] assms by (simp add: trusted_cache getForum_read)

lemma people_ok_forum_write:
  \<comment> \<open>a row is rewritten or deleted and its entry dropped\<close>
  assumes "people_ok db" and "i \<noteq> []" and "unique_key fo_id t" and "fo_id ` set t \<subseteq> fo_id ` set (av_forums db)"
    and "\<And>j. j \<noteq> i \<Longrightarrow> sql_get (\<lambda>f. fo_id f = j) t = sql_get (\<lambda>f. fo_id f = j) (av_forums db)"
  shows "people_ok (invalidateForumCache i (db\<lparr>av_forums := t\<rparr>))"
proof -
  let ?db = "invalidateForumCache i (db\<lparr>av_forums := t\<rparr>)"
  have "forums_trusted db" using assms(1) by (simp add: people_ok_def)
  then have "forums_trusted ?db" unfolding trusted_cache
    by (rule forum_cache.write_trusted [where k = i])
       (use assms(2,5) in \<open>auto simp: forum_row_of_def invalidateForumCache_def put_forum_cache_def\<close>)
  moreover have "identities_trusted ?db"
    using assms(1) identities_same [of ?db db] by (simp add: people_ok_def invalidateForumCache_def put_forum_cache_def)
  ultimately show ?thesis using assms by (auto simp: people_ok_def invalidateForumCache_def put_forum_cache_def)
qed

lemma people_ok_update_forum:
  assumes ok: "people_ok db"
  shows "people_ok (snd (updateForum clock now i u db))"
proof (cases "getForum clock i db")
  case (Pair r db1)
  have ok1: "people_ok db1" using people_ok_read_forum [OF ok, of clock i] Pair by simp
  have fs: "av_forums db1 = av_forums db" using forum_read_db [of clock i db] Pair by simp
  show ?thesis
  proof (cases r)
    case (Some forum)
    then have "forum_row_of db i \<noteq> None" using getForum_missing [of db i clock] ok Pair by (auto simp: people_ok_def)
    then have "i \<in> fo_id ` set (av_forums db)" by (auto simp: forum_row_of_def sql_get_None_iff)
    then have i: "i \<noteq> []" using ok by (metis people_ok_def)
    have w: "people_ok (invalidateForumCache i (db1\<lparr>av_forums := sql_update (\<lambda>f. fo_id f = i) g (av_forums db1)\<rparr>))"
      if g: "\<And>f. fo_id (g f) = fo_id f" for g
      by (rule people_ok_forum_write [OF ok1 i])
         (use ok1 g in \<open>auto simp: people_ok_def set_sql_update sql_get_update_key intro!: unique_key_update option.map_ident_strong
            dest: sql_get_SomeD\<close>)
    have r: "people_ok d" if "getForum clock i (invalidateForumCache i (db1\<lparr>av_forums := sql_update (\<lambda>f. fo_id f = i) g (av_forums db1)\<rparr>)) = (x, d)"
        and "\<And>f. fo_id (g f) = fo_id f" for g x d
      using people_ok_read_forum [OF w [OF that(2)], of clock i] that(1) by simp
    show ?thesis using Pair Some ok1 by (auto simp: updateForum_def Let_def split: prod.splits elim!: r)
  qed (use Pair ok1 in \<open>simp add: updateForum_def\<close>)
qed

lemma people_ok_delete_forum:
  assumes ok: "people_ok db"
  shows "people_ok (snd (deleteForum referenced i db))"
proof -
  define db1 where "db1 = db\<lparr>av_rules := sql_delete (\<lambda>r. ar_scope_kind r = Scope_forum \<and> ar_scope_id r = i) (av_rules db)\<rparr>"
  have ok1: "people_ok db1" using ok people_ok_same [of db db1] by (simp add: db1_def same_people_def)
  have del: "people_ok (invalidateForumCache i (db1\<lparr>av_forums := sql_delete (\<lambda>f. fo_id f = i) (av_forums db1)\<rparr>))"
    if n: "sql_count (\<lambda>f. fo_id f = i) (av_forums db1) \<noteq> 0"
  proof -
    have "i \<in> fo_id ` set (av_forums db1)" using n by (auto simp: sql_count_def filter_empty_conv)
    then have i: "i \<noteq> []" using ok1 by (metis people_ok_def)
    have u: "unique_key fo_id (av_forums db1)" using ok1 by (simp add: people_ok_def)
    show ?thesis
      by (rule people_ok_forum_write [OF ok1 i])
         (use u in \<open>auto simp: sql_get_delete_key intro: unique_key_delete split: option.splits dest: sql_get_SomeD\<close>)
  qed
  show ?thesis using ok ok1 del unfolding deleteForum_def db1_def [symmetric] Let_def
    by (simp split: if_splits)
qed

lemma people_ok_create_forum:
  assumes "createForum clock now i name d cwd parent category status visibility prompt db = Inr (row, db')" and "i \<noteq> []" and ok: "people_ok db"
  shows "people_ok db'"
proof -
  define frow where "frow = \<lparr>fo_id = i, fo_tenant = None, fo_parent = parent, fo_category = category, fo_name = name,
                fo_description = d, fo_cwd = cwd, fo_pre_prompt = prompt, fo_status = status,
                fo_visibility = visibility, fo_archived_at = (if status = ''archived'' then Some now else None),
                fo_created_at = now, fo_updated_at = now\<rparr>"
  have f: "fo_id frow = i" "\<not> sql_exists (\<lambda>f. fo_id f = i) (av_forums db)"
      and db': "getForum clock i (db\<lparr>av_forums := sql_insert frow (av_forums db)\<rparr>) = (row, db')"
    using assms(1) unfolding createForum_def Let_def frow_def [symmetric] by (auto simp: frow_def split: if_splits)
  let ?db = "db\<lparr>av_forums := sql_insert frow (av_forums db)\<rparr>"
  have "forums_trusted db" using ok by (simp add: people_ok_def)
  then have "forums_trusted ?db" unfolding trusted_cache
    by (rule forum_cache.same_trusted) (auto simp: forum_row_of_def sql_get_insert)
  then have "people_ok ?db" using ok f assms(2) identities_same [of ?db db]
    by (auto simp: people_ok_def intro!: unique_key_insert)
  from people_ok_read_forum [OF this, of clock i] db' show ?thesis by simp
qed

lemma people_ok_step: "people_step db db' \<Longrightarrow> people_ok db \<Longrightarrow> people_ok db'"
proof (induction rule: people_step.induct)
  case (ps_create irow db db1 clock i)
  have "identities_trusted db1" using ps_create insert_identity_trusted by (simp add: people_ok_def)
  then have "people_ok db1" using ps_create forums_same [of db1 db]
    by (auto simp: people_ok_def insert_identity_def split: if_splits)
  then show ?case by (rule people_ok_read_identity)
next
  case (ps_write f db i)
  let ?db = "db\<lparr>av_identities := sql_update (\<lambda>r. id_id r = i) f (av_identities db)\<rparr>"
  have "identities_trusted ?db" using ps_write by (intro identity_update_trusted) (auto simp: people_ok_def)
  then show ?case using ps_write forums_same [of ?db db] by (auto simp: people_ok_def)
next
  case (ps_invalidate db i)
  let ?db = "invalidateIdentityCache i db"
  have "identities_trusted ?db" using ps_invalidate invalidate_identity_trusted by (auto simp: people_ok_def)
  moreover have "av_forums ?db = av_forums db" "av_forum_cache ?db = av_forum_cache db"
    by (auto simp: invalidateIdentityCache_def put_identity_cache_def)
  ultimately show ?case using ps_invalidate forums_same [of ?db db] by (auto simp: people_ok_def)
qed (auto intro: people_ok_read_identity people_ok_read_forum people_ok_update_forum people_ok_delete_forum
      dest: people_ok_create_forum)

lemma people_ok_steps: "(store_step H)\<^sup>*\<^sup>* db db' \<Longrightarrow> people_ok db \<Longrightarrow> people_ok db'"
proof (induction rule: rtranclp_induct)
  case (step d d')
  have ok: "people_ok d" by (rule step.IH [OF step.prems])
  have "people_ok d'" if "people_step\<^sup>*\<^sup>* d d'"
    using that ok by (induction rule: rtranclp_induct) (auto intro: people_ok_step)
  then show ?case using store_step_people [OF step.hyps(2)] ok by (auto simp: people_ok_same)
qed

section \<open>Credentials\<close>

lemma map_sum_Inr: "map_sum id f r = Inr y \<longleftrightarrow> (\<exists>x. r = Inr x \<and> y = f x)"
  by (cases r) auto

lemma check_tokens_sound:
  assumes "fst (check_tokens H now k tokens db) = Inr (Some c)"
  shows "\<exists>token \<in> set tokens.
    (\<exists>row \<in> set (av_api_keys db). ak_token_hash row = H token \<and> usable now (ak_revoked_at row) (ak_expires_at row)
       \<and> (\<exists>scopes. parseScopes (ak_scopes row) = Inr scopes
            \<and> c = api_key_context (if Some token = k then From_api_key_header else From_authorization) scopes row))
  \<or> (\<exists>row \<in> set (av_impersonations db). im_token_hash row = H token \<and> usable now (im_revoked_at row) (im_expires_at row)
       \<and> (\<exists>scopes. parseScopes (im_scopes row) = Inr scopes
            \<and> c = impersonation_context (if Some token = k then From_api_key_header else From_authorization) scopes row))"
  using assms
proof (induction tokens)
  case (Cons t ts)
  let ?src = "if Some t = k then From_api_key_header else From_authorization"
  consider (rest) "fst (check_tokens H now k ts db) = Inr (Some c)"
    | (key) row scopes where "getApiKeyByHash (H t) db = Some row" "usable now (ak_revoked_at row) (ak_expires_at row)"
        "parseScopes (ak_scopes row) = Inr scopes" "c = api_key_context ?src scopes row"
    | (imp) row scopes where "getImpersonationTokenByHash (H t) db = Some row" "usable now (im_revoked_at row) (im_expires_at row)"
        "parseScopes (im_scopes row) = Inr scopes" "c = impersonation_context ?src scopes row"
  proof (cases "\<exists>row. getApiKeyByHash (H t) db = Some row \<and> usable now (ak_revoked_at row) (ak_expires_at row)")
    case True
    then obtain row where row: "getApiKeyByHash (H t) db = Some row" "usable now (ak_revoked_at row) (ak_expires_at row)" by blast
    then have "map_sum id (\<lambda>scopes. Some (api_key_context ?src scopes row)) (parseScopes (ak_scopes row)) = Inr (Some c)"
      using Cons.prems by (simp add: Let_def split del: if_split)
    with row show thesis by (auto simp: map_sum_Inr intro: key)
  next
    case False
    show thesis
    proof (cases "\<exists>row. getImpersonationTokenByHash (H t) db = Some row \<and> usable now (im_revoked_at row) (im_expires_at row)")
      case True
      then obtain row where row: "getImpersonationTokenByHash (H t) db = Some row" "usable now (im_revoked_at row) (im_expires_at row)" by blast
      then have "map_sum id (\<lambda>scopes. Some (impersonation_context ?src scopes row)) (parseScopes (im_scopes row)) = Inr (Some c)"
        using Cons.prems False by (simp add: Let_def split del: if_split split: option.splits)
      with row show thesis by (auto simp: map_sum_Inr intro: imp)
    next
      case none: False
      then show thesis using Cons.prems False rest by (simp add: Let_def split: option.splits)
    qed
  qed
  then show ?case
  proof cases
    case rest
    with Cons.IH show ?thesis by auto
  next
    case key
    then have "row \<in> set (av_api_keys db)" "ak_token_hash row = H t" by (auto simp: getApiKeyByHash_def dest: sql_get_SomeD)
    then show ?thesis using key
      by (intro bexI [of _ t] disjI1 bexI [of _ row] conjI exI [of _ scopes]) simp_all
  next
    case imp
    then have "row \<in> set (av_impersonations db)" "im_token_hash row = H t"
      by (auto simp: getImpersonationTokenByHash_def dest: sql_get_SomeD)
    then show ?thesis using imp
      by (intro bexI [of _ t] disjI2 bexI [of _ row] conjI exI [of _ scopes]) simp_all
  qed
qed simp

definition presented :: "bool \<Rightarrow> headers_request \<Rightarrow> auth_source \<Rightarrow> js_string option" where
  \<comment> \<open>the secret each kind of header carries\<close>
  "presented https request source = (case source of
     From_cookie \<Rightarrow> readCookie (rq_cookie request) (FORUM_SESSION_COOKIE https)
   | From_authorization \<Rightarrow> bearer_token request
   | From_api_key_header \<Rightarrow> api_key_token request)"

definition backed_by :: "string \<Rightarrow> int \<Rightarrow> auth_context \<Rightarrow> auth_db \<Rightarrow> bool" where
  \<comment> \<open>a live session, API key or impersonation token with that hash grants the context\<close>
  "backed_by h now c db \<longleftrightarrow>
    (\<exists>s \<in> set (av_sessions db). as_token_hash s = h \<and> now < as_expires_at s \<and> c = session_context (ac_authSource c) s)
  \<or> (\<exists>k \<in> set (av_api_keys db). ak_token_hash k = h \<and> usable now (ak_revoked_at k) (ak_expires_at k) \<and> ac_authSource c \<noteq> From_cookie
       \<and> (\<exists>scopes. parseScopes (ak_scopes k) = Inr scopes \<and> c = api_key_context (ac_authSource c) scopes k))
  \<or> (\<exists>m \<in> set (av_impersonations db). im_token_hash m = h \<and> usable now (im_revoked_at m) (im_expires_at m) \<and> ac_authSource c \<noteq> From_cookie
       \<and> (\<exists>scopes. parseScopes (im_scopes m) = Inr scopes \<and> c = impersonation_context (ac_authSource c) scopes m))"

lemma session_for_sound:
  assumes "session_for H now source token db = Some c"
  shows "\<exists>t. token = Some t \<and> t \<noteq> [] \<and> backed_by (H t) now c db"
proof -
  obtain t s where t: "token = Some t" "t \<noteq> []" and s: "getAuthSession H now t db = Some s" "c = session_context source s"
    using assms by (auto simp: session_for_def truthy_text_def split: option.splits if_splits)
  have "s \<in> set (av_sessions db)" "as_token_hash s = H t" "now < as_expires_at s"
    using s(1) by (auto simp: getAuthSession_def dest: sql_get_SomeD)
  then show ?thesis using t s(2) by (auto simp: backed_by_def session_context_def)
qed

lemma backed_by_key:
  "k \<in> set (av_api_keys db) \<Longrightarrow> ak_token_hash k = h \<Longrightarrow> usable now (ak_revoked_at k) (ak_expires_at k) \<Longrightarrow>
   parseScopes (ak_scopes k) = Inr scopes \<Longrightarrow> source \<noteq> From_cookie \<Longrightarrow> backed_by h now (api_key_context source scopes k) db"
  unfolding backed_by_def by (auto simp: api_key_context_def)

lemma backed_by_impersonation:
  "m \<in> set (av_impersonations db) \<Longrightarrow> im_token_hash m = h \<Longrightarrow> usable now (im_revoked_at m) (im_expires_at m) \<Longrightarrow>
   parseScopes (im_scopes m) = Inr scopes \<Longrightarrow> source \<noteq> From_cookie \<Longrightarrow> backed_by h now (impersonation_context source scopes m) db"
  unfolding backed_by_def by (auto simp: impersonation_context_def)

lemma session_for_cong: "av_sessions d = av_sessions db \<Longrightarrow> session_for H now source token d = session_for H now source token db"
  by (simp add: session_for_def getAuthSession_def split: option.split)

lemma resolve_cases:
  assumes "fst (resolveAuthContext H https now request db) = Inr (Some c)"
  obtains (bearer) "session_for H now From_authorization (bearer_token request) db = Some c"
  | (token) "fst (check_tokens H now (api_key_token request)
       (List.map_filter truthy_text [bearer_token request, api_key_token request]) db) = Inr (Some c)"
  | (cookie) "session_for H now From_cookie (readCookie (rq_cookie request) (FORUM_SESSION_COOKIE https)) db = Some c"
proof (cases "session_for H now From_authorization (bearer_token request) db")
  case None
  let ?r = "check_tokens H now (api_key_token request) (List.map_filter truthy_text [bearer_token request, api_key_token request]) db"
  have sess: "av_sessions (snd ?r) = av_sessions db"
    using check_tokens_frame [of H now "api_key_token request" "List.map_filter truthy_text [bearer_token request, api_key_token request]" db]
    by (auto simp: touchApiKeyLastUsed_def touchImpersonationTokenLastUsed_def simp del: check_tokens.simps map_filter_simps)
  then have "session_for H now src tok (snd ?r) = session_for H now src tok db" for src tok
    by (rule session_for_cong)
  then show thesis using assms None token cookie
    by (auto simp: resolveAuthContext_def Let_def simp del: check_tokens.simps map_filter_simps split: prod.splits sum.splits option.splits)
next
  case (Some c')
  then show thesis using assms bearer by (simp add: resolveAuthContext_def Let_def)
qed

lemma resolve_backed:
  assumes "fst (resolveAuthContext H https now request db) = Inr (Some c)"
  shows "\<exists>token. presented https request (ac_authSource c) = Some token \<and> token \<noteq> [] \<and> backed_by (H token) now c db"
  using assms
proof (cases rule: resolve_cases)
  case bearer
  moreover have "ac_authSource c = From_authorization"
    using bearer by (auto simp: session_for_def session_context_def split: option.splits)
  ultimately show ?thesis using session_for_sound by (auto simp: presented_def)
next
  case cookie
  moreover have "ac_authSource c = From_cookie"
    using cookie by (auto simp: session_for_def session_context_def split: option.splits)
  ultimately show ?thesis using session_for_sound by (auto simp: presented_def)
next
  case token
  obtain t where t: "t \<in> set (List.map_filter truthy_text [bearer_token request, api_key_token request])"
    and c: "(\<exists>row \<in> set (av_api_keys db). ak_token_hash row = H t \<and> usable now (ak_revoked_at row) (ak_expires_at row)
       \<and> (\<exists>scopes. parseScopes (ak_scopes row) = Inr scopes
            \<and> c = api_key_context (if Some t = api_key_token request then From_api_key_header else From_authorization) scopes row))
    \<or> (\<exists>row \<in> set (av_impersonations db). im_token_hash row = H t \<and> usable now (im_revoked_at row) (im_expires_at row)
       \<and> (\<exists>scopes. parseScopes (im_scopes row) = Inr scopes
            \<and> c = impersonation_context (if Some t = api_key_token request then From_api_key_header else From_authorization) scopes row))"
    using check_tokens_sound [OF token] by blast
  have "t \<noteq> [] \<and> (Some t = bearer_token request \<or> Some t = api_key_token request)"
    using t by (auto simp: List.map_filter_def truthy_text_def split: if_splits)
  moreover from c have "backed_by (H t) now c db
      \<and> ac_authSource c = (if Some t = api_key_token request then From_api_key_header else From_authorization)"
    by (elim disjE bexE conjE exE)
       (simp_all add: backed_by_key backed_by_impersonation, simp_all add: api_key_context_def impersonation_context_def)
  ultimately show ?thesis by (intro exI [of _ t]) (auto simp: presented_def split: if_splits)
qed

text \<open>
  C12. Who authenticates presented a live secret. If a request is recognised at all, the header named as
  the source carried a non-empty token whose hash is stored, either as a login session that has not
  expired, or as an API key or impersonation token that is neither revoked nor expired; the identity,
  the scopes and the token id of the context are those of that row. The cookie only ever stands for a
  login session.
\<close>

theorem authenticated_by_live_credential:
  assumes "fst (resolveAuthContext H https now request db) = Inr (Some c)"
  shows "\<exists>token. presented https request (ac_authSource c) = Some token \<and> token \<noteq> [] \<and> backed_by (H token) now c db"
  using assms by (rule resolve_backed)

section \<open>Revocation\<close>

definition all_rows :: "('r \<Rightarrow> ident) \<Rightarrow> ('r \<Rightarrow> bool) \<Rightarrow> ident \<Rightarrow> 'r table \<Rightarrow> bool" where
  \<comment> \<open>rows with that key exist and all have the property\<close>
  "all_rows k q i t \<longleftrightarrow> i \<in> k ` set t \<and> (\<forall>r \<in> set t. k r = i \<longrightarrow> q r)"

lemma all_rows_update:
  assumes "all_rows k q i t" and "\<And>r. k (f r) = k r" and "\<And>r. q r \<Longrightarrow> q (f r)"
  shows "all_rows k q i (sql_update p f t)"
proof -
  have "k ` set (sql_update p f t) = k ` set t"
    by (metis list.set_map map_sql_update assms(2))
  with assms show ?thesis by (auto simp: all_rows_def set_sql_update)
qed

lemma all_rows_insert: "all_rows k q i t \<Longrightarrow> \<forall>x \<in> set t. k x \<noteq> k r \<Longrightarrow> all_rows k q i (sql_insert r t)"
  by (auto simp: all_rows_def)

lemma all_rows_hit:
  assumes "unique_key k t" and "0 < sql_count h t" and "\<And>r. h r \<Longrightarrow> k r = i" and "\<And>r. k (f r) = k r \<and> q (f r)"
  shows "all_rows k q i (sql_update h f t)"
proof -
  obtain r where r: "r \<in> set t" "h r" using assms(2) by (auto simp: sql_count_def filter_empty_conv)
  have only: "x = r" if "x \<in> set t" "k x = i" for x using assms(1,3) r that by (auto dest: unique_keyD)
  have "f r \<in> set (sql_update h f t)" using r by (auto simp: set_sql_update intro!: image_eqI [of _ _ r])
  moreover have "q x" if x: "x \<in> set (sql_update h f t)" "k x = i" for x
  proof -
    obtain y where y: "y \<in> set t" "x = (if h y then f y else y)" using x(1) by (auto simp: set_sql_update)
    have "k y = i" using x(2) y(2) assms(4) by (auto split: if_splits)
    then have "y = r" by (rule only [OF y(1)])
    then show ?thesis using y(2) r(2) assms(4) by simp
  qed
  moreover have "k (f r) = i" using assms(3,4) r(2) by simp
  ultimately show ?thesis by (auto simp: all_rows_def image_iff intro!: bexI [of _ "f r"])
qed

definition dead_key :: "ident \<Rightarrow> auth_db \<Rightarrow> bool" where
  "dead_key i db \<longleftrightarrow> all_rows ak_id (\<lambda>k. ak_revoked_at k \<noteq> None) i (av_api_keys db)"

definition dead_impersonation :: "ident \<Rightarrow> auth_db \<Rightarrow> bool" where
  "dead_impersonation i db \<longleftrightarrow> all_rows im_id (\<lambda>m. im_revoked_at m \<noteq> None) i (av_impersonations db)"

definition same_tokens :: "auth_db \<Rightarrow> auth_db \<Rightarrow> bool" where
  "same_tokens db db' \<longleftrightarrow> av_api_keys db' = av_api_keys db \<and> av_impersonations db' = av_impersonations db
     \<and> av_invites db' = av_invites db \<and> av_challenges db' = av_challenges db"

lemma same_tokens_trans: "same_tokens a b \<Longrightarrow> same_tokens b c \<Longrightarrow> same_tokens a c"
  by (simp add: same_tokens_def)

lemma same_tokens_refl [simp]: "same_tokens db db"
  by (simp add: same_tokens_def)

lemma forum_read_tokens: "getForum clock i (db\<lparr>av_forums := t\<rparr>) = (r, db') \<Longrightarrow> same_tokens db db'"
  using getForum_frame [of clock i "db\<lparr>av_forums := t\<rparr>"] by (auto simp: same_tokens_def)

lemma update_forum_tokens: "same_tokens db (snd (updateForum clock now i u db))"
proof (cases "getForum clock i db")
  case (Pair r db1)
  then have db1: "same_tokens db db1" using getForum_frame [of clock i db] by (auto simp: same_tokens_def)
  have rd: "same_tokens db x" if "getForum clock i (invalidateForumCache i (db1\<lparr>av_forums := t\<rparr>)) = (y, x)" for t x y
    using db1 that getForum_frame [of clock i "invalidateForumCache i (db1\<lparr>av_forums := t\<rparr>)"]
    by (auto simp: same_tokens_def invalidateForumCache_def put_forum_cache_def)
  show ?thesis using Pair db1 by (auto simp: updateForum_def Let_def split: option.splits prod.splits intro: rd)
qed

lemma people_step_tokens: "people_step db db' \<Longrightarrow> same_tokens db db'"
proof (induction rule: people_step.induct)
  case (ps_read_identity db clock i)
  then show ?case using getIdentity_frame [of clock i db] by (auto simp: same_tokens_def)
next
  case (ps_create irow db db1 clock i)
  then show ?case using getIdentity_frame [of clock i db1] by (auto simp: same_tokens_def insert_identity_def split: if_splits)
next
  case (ps_invalidate db i)
  then show ?case by (auto simp: same_tokens_def invalidateIdentityCache_def put_identity_cache_def)
next
  case (ps_read_forum db clock i)
  then show ?case using getForum_frame [of clock i db] by (auto simp: same_tokens_def)
next
  case (ps_create_forum clock now i name d cwd parent' category status visibility prompt db frow db')
  then show ?case by (auto simp: createForum_def Let_def split: if_splits intro: forum_read_tokens)
next
  case (ps_update_forum db clock now i fu)
  show ?case by (rule update_forum_tokens)
next
  case (ps_delete_forum db referenced i)
  then show ?case by (auto simp: same_tokens_def deleteForum_def invalidateForumCache_def put_forum_cache_def Let_def split: if_splits)
qed (auto simp: same_tokens_def)

inductive token_step :: "auth_db \<Rightarrow> auth_db \<Rightarrow> bool" where
  ts_touch_key: "token_step db (touchApiKeyLastUsed now i db)"
| ts_touch_impersonation: "token_step db (touchImpersonationTokenLastUsed now i db)"
| ts_create_key: "createApiKey krow db = Inr (krow', db') \<Longrightarrow> token_step db db'"
| ts_revoke_key: "token_step db (snd (revokeApiKey now owner i db))"
| ts_create_impersonation: "createImpersonationToken mrow db = Inr (mrow', db') \<Longrightarrow> token_step db db'"
| ts_revoke_impersonation: "token_step db (snd (revokeImpersonationToken now owner i db))"
| ts_create_challenge: "createWebAuthnChallenge clock now i challenge ceremony identity ttlMs db = Inr (crow, db') \<Longrightarrow> token_step db db'"
| ts_consume_challenge: "token_step db (snd (consumeWebAuthnChallenge now i ceremony identity db))"
| ts_cleanup_challenges: "token_step db (snd (cleanupExpiredWebAuthnChallenges now db))"
| ts_create_invite: "createInvite now us i maxUses expiresAt db = Inr (vrow, db') \<Longrightarrow> token_step db db'"
| ts_use_invite: "token_step db (snd (useInvite now code db))"
| ts_delete_invite: "token_step db (deleteInvite i db)"

lemma people_steps_tokens: "people_step\<^sup>*\<^sup>* db db' \<Longrightarrow> same_tokens db db'"
  by (induction rule: rtranclp_induct) (auto intro: same_tokens_trans people_step_tokens)

lemmas people_tokens = people_ops [THEN people_steps_tokens] people_step.intros [THEN people_step_tokens]

lemma store_step_tokens:
  assumes "store_step H db db'"
  shows "same_tokens db db' \<or> token_step db db'"
  using assms
proof cases
  case (resolve https now request)
  then show ?thesis
    by (cases rule: resolve_obtain [of H https now request db]) (auto intro: token_step.intros)
next
  case (read_topic clock i)
  then show ?thesis using getTopicCached_frame [of clock i db] by (auto simp: same_tokens_def)
next
  case (create_rule rule arow)
  then show ?thesis by (auto simp: createAccessRule_def Let_def same_tokens_def split: if_splits option.splits)
next
  case (create_credential wrow wrow')
  then show ?thesis by (auto simp: createWebAuthnCredential_def Let_def same_tokens_def split: if_splits option.splits)
next
  case (create_session clock now token i ttl how srow)
  then show ?thesis by (auto simp: createAuthSession_def Let_def same_tokens_def split: if_splits)
next
  case (assign_role now i role tenant irow)
  then show ?thesis by (auto simp: assignRole_def Let_def same_tokens_def split: if_splits)
next
  case (create_role now i rname permissions tenant rrow)
  then show ?thesis by (auto simp: createRole_def Let_def same_tokens_def split: if_splits)
next
  case (update_role i oname opermissions rrow)
  then show ?thesis by (auto simp: updateRole_def Let_def same_tokens_def split: option.splits)
next
  case delete_role
  then show ?thesis by (simp add: same_tokens_def deleteRole_def)
next
  case revoke_role
  then show ?thesis by (simp add: same_tokens_def revokeRole_def)
next
  case delete_rule
  then show ?thesis by (simp add: same_tokens_def deleteAccessRule_def)
next
  case delete_session
  then show ?thesis by (simp add: same_tokens_def deleteAuthSessionByHash_def)
next
  case delete_sessions
  then show ?thesis by (simp add: same_tokens_def deleteAuthSessionsForIdentity_def)
next
  case cleanup_sessions
  then show ?thesis by (simp add: same_tokens_def cleanupExpiredAuthSessions_def)
next
  case use_credential
  then show ?thesis by (simp add: same_tokens_def updateWebAuthnCredentialUsage_def)
next
  case delete_credential
  then show ?thesis by (simp add: same_tokens_def deleteWebAuthnCredential_def Let_def)
qed (auto intro: token_step.intros people_tokens)

lemma getIdentity_tokens: "getIdentity clock i db = (r, db') \<Longrightarrow> same_tokens db db'"
  using people_step_tokens [OF ps_read_identity [of db clock i]] by simp

lemma requireAdmin_tokens:
  "same_tokens (snd (resolveAuthContext H https now request db)) (snd (requireAdmin H https now request db))"
  by (auto simp: requireAdmin_def getCurrentUser_def split: prod.splits sum.splits option.splits dest: getIdentity_tokens)

lemma admin_update_user_tokens:
  "same_tokens (snd (resolveAuthContext H https now request db))
     (snd (admin_update_user H https passwordLogin now request userId body db))"
proof -
  obtain r db1 where a: "requireAdmin H https now request db = (r, db1)" by fastforce
  obtain q db2 where g: "getIdentity now userId db1 = (q, db2)" by fastforce
  define db3 where "db3 = (case au_kind body of None \<Rightarrow> db2
             | Some kind \<Rightarrow> if kind = [] then db2 else db2\<lparr>av_identities := sql_update (\<lambda>r. id_id r = userId)
                   (\<lambda>r. r\<lparr>id_kind := kind, id_updated_at := now\<rparr>) (av_identities db2)\<rparr>)"
  have 1: "same_tokens (snd (resolveAuthContext H https now request db)) db1"
    using requireAdmin_tokens [of H https now request db] a by simp
  have 2: "same_tokens (snd (resolveAuthContext H https now request db)) db2"
    using same_tokens_trans [OF 1 getIdentity_tokens [OF g]] .
  have "same_tokens db2 db3" by (auto simp: db3_def same_tokens_def split: option.splits)
  with 2 have 3: "same_tokens (snd (resolveAuthContext H https now request db)) db3" by (rule same_tokens_trans)
  then have 4: "same_tokens (snd (resolveAuthContext H https now request db)) (snd (updateIdentity now now userId u db3))" for u
    by (rule same_tokens_trans) (rule people_tokens)
  have 5: "same_tokens (snd (resolveAuthContext H https now request db)) d"
    if "updateIdentity now now userId u db3 = (x, d)" for u x d using 4 [of u] that by simp
  show ?thesis unfolding admin_update_user_def a prod.case g Let_def db3_def [symmetric]
    using 1 2 3 by (auto split: sum.splits option.splits prod.splits intro: 5)
qed

lemma admin_update_password_tokens: "same_tokens db (snd (admin_update_password now userId passwordHash db))"
proof -
  obtain q db1 where g: "getIdentity now userId db = (q, db1)" by fastforce
  have s: "same_tokens db (deleteAuthSessionsForIdentity userId None db2)"
    if "setIdentityPassword now userId name h db1 = Inr db2" for name h db2
  proof -
    have "same_tokens db db2" by (rule same_tokens_trans [OF getIdentity_tokens [OF g] people_tokens(4) [OF that]])
    then show ?thesis by (simp add: same_tokens_def deleteAuthSessionsForIdentity_def)
  qed
  show ?thesis unfolding admin_update_password_def g prod.case
    using getIdentity_tokens [OF g] by (auto split: option.splits sum.splits intro: s)
qed

lemma admin_steps_tokens:
  assumes "(admin_step H)\<^sup>*\<^sup>* db db'" and "P db"
    and same: "\<And>d d'. same_tokens d d' \<Longrightarrow> P d \<Longrightarrow> P d'" and step: "\<And>d d'. token_step d d' \<Longrightarrow> P d \<Longrightarrow> P d'"
  shows "P db'"
  using assms(1,2)
proof (induction rule: rtranclp_induct)
  case (step d d')
  have st: "P e'" if "store_step H e e'" "P e" for e e'
    using store_step_tokens [OF that(1)] that(2) same assms(4) by blast
  show ?case using step.hyps(2) step.IH [OF step.prems]
    by cases (auto intro: st same [OF admin_update_user_tokens] same [OF admin_update_password_tokens] store_step.resolve)
qed

lemma dead_key_step: "token_step db db' \<Longrightarrow> dead_key i db \<Longrightarrow> dead_key i db'"
proof (induction rule: token_step.induct)
  case (ts_create_key krow db krow' db')
  then show ?case by (auto simp: dead_key_def createApiKey_def Let_def split: if_splits intro!: all_rows_insert)
qed (auto simp: dead_key_def token_ops invite_ops webauthn_ops Let_def split: if_splits option.splits intro!: all_rows_update)

lemma dead_impersonation_step: "token_step db db' \<Longrightarrow> dead_impersonation i db \<Longrightarrow> dead_impersonation i db'"
proof (induction rule: token_step.induct)
  case (ts_create_impersonation mrow db mrow' db')
  then show ?case by (auto simp: dead_impersonation_def createImpersonationToken_def Let_def split: if_splits intro!: all_rows_insert)
qed (auto simp: dead_impersonation_def token_ops invite_ops webauthn_ops Let_def split: if_splits option.splits intro!: all_rows_update)

lemma revokeApiKey_dead:
  "unique_key ak_id (av_api_keys db) \<Longrightarrow> fst (revokeApiKey now owner i db) \<Longrightarrow> dead_key i (snd (revokeApiKey now owner i db))"
  by (auto simp: dead_key_def revokeApiKey_def Let_def intro!: all_rows_hit)

lemma revokeImpersonation_dead:
  "unique_key im_id (av_impersonations db) \<Longrightarrow> fst (revokeImpersonationToken now owner i db) \<Longrightarrow>
   dead_impersonation i (snd (revokeImpersonationToken now owner i db))"
  by (auto simp: dead_impersonation_def revokeImpersonationToken_def Let_def intro!: all_rows_hit)

lemma dead_same:
  "same_tokens db db' \<Longrightarrow> dead_key i db \<Longrightarrow> dead_key i db'"
  "same_tokens db db' \<Longrightarrow> dead_impersonation i db \<Longrightarrow> dead_impersonation i db'"
  by (simp_all add: dead_key_def dead_impersonation_def same_tokens_def)

lemma dead_key_unbacked: "dead_key i db \<Longrightarrow> backed_by h now c db \<Longrightarrow> \<not> (ac_authType c = ApiKey \<and> ac_tokenId c = i)"
  unfolding backed_by_def dead_key_def all_rows_def usable_def
  by (elim disjE bexE conjE exE) (auto simp: api_key_context_def session_context_def impersonation_context_def
    dest!: arg_cong [where f = "\<lambda>c. (ac_authType c, ac_tokenId c)"])

lemma dead_impersonation_unbacked:
  "dead_impersonation i db \<Longrightarrow> backed_by h now c db \<Longrightarrow> \<not> (ac_authType c = Impersonation \<and> ac_tokenId c = i)"
  unfolding backed_by_def dead_impersonation_def all_rows_def usable_def
  by (elim disjE bexE conjE exE) (auto simp: api_key_context_def session_context_def impersonation_context_def
    dest!: arg_cong [where f = "\<lambda>c. (ac_authType c, ac_tokenId c)"])

text \<open>
  C31. Revocation is final. Once an API key or an impersonation token was revoked by its owner, no request
  is ever again authenticated by it, whatever operations of the store or of the administrators follow.
\<close>

theorem revocation_is_final:
  assumes "unique_key ak_id (av_api_keys db)" and "unique_key im_id (av_impersonations db)"
    and "kind = ApiKey \<and> revokeApiKey now owner i db = (True, db1)
       \<or> kind = Impersonation \<and> revokeImpersonationToken now owner i db = (True, db1)"
    and "(admin_step H)\<^sup>*\<^sup>* db1 db2"
    and "fst (resolveAuthContext H https later request db2) = Inr (Some c)"
  shows "\<not> (ac_authType c = kind \<and> ac_tokenId c = i)"
proof -
  obtain token where b: "backed_by (H token) later c db2" using resolve_backed [OF assms(5)] by blast
  from assms(3) show ?thesis
  proof (elim disjE conjE)
    assume k: "kind = ApiKey" "revokeApiKey now owner i db = (True, db1)"
    then have "dead_key i db1" using revokeApiKey_dead [OF assms(1), of now owner i] by simp
    with assms(4) have "dead_key i db2"
      by (rule admin_steps_tokens) (auto intro: dead_same dead_key_step)
    from dead_key_unbacked [OF this b] k show ?thesis by simp
  next
    assume k: "kind = Impersonation" "revokeImpersonationToken now owner i db = (True, db1)"
    then have "dead_impersonation i db1" using revokeImpersonation_dead [OF assms(2), of now owner i] by simp
    with assms(4) have "dead_impersonation i db2"
      by (rule admin_steps_tokens) (auto intro: dead_same dead_impersonation_step)
    from dead_impersonation_unbacked [OF this b] k show ?thesis by simp
  qed
qed

section \<open>Invites\<close>

definition invites_bounded :: "auth_db \<Rightarrow> bool" where
  "invites_bounded db \<longleftrightarrow> unique_key iv_id (av_invites db) \<and> unique_key iv_code (av_invites db)
     \<and> (\<forall>v \<in> set (av_invites db). iv_uses v \<le> max 0 (iv_max_uses v))"

lemma use_invite_parts:
  assumes "useInvite now code db = (Invite_ok v, db')" and "unique_key iv_id (av_invites db)"
  obtains v0 where "v0 \<in> set (av_invites db)" "iv_code v0 = code" "\<And>e. iv_expires_at v0 = Some e \<Longrightarrow> now \<le> e"
    "iv_uses v0 < iv_max_uses v0" "v = v0\<lparr>iv_uses := iv_uses v0 + 1\<rparr>"
    "db' = db\<lparr>av_invites := sql_update (\<lambda>x. iv_id x = iv_id v0) (\<lambda>x. x\<lparr>iv_uses := iv_uses x + 1\<rparr>) (av_invites db)\<rparr>"
proof -
  let ?db = "\<lambda>w. db\<lparr>av_invites := sql_update (\<lambda>x. iv_id x = iv_id w) (\<lambda>x. x\<lparr>iv_uses := iv_uses x + 1\<rparr>) (av_invites db)\<rparr>"
  obtain v0 where v0: "getInviteByCode code db = Some v0" "\<not> (case iv_expires_at v0 of None \<Rightarrow> False | Some e \<Rightarrow> now > e)"
      "iv_uses v0 < iv_max_uses v0" "db' = ?db v0" "v = (case getInvite (iv_id v0) (?db v0) of None \<Rightarrow> v0 | Some x \<Rightarrow> x)"
    using assms(1) by (auto simp: useInvite_def Let_def split: option.splits if_splits)
  have m: "v0 \<in> set (av_invites db)" "iv_code v0 = code" using v0(1) by (auto simp: getInviteByCode_def dest: sql_get_SomeD)
  have "getInvite (iv_id v0) (?db v0) = Some (v0\<lparr>iv_uses := iv_uses v0 + 1\<rparr>)"
    using sql_get_unique [OF assms(2) m(1)] by (simp add: getInvite_def sql_get_update_key)
  then show thesis using v0 m by (intro that [of v0]) auto
qed

lemma invites_bounded_step:
  assumes "token_step db db'" and "invites_bounded db"
  shows "invites_bounded db'"
  using assms
proof (induction rule: token_step.induct)
  case (ts_use_invite db now code)
  show ?case
  proof (cases "useInvite now code db")
    case (Pair r db')
    show ?thesis
    proof (cases r)
      case (Invite_ok v)
      with Pair ts_use_invite obtain v0 where v: "v0 \<in> set (av_invites db)" "iv_uses v0 < iv_max_uses v0"
          "db' = db\<lparr>av_invites := sql_update (\<lambda>x. iv_id x = iv_id v0) (\<lambda>x. x\<lparr>iv_uses := iv_uses x + 1\<rparr>) (av_invites db)\<rparr>"
        by (auto simp: invites_bounded_def elim: use_invite_parts)
      have "x = v0" if "x \<in> set (av_invites db)" "iv_id x = iv_id v0" for x
        using ts_use_invite v(1) that by (auto simp: invites_bounded_def dest: unique_keyD)
      then have "iv_uses x + 1 \<le> max 0 (iv_max_uses x)" if "x \<in> set (av_invites db)" "iv_id x = iv_id v0" for x
        using v(2) that by fastforce
      with v show ?thesis using ts_use_invite Pair
        by (auto simp: invites_bounded_def set_sql_update intro!: unique_key_update)
    qed (use Pair ts_use_invite in \<open>auto simp: useInvite_def Let_def split: option.splits if_splits\<close>)
  qed
next
  case (ts_create_invite now us i maxUses expiresAt db vrow db')
  then show ?case by (auto simp: invites_bounded_def createInvite_def Let_def unique_key_insert_iff split: if_splits)
qed (auto simp: invites_bounded_def token_ops deleteInvite_def webauthn_ops Let_def split: if_splits option.splits intro: unique_key_delete)

text \<open>
  An invite is used at most as often as it allows. Whatever operations run, no invite ever counts more
  uses than its maximum; a successful use found the invite by its code, unexpired and with a use left, and
  counted exactly one more use of that invite.
\<close>

theorem invite_uses_bounded:
  assumes "invites_bounded db" and "(admin_step H)\<^sup>*\<^sup>* db db'"
  shows "(\<forall>v \<in> set (av_invites db'). iv_uses v \<le> max 0 (iv_max_uses v))
    \<and> (\<forall>now code v db''. useInvite now code db' = (Invite_ok v, db'') \<longrightarrow>
         (\<exists>v0. getInvite (iv_id v0) db' = Some v0 \<and> iv_code v0 = code \<and> (\<forall>e. iv_expires_at v0 = Some e \<longrightarrow> now \<le> e)
            \<and> iv_uses v0 < iv_max_uses v0 \<and> v = v0\<lparr>iv_uses := iv_uses v0 + 1\<rparr> \<and> getInvite (iv_id v0) db'' = Some v))"
proof -
  have b: "invites_bounded db'" using assms(2,1)
    by (rule admin_steps_tokens) (auto intro: invites_bounded_step, simp add: invites_bounded_def same_tokens_def)
  then have u: "unique_key iv_id (av_invites db')" by (simp add: invites_bounded_def)
  have "\<exists>v0. getInvite (iv_id v0) db' = Some v0 \<and> iv_code v0 = code \<and> (\<forall>e. iv_expires_at v0 = Some e \<longrightarrow> now \<le> e)
      \<and> iv_uses v0 < iv_max_uses v0 \<and> v = v0\<lparr>iv_uses := iv_uses v0 + 1\<rparr> \<and> getInvite (iv_id v0) db'' = Some v"
    if "useInvite now code db' = (Invite_ok v, db'')" for now code v db''
    using that u
  proof (rule use_invite_parts)
    fix v0
    assume v0: "v0 \<in> set (av_invites db')" "iv_code v0 = code" "\<And>e. iv_expires_at v0 = Some e \<Longrightarrow> now \<le> e"
      "iv_uses v0 < iv_max_uses v0" "v = v0\<lparr>iv_uses := iv_uses v0 + 1\<rparr>"
      "db'' = db'\<lparr>av_invites := sql_update (\<lambda>x. iv_id x = iv_id v0) (\<lambda>x. x\<lparr>iv_uses := iv_uses x + 1\<rparr>) (av_invites db')\<rparr>"
    then show ?thesis using sql_get_unique [OF u v0(1)] by (intro exI [of _ v0]) (simp add: getInvite_def sql_get_update_key)
  qed
  then show ?thesis using b by (simp add: invites_bounded_def)
qed

section \<open>WebAuthn challenges\<close>

definition of_ceremony :: "ident \<Rightarrow> ceremony \<Rightarrow> challenge_row \<Rightarrow> bool" where
  "of_ceremony i ceremony c \<longleftrightarrow> wc_identity c = Some i \<and> wc_ceremony c = ceremony"

definition challenges_bounded :: "auth_db \<Rightarrow> bool" where
  "challenges_bounded db \<longleftrightarrow> unique_key wc_id (av_challenges db) \<and> length (av_challenges db) \<le> 10000
     \<and> (\<forall>i ceremony. i \<noteq> [] \<longrightarrow> sql_count (of_ceremony i ceremony) (av_challenges db) \<le> 20)"

lemma sql_count_filter_le: "sql_count p (filter q t) \<le> sql_count p t"
  by (induction t) (auto simp: sql_count_def)

lemma make_room_filter: "\<exists>q. make_room p limit t = filter q t"
proof (cases "sql_count p t \<ge> limit")
  case False
  then show ?thesis by (intro exI [of _ "\<lambda>_. True"]) (simp add: make_room_def Let_def)
qed (auto simp: make_room_def Let_def sql_delete_def)

lemma make_room_count:
  assumes u: "unique_key wc_id t" and l: "0 < limit"
  shows "sql_count p (make_room p limit t) < limit"
proof (cases "sql_count p t \<ge> limit")
  case True
  define xs where "xs = sql_order_by (\<lambda>c. (wc_created_at c, wc_id c)) (filter p t)"
  define m where "m = sql_count p t - limit + 1"
  have len: "length xs = sql_count p t" by (simp add: xs_def sql_order_by_def sql_count_def)
  have sx: "set xs = {c \<in> set t. p c}" by (simp add: xs_def sql_order_by_def)
  have "distinct (map wc_id (filter p t))" using u by (simp add: unique_key_def distinct_map_filter)
  then have d: "distinct (filter p t)" by (simp add: distinct_map)
  have part: "set xs = set (take m xs) \<union> set (drop m xs)" by (metis append_take_drop_id set_append)
  have "{c \<in> set t. p c \<and> wc_id c \<notin> wc_id ` set (take m xs)} \<subseteq> set (drop m xs)"
    using part sx by auto
  then have "card {c \<in> set t. p c \<and> wc_id c \<notin> wc_id ` set (take m xs)} \<le> card (set (drop m xs))" by (rule card_mono [rotated]) simp
  also have "\<dots> \<le> length xs - m" by (metis card_length length_drop)
  also have "\<dots> < limit" using True l len by (simp add: m_def)
  finally have "card {c \<in> set t. p c \<and> wc_id c \<notin> wc_id ` set (take m xs)} < limit" .
  moreover have "sql_count p (make_room p limit t) = length (filter (\<lambda>c. wc_id c \<notin> wc_id ` set (take m xs)) (filter p t))"
    using True by (simp add: make_room_def Let_def sql_count_def sql_delete_def oldest_challenges_def xs_def m_def sql_select_def
        filter_filter conj_commute cong: filter_cong)
  moreover have "\<dots> = card {c \<in> set t. p c \<and> wc_id c \<notin> wc_id ` set (take m xs)}"
  proof -
    have "set (filter (\<lambda>c. wc_id c \<notin> wc_id ` set (take m xs)) (filter p t)) = {c \<in> set t. p c \<and> wc_id c \<notin> wc_id ` set (take m xs)}"
      unfolding set_filter by blast
    then show ?thesis using distinct_card [OF distinct_filter [OF d, of "\<lambda>c. wc_id c \<notin> wc_id ` set (take m xs)"]] by metis
  qed
  ultimately show ?thesis by simp
qed (simp add: make_room_def Let_def)

lemma challenges_filter:
  "unique_key wc_id t \<Longrightarrow> unique_key wc_id (filter q t)"
  by (simp add: unique_key_def distinct_map_filter)

lemma create_challenge_bounded:
  assumes "createWebAuthnChallenge clock now i challenge ceremony identity ttlMs db = Inr (row, db')" and "challenges_bounded db"
  shows "challenges_bounded db'"
proof -
  define t1 where "t1 = sql_delete (\<lambda>c. wc_expires_at c \<le> now) (av_challenges db)"
  define t2 where "t2 = (if truthy_id identity then make_room (\<lambda>c. wc_identity c = identity \<and> wc_ceremony c = ceremony) 20 t1 else t1)"
  define t3 where "t3 = make_room (\<lambda>_. True) 10000 t2"
  have row: "db' = db\<lparr>av_challenges := sql_insert row t3\<rparr>" "wc_id row = i" "wc_identity row = identity" "wc_ceremony row = ceremony"
      and fresh: "\<not> sql_exists (\<lambda>c. wc_id c = i) t3"
    using assms(1) unfolding createWebAuthnChallenge_def Let_def t1_def [symmetric] t2_def [symmetric] t3_def [symmetric]
    by (auto split: if_splits)
  obtain q1 where q1: "t1 = filter q1 (av_challenges db)" by (simp add: t1_def sql_delete_def)
  have "t1 = filter (\<lambda>_. True) t1" by simp
  then obtain q2 where q2: "t2 = filter q2 t1"
    using make_room_filter [of "\<lambda>c. wc_identity c = identity \<and> wc_ceremony c = ceremony" 20 t1]
    unfolding t2_def by metis
  obtain q3 where q3: "t3 = filter q3 t2" using make_room_filter [of "\<lambda>_. True" 10000 t2] by (auto simp: t3_def)
  have u1: "unique_key wc_id t1" using assms(2) by (simp add: challenges_bounded_def q1 challenges_filter)
  then have u2: "unique_key wc_id t2" and u3: "unique_key wc_id t3" by (simp_all add: q2 q3 challenges_filter)
  have "length t3 < 10000" using make_room_count [OF u2, of 10000 "\<lambda>_. True"] by (simp add: t3_def sql_count_def)
  moreover have "sql_count (of_ceremony j cer) (sql_insert row t3) \<le> 20" if j: "j \<noteq> []" for j cer
  proof (cases "of_ceremony j cer row")
    case True
    then have i: "identity = Some j" "ceremony = cer" using row by (auto simp: of_ceremony_def)
    have "sql_count (of_ceremony j cer) t2 < 20"
      using make_room_count [OF u1, of 20 "of_ceremony j cer"] j i by (simp add: t2_def truthy_id_def of_ceremony_def [abs_def])
    then have "sql_count (of_ceremony j cer) t3 < 20"
      using sql_count_filter_le [of "of_ceremony j cer" q3 t2] by (simp add: q3)
    then show ?thesis by (simp add: sql_insert_def sql_count_def)
  next
    case False
    have "sql_count (of_ceremony j cer) t3 \<le> sql_count (of_ceremony j cer) (av_challenges db)"
      unfolding q3 q2 q1 by (meson order_trans sql_count_filter_le)
    with False j assms(2) show ?thesis by (auto simp: challenges_bounded_def sql_insert_def sql_count_def intro: order_trans)
  qed
  ultimately show ?thesis using row fresh u3
    by (auto simp: challenges_bounded_def unique_key_insert_iff) (simp add: sql_insert_def)
qed

lemma challenges_delete_bounded:
  assumes "challenges_bounded db"
  shows "challenges_bounded (db\<lparr>av_challenges := sql_delete p (av_challenges db)\<rparr>)"
proof -
  have "length (filter q (av_challenges db)) \<le> 10000" for q
    using assms length_filter_le [of q "av_challenges db"] unfolding challenges_bounded_def by linarith
  moreover have "sql_count (of_ceremony i ceremony) (filter q (av_challenges db)) \<le> 20" if "i \<noteq> []" for i ceremony q
    using assms that order_trans [OF sql_count_filter_le [of "of_ceremony i ceremony" q "av_challenges db"]]
    unfolding challenges_bounded_def by blast
  ultimately show ?thesis using assms by (simp add: challenges_bounded_def sql_delete_def challenges_filter)
qed

lemma challenges_bounded_step:
  assumes "token_step db db'" and "challenges_bounded db"
  shows "challenges_bounded db'"
  using assms
proof (induction rule: token_step.induct)
  case (ts_consume_challenge db now i ceremony identity)
  then show ?case by (auto simp: consumeWebAuthnChallenge_def Let_def challenges_delete_bounded split: option.splits)
next
  case (ts_cleanup_challenges db now)
  then show ?case by (simp add: cleanupExpiredWebAuthnChallenges_def challenges_delete_bounded)
next
  case (ts_create_challenge clock now i challenge ceremony identity ttlMs db crow db')
  then show ?case by (blast intro: create_challenge_bounded)
qed (auto simp: token_ops invite_ops Let_def challenges_bounded_def split: if_splits option.splits)

text \<open>
  C33. Sign-in challenges are bounded and used once. Whatever operations run, at most 10000 challenges are
  stored, and at most 20 of one kind for one identity; a challenge that is consumed existed under that id,
  was issued for that ceremony and identity and had not expired, and the same id cannot be consumed a
  second time.
\<close>

theorem challenges_bounded_single_use:
  assumes "challenges_bounded db" and "(admin_step H)\<^sup>*\<^sup>* db db'"
  shows "length (av_challenges db') \<le> 10000
    \<and> (\<forall>i ceremony. i \<noteq> [] \<longrightarrow> length (filter (of_ceremony i ceremony) (av_challenges db')) \<le> 20)
    \<and> (\<forall>now i ceremony identity row db''. consumeWebAuthnChallenge now i ceremony identity db' = (Some row, db'') \<longrightarrow>
         row \<in> set (av_challenges db') \<and> wc_id row = i \<and> wc_ceremony row = ceremony \<and> wc_identity row = identity
         \<and> now < wc_expires_at row
         \<and> (\<forall>later c' d. consumeWebAuthnChallenge later i c' d db'' = (None, db'')))"
proof -
  have "challenges_bounded db'" using assms(2,1)
    by (rule admin_steps_tokens) (auto intro: challenges_bounded_step, simp add: challenges_bounded_def same_tokens_def)
  moreover have "row \<in> set (av_challenges db') \<and> wc_id row = i \<and> wc_ceremony row = ceremony \<and> wc_identity row = identity
         \<and> now < wc_expires_at row \<and> (\<forall>later c' d. consumeWebAuthnChallenge later i c' d db'' = (None, db''))"
    if c: "consumeWebAuthnChallenge now i ceremony identity db' = (Some row, db'')" for now i ceremony identity row db''
  proof -
    have get: "sql_get (\<lambda>c. wc_id c = i) (av_challenges db') = Some row"
      and r: "wc_ceremony row = ceremony" "wc_identity row = identity" "now < wc_expires_at row"
        "db'' = db'\<lparr>av_challenges := sql_delete (\<lambda>c. wc_id c = i) (av_challenges db')\<rparr>"
      using c by (auto simp: consumeWebAuthnChallenge_def Let_def split: option.splits if_splits)
    have gone: "sql_get (\<lambda>c. wc_id c = i) (av_challenges db'') = None" by (simp add: r(4) sql_get_None_iff)
    show ?thesis using sql_get_SomeD [OF get] r gone by (simp add: consumeWebAuthnChallenge_def)
  qed
  ultimately show ?thesis by (auto simp: challenges_bounded_def sql_count_def)
qed

end
