(* ===== verification/Access_Gates.thy ===== *)
theory Access_Gates
  imports Access_Laws
begin

text \<open>
  The gates of \<^verbatim>\<open>server/utils/access.ts\<close> against a specification over the tables alone: who may see a
  topic, who is an administrator. The gates read through caches, so the specification holds as long as
  the caches are trusted, which every operation of the store preserves; the last section shows the one
  writer that does not.
\<close>

section \<open>Permissions\<close>

definition holds_role :: "ident \<Rightarrow> ident option \<Rightarrow> role_row \<Rightarrow> auth_db \<Rightarrow> bool" where
  "holds_role i tenant r db \<longleftrightarrow> (\<exists>ir \<in> set (av_identity_roles db). ir_identity ir = i \<and> ir_role ir = ro_id r
     \<and> (truthy_id tenant \<longrightarrow> ir_tenant ir = tenant \<or> ir_tenant ir = None))"

definition granted :: "ident \<Rightarrow> ident option \<Rightarrow> string list \<Rightarrow> auth_db \<Rightarrow> bool" where
  \<comment> \<open>some role of the identity, in the tenant or without one, carries a permission of the list or all of them\<close>
  "granted i tenant wanted db \<longleftrightarrow> (\<exists>r \<in> set (av_roles db). holds_role i tenant r db
     \<and> (\<exists>p \<in> set (the (ro_permissions r)). p \<in> insert ''*'' (set wanted)))"

definition roles_readable :: "auth_db \<Rightarrow> bool" where
  \<comment> \<open>the permissions of every role are valid JSON\<close>
  "roles_readable db \<longleftrightarrow> (\<forall>r \<in> set (av_roles db). ro_permissions r \<noteq> None)"

lemma collect_permissions_readable:
  "\<forall>r \<in> set rs. ro_permissions r \<noteq> None \<Longrightarrow>
   collect_permissions rs acc = Inr (acc @ concat (map (\<lambda>r. the (ro_permissions r)) rs))"
  by (induction rs arbitrary: acc) auto

lemma hasPermission_iff:
  assumes "roles_readable db"
  shows "hasPermission i p tenant db = Inr (granted i tenant [p] db)"
proof -
  let ?rs = "listIdentityRoles i tenant db"
  have rs: "\<forall>r \<in> set ?rs. ro_permissions r \<noteq> None"
    using assms by (auto simp: roles_readable_def listIdentityRoles_def)
  have held: "set ?rs = {r \<in> set (av_roles db). holds_role i tenant r db}"
    by (auto simp: listIdentityRoles_def holds_role_def)
  have "p \<in> set (concat (map (\<lambda>r. the (ro_permissions r)) ?rs)) \<or> ''*'' \<in> set (concat (map (\<lambda>r. the (ro_permissions r)) ?rs))
      \<longleftrightarrow> granted i tenant [p] db"
    unfolding granted_def by (simp add: held) blast
  then show ?thesis
    using collect_permissions_readable [OF rs, of "[]"] by (simp add: hasPermission_def getIdentityPermissions_def)
qed

lemma granted_Cons: "granted i tenant (p # ps) db \<longleftrightarrow> granted i tenant [p] db \<or> granted i tenant ps db"
  unfolding granted_def by (simp only: list.set insert_iff empty_iff) blast

lemma any_permission_iff:
  "roles_readable db \<Longrightarrow> any_permission i (p # ps) tenant db = Inr (granted i tenant (p # ps) db)"
proof (induction ps arbitrary: p)
  case Nil
  then show ?case by (simp add: hasPermission_iff)
next
  case (Cons q qs)
  then show ?case using granted_Cons [of i tenant p "q # qs" db] by (simp add: hasPermission_iff del: any_permission.simps(2)) (simp add: hasPermission_iff)
qed

section \<open>Visibility\<close>

definition may_view :: "forum_row \<Rightarrow> identity_row option \<Rightarrow> auth_db \<Rightarrow> bool" where
  "may_view forum viewer db \<longleftrightarrow>
     fo_visibility forum \<notin> {''members'', ''admin''}
   \<or> fo_visibility forum = ''members'' \<and> viewer \<noteq> None
   \<or> fo_visibility forum = ''admin'' \<and> (\<exists>row. viewer = Some row
       \<and> (id_kind row = ''admin'' \<or> granted (id_id row) (id_tenant row) [''admin.all'', ''admin.read'', ''*''] db))"

lemma canViewForum_iff: "roles_readable db \<Longrightarrow> canViewForum forum viewer db = Inr (may_view forum viewer db)"
  by (auto simp: canViewForum_def may_view_def any_permission_iff simp del: any_permission.simps split: option.splits)

lemma may_view_cong:
  assumes "fo_visibility f = fo_visibility g"
    and "map_option (\<lambda>r. (id_id r, id_kind r, id_tenant r)) v = map_option (\<lambda>r. (id_id r, id_kind r, id_tenant r)) w"
    and "av_roles db = av_roles db'" and "av_identity_roles db = av_identity_roles db'"
  shows "may_view f v db = may_view g w db'"
  using assms by (cases v; cases w) (auto simp: may_view_def granted_def holds_role_def)

definition viewer_of :: "auth_context option \<Rightarrow> auth_db \<Rightarrow> identity_row option" where
  "viewer_of who db = (case who of None \<Rightarrow> None | Some c \<Rightarrow> identity_row_of db (ac_identityId c))"

definition topic_answer :: "auth_context option \<Rightarrow> ident \<Rightarrow> auth_db \<Rightarrow> http_error + ident" where
  \<comment> \<open>the answer as the tables give it: the forum of the topic, or a refusal\<close>
  "topic_answer who i db = (case topic_row_of db i of
     None \<Rightarrow> Inl (Not_found ''topic not found'')
   | Some t \<Rightarrow> (case forum_row_of db (to_forum t) of
       None \<Rightarrow> Inl (Not_found ''forum not found'')
     | Some f \<Rightarrow> if may_view f (viewer_of who db) db then Inr (to_forum t) else Inl (Not_found ''topic not found'')))"

definition same_credentials :: "auth_db \<Rightarrow> auth_db \<Rightarrow> bool" where
  "same_credentials db db' \<longleftrightarrow> av_sessions db' = av_sessions db \<and> av_api_keys db' = av_api_keys db
     \<and> av_impersonations db' = av_impersonations db"

lemma check_tokens_cong: "same_credentials db db' \<Longrightarrow> fst (check_tokens H now k ts db') = fst (check_tokens H now k ts db)"
  by (induction ts) (auto simp: Let_def same_credentials_def getApiKeyByHash_def getImpersonationTokenByHash_def split: option.split)

lemma check_tokens_sessions: "av_sessions (snd (check_tokens H now k ts db)) = av_sessions db"
  using check_tokens_frame [of H now k ts db] by (auto simp: token_ops)

lemma resolve_cong:
  assumes "same_credentials db db'"
  shows "fst (resolveAuthContext H https now request db') = fst (resolveAuthContext H https now request db)"
proof -
  let ?ts = "List.map_filter truthy_text [bearer_token request, api_key_token request]"
  have s: "av_sessions db' = av_sessions db" using assms by (simp add: same_credentials_def)
  obtain r d where c: "check_tokens H now (api_key_token request) ?ts db = (r, d)" by fastforce
  obtain d' where c': "check_tokens H now (api_key_token request) ?ts db' = (r, d')"
    using check_tokens_cong [OF assms, of H now "api_key_token request" ?ts] c
    by (cases "check_tokens H now (api_key_token request) ?ts db'") (simp del: map_filter_simps)
  have "av_sessions d' = av_sessions d"
    using check_tokens_sessions [of H now "api_key_token request" ?ts] c c' s by (metis snd_conv)
  then show ?thesis
    using s unfolding resolveAuthContext_def Let_def c c'
    by (simp add: session_for_cong [OF s] session_for_cong [of d' d] split: option.splits sum.splits)
qed

lemma resolve_people: "same_people db (snd (resolveAuthContext H https now request db))
    \<and> av_roles (snd (resolveAuthContext H https now request db)) = av_roles db
    \<and> av_identity_roles (snd (resolveAuthContext H https now request db)) = av_identity_roles db"
  by (cases rule: resolve_obtain [of H https now request db]) (auto simp: same_people_def token_ops)

lemma getIdentity_trusted:
  assumes "identities_trusted db" and "getIdentity clock i db = (r, db')"
  shows "map_option (\<lambda>r. (id_id r, id_kind r, id_tenant r)) r = map_option (\<lambda>r. (id_id r, id_kind r, id_tenant r)) (identity_row_of db i)"
  using identity_cache.read_trusted [of db clock i] assms by (simp add: trusted_cache getIdentity_read)

lemma viewer_from_request:
  assumes "identities_trusted db" and "fst (resolveAuthContext H https now request db) = Inr who"
  obtains row db' where "getIdentityFromRequest H https now request db = (Inr row, db')"
    "map_option (\<lambda>r. (id_id r, id_kind r, id_tenant r)) row = map_option (\<lambda>r. (id_id r, id_kind r, id_tenant r)) (viewer_of who db)"
    "av_roles db' = av_roles db" "av_identity_roles db' = av_identity_roles db"
proof -
  obtain d where r: "resolveAuthContext H https now request db = (Inr who, d)" using assms(2) by (metis prod.collapse)
  have d: "same_people db d" "av_roles d = av_roles db" "av_identity_roles d = av_identity_roles db"
    using resolve_people [of db H https now request] r by simp_all
  have t: "identities_trusted d" and look: "identity_row_of d = identity_row_of db"
    using assms(1) d(1) identities_same [of d db] by (auto simp: same_people_def identity_row_of_def fun_eq_iff)
  show thesis
  proof (cases who)
    case None
    with r d show thesis by (intro that [of None d]) (auto simp: getIdentityFromRequest_def getCurrentUser_def viewer_of_def)
  next
    case (Some c)
    obtain row e where g: "getIdentity now (ac_identityId c) d = (row, e)" by fastforce
    have "av_roles e = av_roles d" "av_identity_roles e = av_identity_roles d"
      using getIdentity_frame [of now "ac_identityId c" d] g by auto
    then show thesis using Some r g d getIdentity_trusted [OF t g] look
      by (intro that [of row e]) (auto simp: getIdentityFromRequest_def getCurrentUser_def viewer_of_def)
  qed
qed

lemma topic_read:
  assumes "topics_trusted db" and "getTopicCached now i db = (r, db')"
  shows "map_option to_forum r = map_option to_forum (topic_row_of db i)" and "\<exists>c. db' = db\<lparr>av_topic_cache := c\<rparr>"
  using topic_cache.read_trusted [of db now i] assms getTopicCached_frame [of now i db] by (simp_all add: trusted_cache getTopic_read)

lemma forum_read:
  assumes "forums_trusted db" and "getForum now i db = (r, db')"
  shows "map_option fo_visibility r = map_option fo_visibility (forum_row_of db i)" and "\<exists>c. db' = db\<lparr>av_forum_cache := c\<rparr>"
  using forum_cache.read_trusted [of db now i] assms getForum_frame [of now i db] by (simp_all add: trusted_cache getForum_read)

lemma require_true_Inr: "require_true m (Inr b) = (if b then Inr () else Inl (Not_found m))"
  by (simp add: require_true_def)

text \<open>
  C32. The visibility gate decides as the tables do. With trusted caches, asking for a topic gives what the
  tables alone say: refused as missing if the topic or its forum does not exist, and, in the very same
  words as for a missing topic, if the forum is for members or administrators and the requester is none;
  administrators of a forum are identities of that kind and holders of a role that grants it.
\<close>

theorem topic_gate_exact:
  assumes "identities_trusted db" and "forums_trusted db" and "topics_trusted db" and "roles_readable db"
    and "fst (resolveAuthContext H https now request db) = Inr who"
  shows "map_sum id to_forum (fst (requireTopicVisible H https now i request db)) = topic_answer who i db"
proof -
  obtain topic db1 where t: "getTopicCached now i db = (topic, db1)" by fastforce
  have tv: "map_option to_forum topic = map_option to_forum (topic_row_of db i)" and d1: "\<exists>c. db1 = db\<lparr>av_topic_cache := c\<rparr>"
    using topic_read [OF assms(3) t] by auto
  show ?thesis
  proof (cases topic)
    case None
    with tv t show ?thesis by (simp add: requireTopicVisible_def topic_answer_def)
  next
    case (Some to)
    then obtain to' where to': "topic_row_of db i = Some to'" "to_forum to' = to_forum to" using tv by (cases "topic_row_of db i") auto
    obtain forum db2 where f: "getForum now (to_forum to) db1 = (forum, db2)" by fastforce
    have "forums_trusted db1" using d1 assms(2) forums_same [of db1 db] by auto
    then have fv: "map_option fo_visibility forum = map_option fo_visibility (forum_row_of db (to_forum to))"
      and d2: "\<exists>c. db2 = db1\<lparr>av_forum_cache := c\<rparr>"
      using forum_read [OF _ f] d1 by (auto simp: forum_row_of_def)
    show ?thesis
    proof (cases forum)
      case None
      with Some t f fv to' show ?thesis by (simp add: requireTopicVisible_def topic_answer_def)
    next
      case frow: (Some fo)
      then obtain fo' where fo': "forum_row_of db (to_forum to) = Some fo'" "fo_visibility fo = fo_visibility fo'"
        using fv by (cases "forum_row_of db (to_forum to)") auto
      have d: "same_credentials db db2" "identities_trusted db2" "av_roles db2 = av_roles db" "av_identity_roles db2 = av_identity_roles db"
          "viewer_of who db2 = viewer_of who db"
        using d1 d2 assms(1) identities_same [of db2 db]
        by (auto simp: same_credentials_def viewer_of_def identity_row_of_def split: option.splits)
      have res: "fst (resolveAuthContext H https now request db2) = Inr who" using resolve_cong [OF d(1)] assms(5) by simp
      obtain row db3 where v: "getIdentityFromRequest H https now request db2 = (Inr row, db3)"
          "map_option (\<lambda>r. (id_id r, id_kind r, id_tenant r)) row = map_option (\<lambda>r. (id_id r, id_kind r, id_tenant r)) (viewer_of who db)"
          "av_roles db3 = av_roles db" "av_identity_roles db3 = av_identity_roles db"
        by (rule viewer_from_request [OF d(2) res, unfolded d(3-5)])
      have "roles_readable db3" using assms(4) v(3) by (simp add: roles_readable_def)
      moreover have "may_view fo row db3 = may_view fo' (viewer_of who db) db" by (rule may_view_cong [OF fo'(2) v(2-4)])
      ultimately show ?thesis using Some t f frow v(1) fo' to'
        by (simp add: requireTopicVisible_def topic_answer_def canViewTopic_def canViewForum_iff require_true_Inr)
    qed
  qed
qed

section \<open>Administrators\<close>

lemma requireAdmin_decides:
  assumes "identities_trusted db" and "fst (resolveAuthContext H https now request db) = Inr who"
  shows "fst (requireAdmin H https now request db) = Inr c \<longleftrightarrow>
    who = Some c \<and> hasScope c Scope_admin \<and> map_option id_kind (identity_row_of db (ac_identityId c)) = Some ''admin''"
proof -
  obtain d where r: "resolveAuthContext H https now request db = (Inr who, d)" using assms(2) by (metis prod.collapse)
  have sp: "same_people db d" using resolve_people [of db H https now request] r by simp
  have t: "identities_trusted d" and look: "identity_row_of d = identity_row_of db"
    using assms(1) sp identities_same [of d db] by (auto simp: same_people_def identity_row_of_def fun_eq_iff)
  have kind: "map_option id_kind row = map_option id_kind (identity_row_of db j)" if "getIdentity now j d = (row, e)" for j row e
    using arg_cong [OF getIdentity_trusted [OF t that], of "map_option (\<lambda>x. fst (snd x))"] look by (simp add: option.map_comp comp_def)
  show ?thesis
  proof (cases who)
    case None
    then show ?thesis using r by (simp add: requireAdmin_def getCurrentUser_def requireScope_def)
  next
    case (Some u)
    obtain row e where g: "getIdentity now (ac_identityId u) d = (row, e)" by fastforce
    have "map_option id_kind (identity_row_of db (ac_identityId u)) = Some ''admin'' \<longleftrightarrow> (\<exists>x. row = Some x \<and> id_kind x = ''admin'')"
      unfolding kind [OF g, symmetric] by (cases row) auto
    then show ?thesis using r g Some by (auto simp: requireAdmin_def getCurrentUser_def requireScope_def split: option.splits)
  qed
qed

text \<open>
  C14. The administrator gate stays sound and complete. Start from trusted caches and let any sequence of
  operations of the store run, with cached reads in between: the gate then admits a request exactly if it
  authenticates with the administrator scope as an identity whose row says administrator.
\<close>

theorem admin_gate_exact:
  assumes "people_ok db" and "(store_step H)\<^sup>*\<^sup>* db db'"
    and "fst (resolveAuthContext H https now request db') = Inr who"
  shows "fst (requireAdmin H https now request db') = Inr c \<longleftrightarrow>
    who = Some c \<and> hasScope c Scope_admin \<and> map_option id_kind (identity_row_of db' (ac_identityId c)) = Some ''admin''"
  using requireAdmin_decides [OF _ assms(3)] people_ok_steps [OF assms(2,1)] by (simp add: people_ok_def)

end
