(* ===== verification/User_Files.thy ===== *)
theory User_Files
  imports Forum_Db
begin

text \<open>
  The files of the forum: stored bytes (\<^verbatim>\<open>file_blobs\<close>), the files people see (\<^verbatim>\<open>user_files\<close>, with aliases
  for merged ones), their attachments to posts, uploads waiting for a post, and the queue of paths to
  unlink, with every operation of \<^verbatim>\<open>server/store.ts\<close> on them and the maintenance pass of
  \<^verbatim>\<open>server/services/fileStorageMaintenance.ts\<close>. Posts, topics and identities appear by their ids.
\<close>

section \<open>Rows\<close>

datatype blob_state = Blob_staging | Blob_ready | Blob_gc_pending | Blob_missing

record blob_row =
  bl_id :: ident
  bl_owner :: "ident option"
  bl_sha256 :: "string option"
  bl_size :: int
  bl_path :: string
  bl_state :: blob_state
  bl_created_at :: iso_time
  bl_updated_at :: iso_time

record user_file_row =
  uf_id :: ident
  uf_identity :: "ident option"
  uf_blob :: "ident option"
  uf_filename :: js_string
  uf_mime :: string
  uf_size :: int
  uf_standalone :: bool
  uf_visibility :: "file_visibility option"
  uf_expires_at :: "iso_time option"
  uf_revision :: int
  uf_created_at :: iso_time
  uf_updated_at :: iso_time

record attachment_row =
  am_id :: ident
  am_file :: "ident option"
  am_post :: ident
  am_filename :: js_string
  am_mime :: string
  am_size :: int
  am_path :: "string option"
  am_sha256 :: "string option"
  am_created_at :: iso_time
  am_deleted_at :: "iso_time option"
  am_delete_reason :: "string option"

record alias_row =
  al_id :: ident
  al_file :: ident
  al_created_at :: iso_time

record deletion_row =
  dq_path :: string
  dq_reason :: string
  dq_created_at :: iso_time
  dq_attempts :: int
  dq_error :: "js_string option"

record pending_attachment_row =
  pa_id :: ident
  pa_topic :: ident
  pa_filename :: js_string
  pa_mime :: string
  pa_size :: int
  pa_path :: string
  pa_sha256 :: "string option"
  pa_created_by :: "ident option"
  pa_created_at :: iso_time
  pa_expires_at :: iso_time

record file_db =
  fd_blobs :: "blob_row table"
  fd_files :: "user_file_row table"
  fd_aliases :: "alias_row table"
  fd_attachments :: "attachment_row table"
  fd_deletions :: "deletion_row table"
  fd_pendings :: "pending_attachment_row table"
  fd_reserved :: "ident list"
  fd_handed_over :: "ident list"
  fd_post_ids :: "ident list"
  fd_topic_ids :: "ident list"
  fd_owner_ids :: "ident list"

section \<open>Uploads waiting for a post\<close>

definition getPendingAttachment :: "ident \<Rightarrow> file_db \<Rightarrow> pending_attachment_row option" where
  "getPendingAttachment i db = sql_get (\<lambda>p. pa_id p = i) (fd_pendings db)"

definition createPendingAttachment ::
  "pending_attachment_row \<Rightarrow> file_db \<Rightarrow> store_error + (pending_attachment_row option \<times> file_db)" where
  "createPendingAttachment row db =
    (if sql_exists (\<lambda>p. pa_id p = pa_id row) (fd_pendings db) \<or> pa_topic row \<notin> set (fd_topic_ids db) then Inl Store_constraint
     else let db' = db\<lparr>fd_pendings := sql_insert row (fd_pendings db)\<rparr> in Inr (getPendingAttachment (pa_id row) db', db'))"

definition deletePendingAttachment :: "ident \<Rightarrow> file_db \<Rightarrow> file_db" where
  "deletePendingAttachment i db = (if i \<in> set (fd_reserved db) then db
     else db\<lparr>fd_pendings := sql_delete (\<lambda>p. pa_id p = i) (fd_pendings db)\<rparr>)"

definition queue_deletion :: "iso_time \<Rightarrow> string \<Rightarrow> string \<Rightarrow> deletion_row table \<Rightarrow> deletion_row table" where
  \<comment> \<open>\<^verbatim>\<open>insert ... on conflict(storage_path) do nothing\<close>\<close>
  "queue_deletion now why path q = (if sql_exists (\<lambda>d. dq_path d = path) q then q
     else sql_insert \<lparr>dq_path = path, dq_reason = why, dq_created_at = now, dq_attempts = 0, dq_error = None\<rparr> q)"

definition expired_pending :: "iso_time \<Rightarrow> file_db \<Rightarrow> pending_attachment_row \<Rightarrow> bool" where
  \<comment> \<open>\<open>fd_handed_over\<close>: uploads named by a handoff that is pending, linking, failed or in review\<close>
  "expired_pending now db p \<longleftrightarrow> pa_expires_at p \<le> now \<and> pa_id p \<notin> set (fd_handed_over db) \<and> pa_id p \<notin> set (fd_reserved db)"

definition deleteExpiredPendingAttachments :: "iso_time \<Rightarrow> file_db \<Rightarrow> pending_attachment_row list \<times> file_db" where
  "deleteExpiredPendingAttachments now db =
    (let rows = sql_select (expired_pending now db) (fd_pendings db) in
     (rows, db\<lparr>fd_deletions := foldl (\<lambda>q p. queue_deletion now ''expired_pending_attachment'' (pa_path p) q) (fd_deletions db) rows,
        fd_pendings := sql_delete (expired_pending now db) (fd_pendings db)\<rparr>))"

section \<open>Blobs\<close>

definition getBlob :: "ident \<Rightarrow> file_db \<Rightarrow> blob_row option" where
  "getBlob i db = sql_get (\<lambda>b. bl_id b = i) (fd_blobs db)"

definition same_content :: "blob_row \<Rightarrow> blob_row \<Rightarrow> bool" where
  \<comment> \<open>the key of \<^verbatim>\<open>idx_file_blobs_owner_hash\<close>\<close>
  "same_content a b \<longleftrightarrow> bl_owner a \<noteq> None \<and> bl_sha256 a \<noteq> None \<and> bl_owner b = bl_owner a \<and> bl_sha256 b = bl_sha256 a \<and> bl_size b = bl_size a"

definition ready_conflict :: "blob_row \<Rightarrow> blob_row table \<Rightarrow> bool" where
  \<comment> \<open>the unique index, which covers ready blobs\<close>
  "ready_conflict row t \<longleftrightarrow> bl_state row = Blob_ready
     \<and> sql_exists (\<lambda>b. bl_id b \<noteq> bl_id row \<and> bl_state b = Blob_ready \<and> same_content row b) t"

definition insert_blob :: "blob_row \<Rightarrow> file_db \<Rightarrow> store_error + file_db" where
  "insert_blob row db =
    (if sql_exists (\<lambda>b. bl_id b = bl_id row) (fd_blobs db) \<or> ready_conflict row (fd_blobs db)
        \<or> (case bl_owner row of None \<Rightarrow> False | Some x \<Rightarrow> x \<notin> set (fd_owner_ids db))
     then Inl Store_constraint else Inr (db\<lparr>fd_blobs := sql_insert row (fd_blobs db)\<rparr>))"

definition update_blob :: "ident \<Rightarrow> (blob_row \<Rightarrow> blob_row) \<Rightarrow> file_db \<Rightarrow> store_error + file_db" where
  \<comment> \<open>an update of the blob with that id\<close>
  "update_blob i f db = (case getBlob i db of
     None \<Rightarrow> Inr db
   | Some b \<Rightarrow> if ready_conflict (f b) (fd_blobs db) then Inl Store_constraint
       else Inr (db\<lparr>fd_blobs := sql_update (\<lambda>b. bl_id b = i) f (fd_blobs db)\<rparr>))"

definition set_blob_state :: "iso_time \<Rightarrow> blob_state \<Rightarrow> ident \<Rightarrow> file_db \<Rightarrow> store_error + file_db" where
  "set_blob_state now state i db = update_blob i (\<lambda>b. b\<lparr>bl_state := state, bl_updated_at := now\<rparr>) db"

definition ready_blob :: "iso_time \<Rightarrow> ident \<Rightarrow> ident option \<Rightarrow> string option \<Rightarrow> int \<Rightarrow> string \<Rightarrow> blob_row" where
  "ready_blob now i owner sha bytes path = \<lparr>bl_id = i, bl_owner = owner, bl_sha256 = sha, bl_size = bytes, bl_path = path,
     bl_state = Blob_ready, bl_created_at = now, bl_updated_at = now\<rparr>"

definition hasBlobAtStoragePath :: "string \<Rightarrow> file_db \<Rightarrow> bool" where
  "hasBlobAtStoragePath path db = sql_exists (\<lambda>b. bl_path b = path) (fd_blobs db)"

definition hasPendingAttachmentAtStoragePath :: "string \<Rightarrow> file_db \<Rightarrow> bool" where
  "hasPendingAttachmentAtStoragePath path db = sql_exists (\<lambda>p. pa_path p = path) (fd_pendings db)"

definition getIdentityBlobBytes :: "ident \<Rightarrow> file_db \<Rightarrow> int" where
  "getIdentityBlobBytes i db = sum_list (map bl_size
     (sql_select (\<lambda>b. bl_owner b = Some i \<and> (bl_state b = Blob_ready \<or> bl_state b = Blob_staging)) (fd_blobs db)))"

section \<open>Files\<close>

definition file_row :: "ident \<Rightarrow> file_db \<Rightarrow> user_file_row option" where
  "file_row i db = sql_get (\<lambda>f. uf_id f = i) (fd_files db)"

definition getUserFile :: "ident \<Rightarrow> file_db \<Rightarrow> user_file_row option" where
  "getUserFile i db = (case file_row i db of
     Some f \<Rightarrow> Some f
   | None \<Rightarrow> (case sql_get (\<lambda>a. al_id a = i) (fd_aliases db) of None \<Rightarrow> None | Some a \<Rightarrow> file_row (al_file a) db))"

definition getUserFileBlob :: "ident \<Rightarrow> file_db \<Rightarrow> blob_row option" where
  "getUserFileBlob i db = (case getUserFile i db of None \<Rightarrow> None
     | Some f \<Rightarrow> (case uf_blob f of None \<Rightarrow> None | Some b \<Rightarrow> getBlob b db))"

definition findUserFileByHash :: "ident \<Rightarrow> string \<Rightarrow> int \<Rightarrow> blob_state list \<Rightarrow> file_db \<Rightarrow> user_file_row option" where
  "findUserFileByHash owner sha bytes states db =
    (case sql_order_by (\<lambda>f. (uf_created_at f, uf_id f))
       (sql_select (\<lambda>f. uf_identity f = Some owner \<and> (case uf_blob f of None \<Rightarrow> False | Some i \<Rightarrow>
          (case getBlob i db of None \<Rightarrow> False
           | Some b \<Rightarrow> bl_sha256 b = Some sha \<and> bl_size b = bytes \<and> bl_state b \<in> set states))) (fd_files db)) of
       [] \<Rightarrow> None | f # _ \<Rightarrow> Some f)"

definition live_attachment :: "ident \<Rightarrow> attachment_row \<Rightarrow> bool" where
  "live_attachment file a \<longleftrightarrow> am_file a = Some file \<and> am_deleted_at a = None"

definition referenced :: "file_db \<Rightarrow> user_file_row \<Rightarrow> bool" where
  "referenced db f \<longleftrightarrow> uf_standalone f \<or> sql_exists (live_attachment (uf_id f)) (fd_attachments db)"

definition markUnreferencedBlobsForGc :: "iso_time \<Rightarrow> file_db \<Rightarrow> file_db" where
  "markUnreferencedBlobsForGc now db = db\<lparr>fd_blobs := sql_update
     (\<lambda>b. (bl_state b = Blob_ready \<or> bl_state b = Blob_missing)
        \<and> \<not> sql_exists (\<lambda>f. uf_blob f = Some (bl_id b) \<and> referenced db f) (fd_files db))
     (\<lambda>b. b\<lparr>bl_state := Blob_gc_pending, bl_updated_at := now\<rparr>) (fd_blobs db)\<rparr>"

definition replace_blob :: "ident \<Rightarrow> ident \<Rightarrow> file_db \<Rightarrow> file_db" where
  "replace_blob old new db = db\<lparr>fd_files := sql_update (\<lambda>f. uf_blob f = Some old) (\<lambda>f. f\<lparr>uf_blob := Some new\<rparr>) (fd_files db)\<rparr>"

definition revive_blob ::
  "iso_time \<Rightarrow> ident \<Rightarrow> ident option \<Rightarrow> string option \<Rightarrow> int \<Rightarrow> string \<Rightarrow> user_file_row \<Rightarrow> file_db \<Rightarrow> store_error + file_db" where
  \<comment> \<open>the same bytes arrive again: a blob due for collection is kept, a missing one is replaced\<close>
  "revive_blob now i owner sha bytes path f db = (case uf_blob f of
     None \<Rightarrow> Inr db
   | Some old \<Rightarrow> (case getBlob old db of
       None \<Rightarrow> Inr db
     | Some blob \<Rightarrow>
         if bl_state blob = Blob_gc_pending then set_blob_state now Blob_ready old db
         else if bl_state blob = Blob_missing then
           (case insert_blob (ready_blob now i owner sha bytes path) db of
              Inl e \<Rightarrow> Inl e
            | Inr db1 \<Rightarrow> set_blob_state now Blob_gc_pending old (replace_blob old i db1))
         else Inr db))"

section \<open>Attachments\<close>

definition am_blob :: "attachment_row \<Rightarrow> file_db \<Rightarrow> blob_row option" where
  \<comment> \<open>the two left joins\<close>
  "am_blob a db = (case am_file a of None \<Rightarrow> None | Some i \<Rightarrow> (case file_row i db of None \<Rightarrow> None
     | Some f \<Rightarrow> (case uf_blob f of None \<Rightarrow> None | Some b \<Rightarrow> getBlob b db)))"

definition read_attachment :: "file_db \<Rightarrow> attachment_row \<Rightarrow> attachment_row" where
  "read_attachment db a = (case am_blob a db of
     None \<Rightarrow> a
   | Some b \<Rightarrow> a\<lparr>am_path := Some (bl_path b), am_sha256 := (case bl_sha256 b of None \<Rightarrow> am_sha256 a | Some h \<Rightarrow> Some h)\<rparr>)"

definition getAttachment :: "ident \<Rightarrow> file_db \<Rightarrow> attachment_row option" where
  "getAttachment i db = map_option (read_attachment db) (sql_get (\<lambda>a. am_id a = i) (fd_attachments db))"

definition getAttachmentBlob :: "ident \<Rightarrow> file_db \<Rightarrow> blob_row option" where
  "getAttachmentBlob i db = (case sql_get (\<lambda>a. am_id a = i) (fd_attachments db) of None \<Rightarrow> None | Some a \<Rightarrow> am_blob a db)"

definition listAttachmentsByPost :: "ident \<Rightarrow> file_db \<Rightarrow> attachment_row list" where
  "listAttachmentsByPost post db =
    sql_order_by am_created_at (map (read_attachment db) (sql_select (\<lambda>a. am_post a = post) (fd_attachments db)))"

definition getAttachmentByStoragePath :: "string \<Rightarrow> file_db \<Rightarrow> attachment_row option" where
  "getAttachmentByStoragePath path db =
    sql_get (\<lambda>a. case am_blob a db of None \<Rightarrow> False | Some b \<Rightarrow> bl_path b = path) (fd_attachments db)"

definition drop_attachments :: "iso_time \<Rightarrow> string \<Rightarrow> (attachment_row \<Rightarrow> bool) \<Rightarrow> file_db \<Rightarrow> file_db" where
  "drop_attachments now why p db = markUnreferencedBlobsForGc now (db\<lparr>fd_attachments := sql_update p
     (\<lambda>a. a\<lparr>am_deleted_at := Some (case am_deleted_at a of None \<Rightarrow> now | Some t \<Rightarrow> t),
        am_delete_reason := Some (case am_delete_reason a of None \<Rightarrow> why | Some r \<Rightarrow> r)\<rparr>) (fd_attachments db)\<rparr>)"

definition deleteAttachment :: "iso_time \<Rightarrow> ident \<Rightarrow> string \<Rightarrow> file_db \<Rightarrow> file_db" where
  "deleteAttachment now i why db = drop_attachments now why (\<lambda>a. am_id a = i) db"

definition detachPostAttachments :: "iso_time \<Rightarrow> ident \<Rightarrow> string \<Rightarrow> file_db \<Rightarrow> file_db" where
  "detachPostAttachments now post why db = drop_attachments now why (\<lambda>a. am_post a = post) db"

record create_attachment_input =
  ca_post :: ident
  ca_filename :: js_string
  ca_mime :: string
  ca_size :: int
  ca_path :: string
  ca_sha256 :: "string option"
  ca_owner :: "ident option"
  ca_dedupe_by_path :: bool
  ca_max_owner_bytes :: "int option"

definition all_states :: "blob_state list" where
  "all_states = [Blob_ready, Blob_missing, Blob_gc_pending]"

definition new_file ::
  "iso_time \<Rightarrow> ident \<Rightarrow> ident option \<Rightarrow> ident \<Rightarrow> js_string \<Rightarrow> string \<Rightarrow> int \<Rightarrow> user_file_row" where
  "new_file now i owner blob filename mime bytes = \<lparr>uf_id = i, uf_identity = owner, uf_blob = Some blob, uf_filename = filename,
     uf_mime = mime, uf_size = bytes, uf_standalone = False, uf_visibility = None, uf_expires_at = None, uf_revision = 1,
     uf_created_at = now, uf_updated_at = now\<rparr>"

definition insert_file :: "user_file_row \<Rightarrow> file_db \<Rightarrow> store_error + file_db" where
  "insert_file f db = (if sql_exists (\<lambda>g. uf_id g = uf_id f) (fd_files db)
        \<or> (case uf_identity f of None \<Rightarrow> False | Some x \<Rightarrow> x \<notin> set (fd_owner_ids db))
     then Inl Store_constraint else Inr (db\<lparr>fd_files := sql_insert f (fd_files db)\<rparr>))"

definition over_quota :: "ident option \<Rightarrow> int option \<Rightarrow> int \<Rightarrow> file_db \<Rightarrow> bool" where
  "over_quota owner limit bytes db = (case (owner, limit) of
     (Some x, Some m) \<Rightarrow> getIdentityBlobBytes x db + bytes > m | _ \<Rightarrow> False)"

definition file_by_path :: "string \<Rightarrow> file_db \<Rightarrow> user_file_row option" where
  "file_by_path path db = sql_get (\<lambda>f. uf_identity f = None \<and> (case uf_blob f of None \<Rightarrow> False | Some i \<Rightarrow>
     (case getBlob i db of None \<Rightarrow> False
      | Some b \<Rightarrow> bl_path b = path \<and> (bl_state b = Blob_ready \<or> bl_state b = Blob_gc_pending)))) (fd_files db)"

definition set_ready_if_pending :: "iso_time \<Rightarrow> ident \<Rightarrow> file_db \<Rightarrow> store_error + file_db" where
  "set_ready_if_pending now i db =
    (if map_option bl_state (getBlob i db) = Some Blob_gc_pending then set_blob_state now Blob_ready i db else Inr db)"

definition file_for_attachment ::
  "iso_time \<Rightarrow> uuid_stream \<Rightarrow> create_attachment_input \<Rightarrow> file_db \<Rightarrow> store_error + (ident \<times> file_db)" where
  \<comment> \<open>the owner's file with these bytes, the system's file at this path, or a new one\<close>
  "file_for_attachment now u input db =
    (let known = (case (ca_owner input, ca_sha256 input) of
           (Some x, Some h) \<Rightarrow> if x = [] \<or> h = [] then None else findUserFileByHash x h (ca_size input) all_states db | _ \<Rightarrow> None)
     in case known of
       Some f \<Rightarrow> (case revive_blob now (u 1) (ca_owner input) (ca_sha256 input) (ca_size input) (ca_path input) f db of
           Inl e \<Rightarrow> Inl e | Inr db1 \<Rightarrow> Inr (uf_id f, db1))
     | None \<Rightarrow>
         (case (if ca_owner input = None \<and> ca_dedupe_by_path input then file_by_path (ca_path input) db else None) of
            Some f \<Rightarrow> (case uf_blob f of None \<Rightarrow> Inr (uf_id f, db)
              | Some b \<Rightarrow> (case set_ready_if_pending now b db of Inl e \<Rightarrow> Inl e | Inr db1 \<Rightarrow> Inr (uf_id f, db1)))
          | None \<Rightarrow>
              if truthy_id (ca_owner input) \<and> over_quota (ca_owner input) (ca_max_owner_bytes input) (ca_size input) db
              then Inl (Store_error ''file quota exceeded'')
              else (case insert_blob (ready_blob now (u 1) (ca_owner input) (ca_sha256 input) (ca_size input) (ca_path input)) db of
                  Inl e \<Rightarrow> Inl e
                | Inr db1 \<Rightarrow> (case insert_file (new_file now (u 2) (ca_owner input) (u 1) (ca_filename input) (ca_mime input) (ca_size input)) db1 of
                    Inl e \<Rightarrow> Inl e | Inr db2 \<Rightarrow> Inr (u 2, db2)))))"

definition createAttachment ::
  "iso_time \<Rightarrow> uuid_stream \<Rightarrow> create_attachment_input \<Rightarrow> file_db \<Rightarrow> store_error + (attachment_row option \<times> file_db)" where
  "createAttachment now u input db = (case file_for_attachment now u input db of
     Inl e \<Rightarrow> Inl e
   | Inr (file, db1) \<Rightarrow>
       (case sql_get (\<lambda>a. live_attachment file a \<and> am_post a = ca_post input) (fd_attachments db1) of
          Some a \<Rightarrow> Inr (getAttachment (am_id a) db1, db1)
        | None \<Rightarrow>
            if sql_exists (\<lambda>a. am_id a = u 0) (fd_attachments db1) \<or> ca_post input \<notin> set (fd_post_ids db1) then Inl Store_constraint
            else let db2 = db1\<lparr>fd_attachments := sql_insert \<lparr>am_id = u 0, am_file = Some file, am_post = ca_post input,
                     am_filename = ca_filename input, am_mime = ca_mime input, am_size = ca_size input, am_path = None,
                     am_sha256 = None, am_created_at = now, am_deleted_at = None, am_delete_reason = None\<rparr> (fd_attachments db1)\<rparr>
                 in Inr (getAttachment (u 0) db2, db2)))"

section \<open>Standalone files\<close>

record create_file_input =
  cf_identity :: ident
  cf_filename :: js_string
  cf_mime :: string
  cf_size :: int
  cf_path :: string
  cf_sha256 :: "string option"
  cf_visibility :: "file_visibility option"
  cf_expires_at :: "iso_time option"
  cf_max_owner_bytes :: "int option"

definition cf_shown :: "create_file_input \<Rightarrow> file_visibility" where
  "cf_shown input = (case cf_visibility input of None \<Rightarrow> FV_private | Some v \<Rightarrow> v)"

definition createUserFile ::
  "iso_time \<Rightarrow> uuid_stream \<Rightarrow> create_file_input \<Rightarrow> file_db \<Rightarrow> store_error + (user_file_row option \<times> file_db)" where
  "createUserFile now u input db =
    (let known = (case cf_sha256 input of None \<Rightarrow> None
           | Some h \<Rightarrow> if h = [] then None else findUserFileByHash (cf_identity input) h (cf_size input) all_states db)
     in case known of
       Some f \<Rightarrow>
         (case revive_blob now (u 0) (Some (cf_identity input)) (cf_sha256 input) (cf_size input) (cf_path input) f db of
            Inl e \<Rightarrow> Inl e
          | Inr db1 \<Rightarrow> let db2 = db1\<lparr>fd_files := sql_update (\<lambda>g. uf_id g = uf_id f)
                (\<lambda>g. g\<lparr>uf_standalone := True, uf_visibility := Some (cf_shown input), uf_expires_at := cf_expires_at input,
                   uf_revision := uf_revision g + 1, uf_updated_at := now\<rparr>) (fd_files db1)\<rparr>
              in Inr (getUserFile (uf_id f) db2, db2))
     | None \<Rightarrow>
         if over_quota (Some (cf_identity input)) (cf_max_owner_bytes input) (cf_size input) db
         then Inl (Store_error ''file quota exceeded'')
         else (case insert_blob (ready_blob now (u 1) (Some (cf_identity input)) (cf_sha256 input) (cf_size input) (cf_path input)) db of
             Inl e \<Rightarrow> Inl e
           | Inr db1 \<Rightarrow> (case insert_file ((new_file now (u 0) (Some (cf_identity input)) (u 1) (cf_filename input) (cf_mime input) (cf_size input))
                 \<lparr>uf_standalone := True, uf_visibility := Some (cf_shown input), uf_expires_at := cf_expires_at input\<rparr>) db1 of
               Inl e \<Rightarrow> Inl e | Inr db2 \<Rightarrow> Inr (getUserFile (u 0) db2, db2))))"

datatype file_update_result = File_updated "user_file_row option" | File_missing | File_conflict

definition updateUserFile ::
  "iso_time \<Rightarrow> ident \<Rightarrow> ident \<Rightarrow> int \<Rightarrow> file_visibility \<Rightarrow> iso_time option option \<Rightarrow> file_db \<Rightarrow> file_update_result \<times> file_db" where
  \<comment> \<open>an absent expiry keeps the stored one\<close>
  "updateUserFile now i owner expected visibility expires db = (case getUserFile i db of
     None \<Rightarrow> (File_missing, db)
   | Some f \<Rightarrow>
       if uf_identity f \<noteq> Some owner \<or> \<not> uf_standalone f then (File_missing, db)
       else if uf_revision f \<noteq> expected then (File_conflict, db)
       else let db' = db\<lparr>fd_files := sql_update (\<lambda>g. uf_id g = uf_id f)
              (\<lambda>g. g\<lparr>uf_visibility := Some visibility, uf_expires_at := (case expires of None \<Rightarrow> uf_expires_at g | Some e \<Rightarrow> e),
                 uf_revision := uf_revision g + 1, uf_updated_at := now\<rparr>) (fd_files db)\<rparr>
            in (File_updated (getUserFile (uf_id f) db'), db'))"

definition unshare :: "iso_time \<Rightarrow> user_file_row \<Rightarrow> user_file_row" where
  "unshare now f = f\<lparr>uf_standalone := False, uf_visibility := None, uf_expires_at := None, uf_revision := uf_revision f + 1,
     uf_updated_at := now\<rparr>"

definition deleteUserFile :: "iso_time \<Rightarrow> ident \<Rightarrow> ident option \<Rightarrow> file_db \<Rightarrow> file_db" where
  "deleteUserFile now i owner db = (case getUserFile i db of
     None \<Rightarrow> db
   | Some f \<Rightarrow> markUnreferencedBlobsForGc now (db\<lparr>fd_files :=
       sql_update (\<lambda>g. uf_id g = uf_id f \<and> (truthy_id owner \<longrightarrow> uf_identity g = owner)) (unshare now) (fd_files db)\<rparr>))"

definition expireUserFiles :: "iso_time \<Rightarrow> iso_time \<Rightarrow> file_db \<Rightarrow> nat \<times> file_db" where
  \<comment> \<open>the first time is that of the clock, the second the argument\<close>
  "expireUserFiles clock now db =
    (let hit = (\<lambda>f. uf_standalone f \<and> (case uf_expires_at f of None \<Rightarrow> False | Some e \<Rightarrow> e \<le> now)) in
     (sql_count hit (fd_files db), markUnreferencedBlobsForGc clock (db\<lparr>fd_files := sql_update hit (unshare now) (fd_files db)\<rparr>)))"

datatype file_filter = Only_standalone | Only_attached | All_files

definition listUserFilesByIdentity ::
  "ident \<Rightarrow> file_filter \<Rightarrow> (iso_time \<times> ident \<times> nat) option \<Rightarrow> file_db \<Rightarrow> user_file_row list" where
  "listUserFilesByIdentity owner which page db =
    (let attached = (\<lambda>f. sql_exists (live_attachment (uf_id f)) (fd_attachments db));
         rows = sql_select (\<lambda>f. uf_identity f = Some owner
           \<and> (case which of Only_standalone \<Rightarrow> uf_standalone f | Only_attached \<Rightarrow> attached f | All_files \<Rightarrow> uf_standalone f \<or> attached f)
           \<and> (case page of None \<Rightarrow> True | Some (t, i, _) \<Rightarrow> uf_created_at f < t \<or> uf_created_at f = t \<and> uf_id f < i)) (fd_files db);
         sorted = rev (sql_order_by (\<lambda>f. (uf_created_at f, uf_id f)) rows)
     in case page of None \<Rightarrow> sorted | Some (_, _, n) \<Rightarrow> take n sorted)"

section \<open>Collection\<close>

definition listReadyBlobs :: "nat \<Rightarrow> file_db \<Rightarrow> blob_row list" where
  "listReadyBlobs n db = take n (sql_order_by bl_updated_at (sql_select (\<lambda>b. bl_state b = Blob_ready) (fd_blobs db)))"

definition touchReadyBlob :: "iso_time \<Rightarrow> ident \<Rightarrow> file_db \<Rightarrow> file_db" where
  "touchReadyBlob now i db = db\<lparr>fd_blobs := sql_update (\<lambda>b. bl_id b = i \<and> bl_state b = Blob_ready)
     (\<lambda>b. b\<lparr>bl_updated_at := now\<rparr>) (fd_blobs db)\<rparr>"

definition listQueuedFileDeletions :: "nat \<Rightarrow> file_db \<Rightarrow> deletion_row list" where
  "listQueuedFileDeletions n db = take n (sql_order_by dq_created_at (fd_deletions db))"

definition completeQueuedFileDeletion :: "string \<Rightarrow> file_db \<Rightarrow> file_db" where
  "completeQueuedFileDeletion path db = db\<lparr>fd_deletions := sql_delete (\<lambda>d. dq_path d = path) (fd_deletions db)\<rparr>"

definition failQueuedFileDeletion :: "string \<Rightarrow> js_string \<Rightarrow> file_db \<Rightarrow> file_db" where
  "failQueuedFileDeletion path error db = db\<lparr>fd_deletions := sql_update (\<lambda>d. dq_path d = path)
     (\<lambda>d. d\<lparr>dq_attempts := dq_attempts d + 1, dq_error := Some (js_slice 1000 error)\<rparr>) (fd_deletions db)\<rparr>"

definition listUnverifiedBlobs :: "nat \<Rightarrow> file_db \<Rightarrow> blob_row list" where
  "listUnverifiedBlobs n db =
    take n (sql_order_by bl_updated_at (sql_select (\<lambda>b. bl_state b = Blob_ready \<and> bl_sha256 b = None) (fd_blobs db)))"

definition markBlobMissing :: "iso_time \<Rightarrow> ident \<Rightarrow> file_db \<Rightarrow> file_db" where
  "markBlobMissing now i db = db\<lparr>fd_blobs := sql_update (\<lambda>b. bl_id b = i)
     (\<lambda>b. b\<lparr>bl_state := Blob_missing, bl_updated_at := now\<rparr>) (fd_blobs db)\<rparr>"

definition visibility_rank :: "file_visibility option \<Rightarrow> int" where
  "visibility_rank v = (if v = Some FV_public then 3 else if v = Some FV_members then 2 else 1)"

definition widest :: "user_file_row list \<Rightarrow> file_visibility option" where
  "widest fs = (case sort_key (\<lambda>v. - visibility_rank v) (map uf_visibility fs) of [] \<Rightarrow> None | v # _ \<Rightarrow> v)"

definition latest_expiry :: "user_file_row list \<Rightarrow> iso_time option" where
  "latest_expiry fs = (if list_ex (\<lambda>f. uf_expires_at f = None) fs then None
     else case sort (List.map_filter uf_expires_at fs) of [] \<Rightarrow> None | ts \<Rightarrow> Some (last ts))"

definition merge_loser :: "iso_time \<Rightarrow> ident \<Rightarrow> ident \<Rightarrow> file_db \<Rightarrow> file_db" where
  "merge_loser now canonical loser db = db\<lparr>
     fd_attachments := sql_update (\<lambda>a. am_file a = Some loser) (\<lambda>a. a\<lparr>am_file := Some canonical\<rparr>) (fd_attachments db),
     fd_aliases := (let moved = sql_update (\<lambda>a. al_file a = loser) (\<lambda>a. a\<lparr>al_file := canonical\<rparr>) (fd_aliases db) in
       if sql_exists (\<lambda>a. al_id a = loser) moved then sql_update (\<lambda>a. al_id a = loser) (\<lambda>a. a\<lparr>al_file := canonical\<rparr>) moved
       else sql_insert \<lparr>al_id = loser, al_file = canonical, al_created_at = now\<rparr> moved),
     fd_files := sql_delete (\<lambda>f. uf_id f = loser) (fd_files db)\<rparr>"

definition merge_files :: "iso_time \<Rightarrow> ident \<Rightarrow> ident \<Rightarrow> file_db \<Rightarrow> file_db" where
  \<comment> \<open>all files of two equal blobs become one file of the kept blob\<close>
  "merge_files now kept other db =
    (case sql_order_by (\<lambda>f. (\<not> uf_standalone f, uf_created_at f, uf_id f))
        (sql_select (\<lambda>f. uf_blob f = Some kept \<or> uf_blob f = Some other) (fd_files db)) of
       [] \<Rightarrow> db
     | canonical # losers \<Rightarrow>
         let shared = filter uf_standalone (canonical # losers);
             db1 = db\<lparr>fd_files := sql_update (\<lambda>f. uf_id f = uf_id canonical)
               (\<lambda>f. f\<lparr>uf_blob := Some kept, uf_standalone := shared \<noteq> [], uf_visibility := (if shared = [] then None else widest shared),
                  uf_expires_at := (if shared = [] then None else latest_expiry shared), uf_revision := uf_revision f + 1,
                  uf_updated_at := now\<rparr>) (fd_files db)\<rparr>;
             db2 = foldl (\<lambda>d f. merge_loser now (uf_id canonical) (uf_id f) d) db1 losers
         in db2\<lparr>fd_blobs := sql_update (\<lambda>b. bl_id b = other) (\<lambda>b. b\<lparr>bl_state := Blob_gc_pending, bl_updated_at := now\<rparr>) (fd_blobs db2)\<rparr>)"

definition verifyBlob :: "iso_time \<Rightarrow> ident \<Rightarrow> string \<Rightarrow> int \<Rightarrow> file_db \<Rightarrow> store_error + file_db" where
  "verifyBlob now i sha actual db = (case getBlob i db of
     None \<Rightarrow> Inr db
   | Some blob \<Rightarrow>
       if bl_state blob \<noteq> Blob_ready then Inr db
       else if bl_size blob \<noteq> actual then Inr (markBlobMissing now i db)
       else (case (if truthy_id (bl_owner blob)
                   then sql_get (\<lambda>b. bl_id b \<noteq> i \<and> bl_owner b = bl_owner blob \<and> bl_sha256 b = Some sha \<and> bl_size b = actual
                     \<and> bl_state b = Blob_ready) (fd_blobs db) else None) of
           Some duplicate \<Rightarrow> Inr (merge_files now (bl_id duplicate) i db)
         | None \<Rightarrow> update_blob i (\<lambda>b. b\<lparr>bl_sha256 := Some sha, bl_updated_at := now\<rparr>) db))"

definition listGcPendingBlobs :: "nat \<Rightarrow> file_db \<Rightarrow> blob_row list" where
  "listGcPendingBlobs n db = take n (sql_order_by bl_updated_at (sql_select (\<lambda>b. bl_state b = Blob_gc_pending) (fd_blobs db)))"

definition claimBlobForGc :: "iso_time \<Rightarrow> ident \<Rightarrow> file_db \<Rightarrow> store_error + (string option \<times> file_db)" where
  "claimBlobForGc now i db = (case sql_get (\<lambda>b. bl_id b = i \<and> bl_state b = Blob_gc_pending) (fd_blobs db) of
     None \<Rightarrow> Inr (None, db)
   | Some blob \<Rightarrow>
       if sql_exists (\<lambda>f. uf_blob f = Some i \<and> referenced db f) (fd_files db)
       then (case set_blob_state now Blob_ready i db of Inl e \<Rightarrow> Inl e | Inr db' \<Rightarrow> Inr (None, db'))
       else Inr (Some (bl_path blob), db\<lparr>fd_deletions := queue_deletion now ''unreferenced_blob'' (bl_path blob) (fd_deletions db),
              fd_files := sql_update (\<lambda>f. uf_blob f = Some i) (\<lambda>f. f\<lparr>uf_blob := None\<rparr>) (fd_files db),
              fd_blobs := sql_delete (\<lambda>b. bl_id b = i) (fd_blobs db)\<rparr>))"

definition restoreBlob :: "iso_time \<Rightarrow> ident \<Rightarrow> string \<Rightarrow> string option \<Rightarrow> int \<Rightarrow> file_db \<Rightarrow> store_error + file_db" where
  "restoreBlob now i path sha bytes db = (case getBlob i db of
     None \<Rightarrow> Inr db
   | Some existing \<Rightarrow>
       (case update_blob i (\<lambda>b. b\<lparr>bl_path := path, bl_sha256 := sha, bl_size := bytes, bl_state := Blob_ready, bl_updated_at := now\<rparr>) db of
          Inl e \<Rightarrow> Inl e
        | Inr db' \<Rightarrow> Inr (db'\<lparr>fd_deletions :=
            sql_delete (\<lambda>d. dq_path d = bl_path existing \<or> dq_path d = path) (fd_deletions db')\<rparr>)))"

section \<open>The maintenance pass\<close>

text \<open>
  The directory tree is a list of entries with their paths. \<open>managed\<close> says whether a path resolves below
  the upload root and \<open>unlinkable\<close> whether \<^verbatim>\<open>unlinkSync\<close> succeeds. The pass waits only while it hashes a
  blob; the parts before, between and after those waits are separate functions.
\<close>

record disk_entry =
  de_path :: string
  de_regular :: bool
  de_mtime :: int

type_synonym disk = "disk_entry list"

definition on_disk :: "string \<Rightarrow> disk \<Rightarrow> bool" where
  "on_disk path disk = list_ex (\<lambda>e. de_path e = path) disk"

definition unlink :: "string \<Rightarrow> disk \<Rightarrow> disk" where
  "unlink path disk = filter (\<lambda>e. de_path e \<noteq> path) disk"

definition check_ready_blob :: "(string \<Rightarrow> bool) \<Rightarrow> disk \<Rightarrow> iso_time \<Rightarrow> iso_time \<Rightarrow> file_db \<Rightarrow> blob_row \<Rightarrow> file_db" where
  "check_ready_blob managed disk clock now db b =
    (if \<not> managed (bl_path b) \<or> \<not> on_disk (bl_path b) disk then markBlobMissing clock (bl_id b) db
     else touchReadyBlob now (bl_id b) db)"

definition maintenance_expire :: "(string \<Rightarrow> bool) \<Rightarrow> disk \<Rightarrow> iso_time \<Rightarrow> iso_time \<Rightarrow> file_db \<Rightarrow> nat \<times> file_db" where
  "maintenance_expire managed disk clock now db =
    (let (expired, db1) = expireUserFiles clock now db;
         db2 = snd (deleteExpiredPendingAttachments now db1)
     in (expired, foldl (check_ready_blob managed disk clock now) db2 (listReadyBlobs 50 db2)))"

definition verify_look :: "(string \<Rightarrow> bool) \<Rightarrow> disk \<Rightarrow> iso_time \<Rightarrow> blob_row \<Rightarrow> file_db \<Rightarrow> bool \<times> file_db" where
  \<comment> \<open>one unverified blob, before the wait for its hash; \<open>False\<close> passes on to the next blob\<close>
  "verify_look managed disk clock b db =
    (if \<not> managed (bl_path b) \<or> \<not> on_disk (bl_path b) disk then (False, markBlobMissing clock (bl_id b) db) else (True, db))"

definition verify_hashed :: "iso_time \<Rightarrow> string option \<Rightarrow> int \<Rightarrow> blob_row \<Rightarrow> file_db \<Rightarrow> file_db" where
  \<comment> \<open>after the wait; a file that could not be read (\<open>None\<close>) and a failed verification are deferred\<close>
  "verify_hashed clock hash len b db = (case hash of None \<Rightarrow> db
     | Some h \<Rightarrow> (case verifyBlob clock (bl_id b) h len db of Inl _ \<Rightarrow> db | Inr db' \<Rightarrow> db'))"

definition claim_or_defer :: "iso_time \<Rightarrow> file_db \<Rightarrow> blob_row \<Rightarrow> file_db" where
  "claim_or_defer clock db b = (case claimBlobForGc clock (bl_id b) db of Inl _ \<Rightarrow> db | Inr (_, db') \<Rightarrow> db')"

definition claim_unreferenced :: "iso_time \<Rightarrow> file_db \<Rightarrow> file_db" where
  "claim_unreferenced clock db =
    (let db1 = markUnreferencedBlobsForGc clock db in foldl (claim_or_defer clock) db1 (listGcPendingBlobs 50 db1))"

definition process_deletion ::
  "(string \<Rightarrow> bool) \<Rightarrow> (string \<Rightarrow> bool) \<Rightarrow> js_string \<Rightarrow> file_db \<times> disk \<Rightarrow> deletion_row \<Rightarrow> file_db \<times> disk" where
  "process_deletion managed unlinkable message s d = (case s of (db, disk) \<Rightarrow>
     if \<not> managed (dq_path d) then (failQueuedFileDeletion (dq_path d) (lit ''queued path is outside the managed upload root'') db, disk)
     else if hasBlobAtStoragePath (dq_path d) db \<or> hasPendingAttachmentAtStoragePath (dq_path d) db
     then (completeQueuedFileDeletion (dq_path d) db, disk)
     else if \<not> on_disk (dq_path d) disk then (completeQueuedFileDeletion (dq_path d) db, disk)
     else if unlinkable (dq_path d) then (completeQueuedFileDeletion (dq_path d) db, unlink (dq_path d) disk)
     else (failQueuedFileDeletion (dq_path d) message db, disk))"

definition sweep_entry :: "(string \<Rightarrow> bool) \<Rightarrow> iso_time \<Rightarrow> bool \<Rightarrow> file_db \<Rightarrow> disk \<Rightarrow> string \<times> string \<Rightarrow> disk" where
  \<comment> \<open>one entry of a swept directory: its name and its path\<close>
  "sweep_entry unlinkable now acceptsPending db disk entry = (case entry of (name, path) \<Rightarrow>
     (case List.find (\<lambda>e. de_path e = path) disk of
        None \<Rightarrow> disk
      | Some e \<Rightarrow>
          if \<not> de_regular e then disk
          else if take 9 name \<noteq> ''.staging-''
            \<and> (hasBlobAtStoragePath path db \<or> acceptsPending \<and> hasPendingAttachmentAtStoragePath path db) then disk
          else if now - de_mtime e > 60 * 60000 \<and> unlinkable path then unlink path disk else disk))"

definition sweepUnclaimedFiles ::
  "(string \<Rightarrow> bool) \<Rightarrow> iso_time \<Rightarrow> bool \<Rightarrow> (string \<times> string) list \<Rightarrow> file_db \<Rightarrow> disk \<Rightarrow> disk" where
  "sweepUnclaimedFiles unlinkable now acceptsPending entries db disk =
    foldl (sweep_entry unlinkable now acceptsPending db) disk entries"

definition maintenance_collect ::
  "(string \<Rightarrow> bool) \<Rightarrow> (string \<Rightarrow> bool) \<Rightarrow> js_string \<Rightarrow> iso_time \<Rightarrow> iso_time \<Rightarrow>
   (string \<times> string) list \<Rightarrow> (string \<times> string) list \<Rightarrow> file_db \<Rightarrow> disk \<Rightarrow> file_db \<times> disk" where
  \<comment> \<open>after the last wait: claims, the deletion queue, then the sweep of the upload directories and of the one for pending uploads\<close>
  "maintenance_collect managed unlinkable message clock now uploads pendings db disk =
    (let db2 = claim_unreferenced clock db;
         (db3, disk1) = foldl (process_deletion managed unlinkable message) (db2, disk) (listQueuedFileDeletions 50 db2);
         disk2 = sweepUnclaimedFiles unlinkable now False uploads db3 disk1
     in (db3, sweepUnclaimedFiles unlinkable now True pendings db3 disk2))"

end
