(* ===== verification/File_Laws.thy ===== *)
theory File_Laws
  imports User_Files
begin

text \<open>
  What the file store guarantees: as long as somebody can reach a file, through a share or a live
  attachment, its bytes are registered and never collected; equal uploads of one owner are stored once;
  merging duplicates loses neither a file nor an attachment; the maintenance pass unlinks only paths that
  no blob and no waiting upload claims.
\<close>

section \<open>The invariant\<close>

definition kept :: "file_db \<Rightarrow> user_file_row \<Rightarrow> bool" where
  \<comment> \<open>the file has a blob and it is not due for collection\<close>
  "kept db f \<longleftrightarrow> (\<exists>b \<in> set (fd_blobs db). uf_blob f = Some (bl_id b) \<and> bl_state b \<noteq> Blob_gc_pending)"

definition file_keys :: "file_db \<Rightarrow> bool" where
  "file_keys db \<longleftrightarrow> unique_key bl_id (fd_blobs db) \<and> unique_key uf_id (fd_files db) \<and> unique_key am_id (fd_attachments db)
     \<and> unique_key al_id (fd_aliases db)"

definition held :: "file_db \<Rightarrow> bool" where
  "held db \<longleftrightarrow> (\<forall>f \<in> set (fd_files db). referenced db f \<longrightarrow> kept db f)"

definition attached :: "file_db \<Rightarrow> bool" where
  \<comment> \<open>a live attachment has a file\<close>
  "attached db \<longleftrightarrow> (\<forall>a \<in> set (fd_attachments db). am_deleted_at a = None \<longrightarrow> (\<exists>f \<in> set (fd_files db). am_file a = Some (uf_id f)))"

definition stored_once :: "file_db \<Rightarrow> bool" where
  \<comment> \<open>an owner has the same bytes in at most one ready blob\<close>
  "stored_once db \<longleftrightarrow> (\<forall>a \<in> set (fd_blobs db). \<forall>b \<in> set (fd_blobs db).
     bl_state a = Blob_ready \<longrightarrow> bl_state b = Blob_ready \<longrightarrow> same_content a b \<longrightarrow> bl_id a = bl_id b)"

definition file_ok :: "file_db \<Rightarrow> bool" where
  "file_ok db \<longleftrightarrow> file_keys db \<and> held db \<and> attached db \<and> stored_once db"

section \<open>Blob updates\<close>

lemma referenced_attachments: "fd_attachments d = fd_attachments db \<Longrightarrow> referenced d f = referenced db f"
  by (simp add: referenced_def)

lemma file_ok_blobs:
  \<comment> \<open>only the blob table changes\<close>
  assumes "file_ok db" and "unique_key bl_id t" and "stored_once (db\<lparr>fd_blobs := t\<rparr>)"
    and "\<And>f. f \<in> set (fd_files db) \<Longrightarrow> referenced db f \<Longrightarrow> kept db f \<Longrightarrow> kept (db\<lparr>fd_blobs := t\<rparr>) f"
  shows "file_ok (db\<lparr>fd_blobs := t\<rparr>)"
  using assms by (auto simp: file_ok_def file_keys_def held_def attached_def referenced_def)

lemma kept_update:
  assumes "kept db f" and "\<And>b. bl_id (g b) = bl_id b"
    and "\<And>b. b \<in> set (fd_blobs db) \<Longrightarrow> p b \<Longrightarrow> uf_blob f = Some (bl_id b) \<Longrightarrow> bl_state (g b) \<noteq> Blob_gc_pending"
  shows "kept (db\<lparr>fd_blobs := sql_update p g (fd_blobs db)\<rparr>) f"
proof -
  obtain b where b: "b \<in> set (fd_blobs db)" "uf_blob f = Some (bl_id b)" "bl_state b \<noteq> Blob_gc_pending"
    using assms(1) by (auto simp: kept_def)
  let ?b = "if p b then g b else b"
  have "?b \<in> set (sql_update p g (fd_blobs db))" unfolding set_sql_update using b(1) by (rule imageI)
  moreover have "uf_blob f = Some (bl_id ?b) \<and> bl_state ?b \<noteq> Blob_gc_pending" using b assms(2,3) by auto
  ultimately have "\<exists>c \<in> set (sql_update p g (fd_blobs db)). uf_blob f = Some (bl_id c) \<and> bl_state c \<noteq> Blob_gc_pending"
    by (rule bexI [rotated])
  then show ?thesis by (simp add: kept_def)
qed

lemma stored_once_fewer:
  \<comment> \<open>an update that makes nothing ready and keeps the contents\<close>
  assumes "stored_once db" and "\<And>b. bl_id (g b) = bl_id b \<and> bl_owner (g b) = bl_owner b \<and> bl_sha256 (g b) = bl_sha256 b \<and> bl_size (g b) = bl_size b"
    and "\<And>b. p b \<Longrightarrow> bl_state (g b) = Blob_ready \<Longrightarrow> bl_state b = Blob_ready"
  shows "stored_once (db\<lparr>fd_blobs := sql_update p g (fd_blobs db)\<rparr>)"
  unfolding stored_once_def
proof (intro ballI impI)
  fix x y
  assume x: "x \<in> set (fd_blobs (db\<lparr>fd_blobs := sql_update p g (fd_blobs db)\<rparr>))" and y: "y \<in> set (fd_blobs (db\<lparr>fd_blobs := sql_update p g (fd_blobs db)\<rparr>))"
    and r: "bl_state x = Blob_ready" "bl_state y = Blob_ready" and c: "same_content x y"
  obtain a b where ab: "a \<in> set (fd_blobs db)" "x = (if p a then g a else a)" "b \<in> set (fd_blobs db)" "y = (if p b then g b else b)"
    using x y by (auto simp: set_sql_update)
  have "bl_state a = Blob_ready" "bl_state b = Blob_ready" using r ab assms(3) by (auto split: if_splits)
  moreover have "same_content a b" using c ab assms(2) by (simp add: same_content_def split: if_splits)
  ultimately have "bl_id a = bl_id b" using assms(1) ab unfolding stored_once_def by blast
  then show "bl_id x = bl_id y" using ab assms(2) by (auto split: if_splits)
qed

lemma stored_once_update:
  assumes "stored_once db" and u: "unique_key bl_id (fd_blobs db)" and "update_blob i g db = Inr db'" and id: "\<And>b. bl_id (g b) = bl_id b"
  shows "stored_once db'"
proof (cases "getBlob i db")
  case None
  with assms(1,3) show ?thesis by (simp add: update_blob_def)
next
  case (Some c)
  then have c: "c \<in> set (fd_blobs db)" "bl_id c = i" by (auto simp: getBlob_def dest: sql_get_SomeD)
  have nc: "\<not> ready_conflict (g c) (fd_blobs db)" and db': "db' = db\<lparr>fd_blobs := sql_update (\<lambda>b. bl_id b = i) g (fd_blobs db)\<rparr>"
    using Some assms(3) by (auto simp: update_blob_def split: if_splits)
  have only: "b = c" if "b \<in> set (fd_blobs db)" "bl_id b = i" for b using u c that by (auto dest: unique_keyD)
  have rows: "x = g c \<or> x \<in> set (fd_blobs db) \<and> bl_id x \<noteq> i" if "x \<in> set (fd_blobs db')" for x
    using that only by (auto simp: db' set_sql_update)
  have clash: "bl_id y = bl_id (g c)" if "bl_state (g c) = Blob_ready" "y \<in> set (fd_blobs db)" "bl_state y = Blob_ready" "same_content (g c) y" for y
    using nc that by (auto simp: ready_conflict_def)
  have sym: "same_content a b \<Longrightarrow> same_content b a" for a b by (auto simp: same_content_def)
  show ?thesis unfolding stored_once_def
  proof (intro ballI impI)
    fix x y
    assume "x \<in> set (fd_blobs db')" "y \<in> set (fd_blobs db')" and r: "bl_state x = Blob_ready" "bl_state y = Blob_ready" "same_content x y"
    then show "bl_id x = bl_id y" using rows [of x] rows [of y] clash [of y] clash [of x] sym assms(1) unfolding stored_once_def by metis
  qed
qed

lemma update_blob_ok:
  assumes ok: "file_ok db" and up: "update_blob i g db = Inr db'" and id: "\<And>b. bl_id (g b) = bl_id b"
    and st: "\<And>b. bl_state (g b) \<noteq> Blob_gc_pending \<or> g b = b \<or> bl_state b = Blob_gc_pending"
  shows "file_ok db'"
proof (cases "getBlob i db")
  case None
  with ok up show ?thesis by (simp add: update_blob_def)
next
  case (Some c)
  then have db': "db' = db\<lparr>fd_blobs := sql_update (\<lambda>b. bl_id b = i) g (fd_blobs db)\<rparr>"
    using up by (auto simp: update_blob_def split: if_splits)
  have u: "unique_key bl_id (fd_blobs db)" using ok by (simp add: file_ok_def file_keys_def)
  have "kept db' f" if k: "kept db f" for f
  proof -
    obtain b where b: "b \<in> set (fd_blobs db)" "uf_blob f = Some (bl_id b)" "bl_state b \<noteq> Blob_gc_pending"
      using k by (auto simp: kept_def)
    show ?thesis unfolding db'
    proof (rule kept_update [OF k id])
      fix x assume "x \<in> set (fd_blobs db)" "uf_blob f = Some (bl_id x)"
      then have "x = b" using b u by (auto dest: unique_keyD)
      then show "bl_state (g x) \<noteq> Blob_gc_pending" using st [of b] b(3) by auto
    qed
  qed
  moreover have "stored_once db'" using stored_once_update [OF _ u up id] ok by (simp add: file_ok_def)
  ultimately show ?thesis unfolding db' using ok u id
    by (intro file_ok_blobs) (auto simp: db' intro: unique_key_update)
qed

lemma state_update_ok:
  "file_ok db \<Longrightarrow> set_blob_state now s i db = Inr db' \<Longrightarrow> s \<noteq> Blob_gc_pending \<Longrightarrow> file_ok db'"
  by (erule update_blob_ok [where i = i and g = "\<lambda>b. b\<lparr>bl_state := s, bl_updated_at := now\<rparr>"]) (simp_all add: set_blob_state_def)

lemma blob_rows_ok:
  \<comment> \<open>an update that makes nothing ready and marks no referenced blob for collection\<close>
  assumes ok: "file_ok db"
    and g: "\<And>b. bl_id (g b) = bl_id b \<and> bl_owner (g b) = bl_owner b \<and> bl_sha256 (g b) = bl_sha256 b \<and> bl_size (g b) = bl_size b"
    and "\<And>b. p b \<Longrightarrow> bl_state (g b) = Blob_ready \<Longrightarrow> bl_state b = Blob_ready"
    and "\<And>b f. p b \<Longrightarrow> bl_state (g b) = Blob_gc_pending \<Longrightarrow> f \<in> set (fd_files db) \<Longrightarrow> uf_blob f = Some (bl_id b) \<Longrightarrow> \<not> referenced db f"
  shows "file_ok (db\<lparr>fd_blobs := sql_update p g (fd_blobs db)\<rparr>)"
proof (rule file_ok_blobs [OF ok])
  show "unique_key bl_id (sql_update p g (fd_blobs db))" using ok g by (auto simp: file_ok_def file_keys_def intro: unique_key_update)
  show "stored_once (db\<lparr>fd_blobs := sql_update p g (fd_blobs db)\<rparr>)" using ok g assms(3) by (intro stored_once_fewer) (auto simp: file_ok_def)
  show "kept (db\<lparr>fd_blobs := sql_update p g (fd_blobs db)\<rparr>) f" if "f \<in> set (fd_files db)" "referenced db f" "kept db f" for f
    using that g assms(4) by (intro kept_update) auto
qed

lemma mark_ok: "file_ok db \<Longrightarrow> file_ok (markUnreferencedBlobsForGc now db)"
  unfolding markUnreferencedBlobsForGc_def by (rule blob_rows_ok) auto

lemma markMissing_ok: "file_ok db \<Longrightarrow> file_ok (markBlobMissing now i db)"
  unfolding markBlobMissing_def by (rule blob_rows_ok) auto

lemma touch_ok:
  assumes ok: "file_ok db"
  shows "file_ok (touchReadyBlob now i db)"
  unfolding touchReadyBlob_def by (rule blob_rows_ok [OF ok]) auto

lemma insert_blob_ok:
  assumes ok: "file_ok db" and ins: "insert_blob row db = Inr db'"
  shows "file_ok db'"
proof -
  have db': "db' = db\<lparr>fd_blobs := sql_insert row (fd_blobs db)\<rparr>" and new: "\<forall>b \<in> set (fd_blobs db). bl_id b \<noteq> bl_id row"
      and nc: "\<not> ready_conflict row (fd_blobs db)"
    using ins by (auto simp: insert_blob_def split: if_splits)
  have sym: "same_content a b \<Longrightarrow> same_content b a" for a b by (auto simp: same_content_def)
  have "stored_once db'" unfolding stored_once_def
  proof (intro ballI impI)
    fix x y
    assume xy: "x \<in> set (fd_blobs db')" "y \<in> set (fd_blobs db')" "bl_state x = Blob_ready" "bl_state y = Blob_ready" "same_content x y"
    have clash: "False" if "z \<in> set (fd_blobs db)" "bl_state row = Blob_ready" "bl_state z = Blob_ready" "same_content row z" for z
      using nc new that by (auto simp: ready_conflict_def)
    show "bl_id x = bl_id y"
      using xy clash [of x] clash [of y] sym ok unfolding db' file_ok_def stored_once_def by auto
  qed
  then show ?thesis unfolding db' using ok new
    by (intro file_ok_blobs) (auto simp: file_ok_def file_keys_def unique_key_insert_iff kept_def)
qed

section \<open>Files and attachments\<close>

lemma kept_files [simp]: "kept (db\<lparr>fd_files := t\<rparr>) f = kept db f" "kept (db\<lparr>fd_attachments := t'\<rparr>) f = kept db f"
  by (simp_all add: kept_def)

lemma kept_blob_of: "uf_blob g = uf_blob f \<Longrightarrow> kept db g = kept db f"
  by (simp add: kept_def)

lemma referenced_cong: "uf_id g = uf_id f \<Longrightarrow> uf_standalone g = uf_standalone f \<Longrightarrow> referenced db g = referenced db f"
  by (simp add: referenced_def)

lemma files_update_ok:
  assumes ok: "file_ok db" and id: "\<And>f. uf_id (g f) = uf_id f"
    and k: "\<And>f. f \<in> set (fd_files db) \<Longrightarrow> p f \<Longrightarrow> referenced db (g f) \<Longrightarrow> kept db (g f)"
  shows "file_ok (db\<lparr>fd_files := sql_update p g (fd_files db)\<rparr>)"
proof -
  let ?db = "db\<lparr>fd_files := sql_update p g (fd_files db)\<rparr>"
  have "unique_key uf_id (sql_update p g (fd_files db))" using ok id by (auto simp: file_ok_def file_keys_def intro: unique_key_update)
  moreover have "held ?db" unfolding held_def
  proof (intro ballI impI)
    fix f assume "f \<in> set (fd_files ?db)" and r: "referenced ?db f"
    then obtain h where h: "h \<in> set (fd_files db)" "f = (if p h then g h else h)" by (auto simp: set_sql_update)
    have "referenced db f" using r by (simp add: referenced_def)
    then show "kept ?db f" using h k ok by (auto simp: file_ok_def held_def)
  qed
  moreover have "uf_id ` set (sql_update p g (fd_files db)) = uf_id ` set (fd_files db)" by (metis list.set_map map_sql_update id)
  then have "attached ?db" using ok unfolding file_ok_def attached_def by (simp add: image_iff set_eq_iff) metis
  ultimately show ?thesis using ok by (simp add: file_ok_def file_keys_def stored_once_def)
qed

lemma unshare_ok: "file_ok db \<Longrightarrow> file_ok (db\<lparr>fd_files := sql_update p (unshare now) (fd_files db)\<rparr>)"
proof (rule files_update_ok, assumption)
  fix f assume ok: "file_ok db" and f: "f \<in> set (fd_files db)" and r: "referenced db (unshare now f)"
  from r have "referenced db f" by (auto simp: referenced_def unshare_def)
  then show "kept db (unshare now f)" using ok f kept_blob_of [of "unshare now f" f db] by (simp add: file_ok_def held_def unshare_def)
qed (simp add: unshare_def)

lemma drop_attachments_ok:
  assumes ok: "file_ok db"
  shows "file_ok (drop_attachments now why p db)"
proof -
  let ?g = "\<lambda>a :: attachment_row. a\<lparr>am_deleted_at := Some (case am_deleted_at a of None \<Rightarrow> now | Some t \<Rightarrow> t),
        am_delete_reason := Some (case am_delete_reason a of None \<Rightarrow> why | Some r \<Rightarrow> r)\<rparr>"
  let ?db = "db\<lparr>fd_attachments := sql_update p ?g (fd_attachments db)\<rparr>"
  have old: "a \<in> set (fd_attachments db)" if "a \<in> set (fd_attachments ?db)" "am_deleted_at a = None" for a
    using that by (auto simp: set_sql_update)
  have "referenced db f" if "referenced ?db f" for f
    using that old by (auto simp: referenced_def live_attachment_def)
  then have "held ?db" using ok by (auto simp: file_ok_def held_def)
  moreover have "attached ?db" using ok old unfolding file_ok_def attached_def by simp
  moreover have "unique_key am_id (sql_update p ?g (fd_attachments db))" using ok by (auto simp: file_ok_def file_keys_def intro!: unique_key_update)
  ultimately have "file_ok ?db" using ok by (simp add: file_ok_def file_keys_def stored_once_def)
  then show ?thesis unfolding drop_attachments_def by (rule mark_ok)
qed

lemma insert_file_ok:
  assumes ok: "file_ok db" and ins: "insert_file f db = Inr db'" and k: "kept db f"
  shows "file_ok db'"
proof -
  have db': "db' = db\<lparr>fd_files := sql_insert f (fd_files db)\<rparr>" and new: "\<forall>g \<in> set (fd_files db). uf_id g \<noteq> uf_id f"
    using ins by (auto simp: insert_file_def split: if_splits)
  show ?thesis unfolding db' using ok new k
    by (auto simp: file_ok_def file_keys_def unique_key_insert_iff held_def attached_def stored_once_def referenced_def)
qed

lemma insert_attachment_ok:
  assumes ok: "file_ok db" and new: "\<forall>b \<in> set (fd_attachments db). am_id b \<noteq> am_id a"
    and f: "f \<in> set (fd_files db)" "am_file a = Some (uf_id f)" "kept db f"
  shows "file_ok (db\<lparr>fd_attachments := sql_insert a (fd_attachments db)\<rparr>)"
proof -
  let ?db = "db\<lparr>fd_attachments := sql_insert a (fd_attachments db)\<rparr>"
  have only: "g = f" if "g \<in> set (fd_files db)" "uf_id g = uf_id f" for g
    using ok f(1) that by (auto simp: file_ok_def file_keys_def dest: unique_keyD)
  have "held ?db" unfolding held_def
  proof (intro ballI impI)
    fix g assume g: "g \<in> set (fd_files ?db)" and "referenced ?db g"
    then have "referenced db g \<or> uf_id g = uf_id f" using f(2) by (auto simp: referenced_def live_attachment_def)
    then show "kept ?db g" using ok g f(3) only [of g] by (auto simp: file_ok_def held_def)
  qed
  moreover have "attached ?db" using ok f by (auto simp: file_ok_def attached_def)
  ultimately show ?thesis using ok new by (auto simp: file_ok_def file_keys_def unique_key_insert_iff stored_once_def)
qed

lemma set_gc_pending_ok:
  assumes "file_ok db" and "set_blob_state now Blob_gc_pending i db = Inr db'" and "\<And>f. f \<in> set (fd_files db) \<Longrightarrow> uf_blob f \<noteq> Some i"
  shows "file_ok db'"
proof (cases "getBlob i db")
  case None
  with assms show ?thesis by (simp add: set_blob_state_def update_blob_def)
next
  case (Some b)
  then have "db' = db\<lparr>fd_blobs := sql_update (\<lambda>b. bl_id b = i) (\<lambda>b. b\<lparr>bl_state := Blob_gc_pending, bl_updated_at := now\<rparr>) (fd_blobs db)\<rparr>"
    using assms(2) by (simp add: set_blob_state_def update_blob_def ready_conflict_def)
  then show ?thesis using assms(1,3) by (auto intro!: blob_rows_ok)
qed

lemma set_blob_state_db:
  "set_blob_state now s i db = Inr db' \<Longrightarrow> getBlob i db \<noteq> None \<Longrightarrow>
   db' = db\<lparr>fd_blobs := sql_update (\<lambda>b. bl_id b = i) (\<lambda>b. b\<lparr>bl_state := s, bl_updated_at := now\<rparr>) (fd_blobs db)\<rparr>"
  by (auto simp: set_blob_state_def update_blob_def split: option.splits if_splits)

lemma kept_after_ready:
  assumes "set_blob_state now Blob_ready i db = Inr db'" and "getBlob i db \<noteq> None" and "uf_blob f = Some i"
  shows "kept db' f"
proof -
  obtain b where "b \<in> set (fd_blobs db)" "bl_id b = i" using assms(2) by (auto simp: getBlob_def dest: sql_get_SomeD)
  then have "b\<lparr>bl_state := Blob_ready, bl_updated_at := now\<rparr> \<in> set (fd_blobs db')"
    using set_blob_state_db [OF assms(1,2)] by (auto simp: set_sql_update intro!: image_eqI [of _ _ b])
  then show ?thesis unfolding kept_def using assms(3) \<open>bl_id b = i\<close> by (intro bexI) auto
qed

lemma state_db_files: "set_blob_state now s i db = Inr db' \<Longrightarrow> fd_files db' = fd_files db \<and> fd_attachments db' = fd_attachments db"
  by (auto simp: set_blob_state_def update_blob_def split: option.splits if_splits)

lemma revive_missing_ok:
  assumes ok: "file_ok db" and f: "f \<in> set (fd_files db)" "uf_blob f = Some old" and old: "getBlob old db \<noteq> None"
    and ins: "insert_blob (ready_blob now i owner sha bytes path) db = Inr db1"
    and gc: "set_blob_state now Blob_gc_pending old (replace_blob old i db1) = Inr db'"
  shows "file_ok db' \<and> (\<exists>g \<in> set (fd_files db'). uf_id g = uf_id f \<and> kept db' g) \<and> fd_attachments db' = fd_attachments db"
proof -
  have ok1: "file_ok db1" by (rule insert_blob_ok [OF ok ins])
  have db1: "db1 = db\<lparr>fd_blobs := sql_insert (ready_blob now i owner sha bytes path) (fd_blobs db)\<rparr>"
      and new: "\<forall>b \<in> set (fd_blobs db). bl_id b \<noteq> i"
    using ins by (auto simp: insert_blob_def ready_blob_def split: if_splits)
  have "old \<noteq> i" using old new by (auto simp: getBlob_def dest: sql_get_SomeD)
  have k: "kept db1 g" if "uf_blob g = Some i" for g
    unfolding kept_def using that by (intro bexI [of _ "ready_blob now i owner sha bytes path"]) (auto simp: db1 ready_blob_def)
  have ok2: "file_ok (replace_blob old i db1)" unfolding replace_blob_def by (rule files_update_ok [OF ok1]) (auto intro: k)
  have none: "uf_blob g \<noteq> Some old" if "g \<in> set (fd_files (replace_blob old i db1))" for g
    using that \<open>old \<noteq> i\<close> by (auto simp: replace_blob_def set_sql_update)
  have "getBlob old (replace_blob old i db1) \<noteq> None" using old by (auto simp: replace_blob_def getBlob_def db1 sql_get_insert split: option.splits)
  note db' = set_blob_state_db [OF gc this]
  let ?g = "f\<lparr>uf_blob := Some i\<rparr>"
  have "?g \<in> set (fd_files db')" using f by (auto simp: db' replace_blob_def set_sql_update db1 intro!: image_eqI [of _ _ f])
  moreover have "kept (replace_blob old i db1) ?g" using k by (simp add: replace_blob_def)
  then have "kept db' ?g" unfolding db' using \<open>old \<noteq> i\<close> by (intro kept_update) auto
  ultimately show ?thesis using set_gc_pending_ok [OF ok2 gc none]
    by (auto simp: db' replace_blob_def db1 intro!: bexI [of _ ?g])
qed

lemma revive_ok:
  assumes ok: "file_ok db" and f: "f \<in> set (fd_files db)" "uf_blob f = Some old" and old: "getBlob old db \<noteq> None"
    and r: "revive_blob now i owner sha bytes path f db = Inr db'"
  shows "file_ok db' \<and> (\<exists>g \<in> set (fd_files db'). uf_id g = uf_id f \<and> kept db' g) \<and> fd_attachments db' = fd_attachments db"
proof -
  obtain blob where b: "getBlob old db = Some blob" using old by auto
  then have bm: "blob \<in> set (fd_blobs db)" "bl_id blob = old" by (auto simp: getBlob_def dest: sql_get_SomeD)
  consider (gc) "bl_state blob = Blob_gc_pending" | (missing) "bl_state blob = Blob_missing"
    | (fine) "bl_state blob \<noteq> Blob_gc_pending" "bl_state blob \<noteq> Blob_missing" by blast
  then show ?thesis
  proof cases
    case gc
    then have s: "set_blob_state now Blob_ready old db = Inr db'" using r f b by (simp add: revive_blob_def)
    show ?thesis using state_update_ok [OF ok s] kept_after_ready [OF s old f(2)] state_db_files [OF s] f(1) by auto
  next
    case missing
    then obtain db1 where "insert_blob (ready_blob now i owner sha bytes path) db = Inr db1"
        "set_blob_state now Blob_gc_pending old (replace_blob old i db1) = Inr db'"
      using r f b by (auto simp: revive_blob_def split: sum.splits)
    then show ?thesis by (rule revive_missing_ok [OF ok f old])
  next
    case fine
    then have "db' = db" using r f b by (simp add: revive_blob_def)
    moreover have "kept db f" unfolding kept_def using bm f fine by auto
    ultimately show ?thesis using ok f(1) by auto
  qed
qed

lemma ordered_head:
  assumes "sql_order_by k (sql_select p t) = f # fs"
  shows "f \<in> set t \<and> p f"
proof -
  have "f \<in> set (sql_order_by k (sql_select p t))" by (simp add: assms)
  then show ?thesis by simp
qed

lemma find_by_hash:
  assumes "findUserFileByHash owner sha bytes states db = Some f"
  obtains b where "f \<in> set (fd_files db)" "uf_identity f = Some owner" "uf_blob f = Some (bl_id b)" "getBlob (bl_id b) db = Some b"
    "bl_sha256 b = Some sha" "bl_size b = bytes" "bl_state b \<in> set states"
proof -
  obtain fs where "sql_order_by (\<lambda>f. (uf_created_at f, uf_id f))
       (sql_select (\<lambda>f. uf_identity f = Some owner \<and> (case uf_blob f of None \<Rightarrow> False | Some i \<Rightarrow>
          (case getBlob i db of None \<Rightarrow> False
           | Some b \<Rightarrow> bl_sha256 b = Some sha \<and> bl_size b = bytes \<and> bl_state b \<in> set states))) (fd_files db)) = f # fs"
    using assms by (auto simp: findUserFileByHash_def split: list.splits)
  note ordered_head [OF this]
  then obtain i b where "f \<in> set (fd_files db)" "uf_identity f = Some owner" "uf_blob f = Some i" "getBlob i db = Some b"
    "bl_sha256 b = Some sha" "bl_size b = bytes" "bl_state b \<in> set states" by (auto split: option.splits)
  moreover have "bl_id b = i" using \<open>getBlob i db = Some b\<close> by (auto simp: getBlob_def dest: sql_get_SomeD)
  ultimately show thesis using that by blast
qed

section \<open>The operations keep the invariant\<close>

definition ready_for :: "ident \<Rightarrow> file_db \<Rightarrow> bool" where
  \<comment> \<open>the file exists and may be referred to\<close>
  "ready_for i db \<longleftrightarrow> (\<exists>g \<in> set (fd_files db). uf_id g = i \<and> kept db g)"

lemma new_file_ok:
  assumes ok: "file_ok db" and ins: "insert_blob (ready_blob now i owner sha bytes path) db = Inr db1"
    and f: "uf_blob f = Some i" "insert_file f db1 = Inr db2"
  shows "file_ok db2 \<and> ready_for (uf_id f) db2 \<and> fd_attachments db2 = fd_attachments db"
proof -
  have db1: "db1 = db\<lparr>fd_blobs := sql_insert (ready_blob now i owner sha bytes path) (fd_blobs db)\<rparr>"
    using ins by (auto simp: insert_blob_def split: if_splits)
  have k: "kept db1 f" unfolding kept_def
    using f(1) by (intro bexI [of _ "ready_blob now i owner sha bytes path"]) (auto simp: db1 ready_blob_def)
  have db2: "db2 = db1\<lparr>fd_files := sql_insert f (fd_files db1)\<rparr>" using f(2) by (auto simp: insert_file_def split: if_splits)
  show ?thesis using insert_file_ok [OF insert_blob_ok [OF ok ins] f(2) k] k by (auto simp: ready_for_def db2 db1)
qed

lemma by_path_ok:
  assumes ok: "file_ok db" and f: "file_by_path path db = Some f" "uf_blob f = Some b" and s: "set_ready_if_pending now b db = Inr db1"
  shows "file_ok db1 \<and> ready_for (uf_id f) db1 \<and> fd_attachments db1 = fd_attachments db"
proof -
  have fm: "f \<in> set (fd_files db)" and gb: "\<exists>blob. getBlob b db = Some blob \<and> (bl_state blob = Blob_ready \<or> bl_state blob = Blob_gc_pending)"
    using f sql_get_SomeD [OF f(1) [unfolded file_by_path_def]] by (auto split: option.splits)
  then obtain blob where blob: "getBlob b db = Some blob" "bl_state blob = Blob_ready \<or> bl_state blob = Blob_gc_pending" by blast
  then have bm: "blob \<in> set (fd_blobs db)" "bl_id blob = b" by (auto simp: getBlob_def dest: sql_get_SomeD)
  show ?thesis
  proof (cases "bl_state blob = Blob_gc_pending")
    case True
    then have "set_blob_state now Blob_ready b db = Inr db1" using s blob by (simp add: set_ready_if_pending_def)
    then show ?thesis using state_update_ok [OF ok] kept_after_ready [OF _ _ f(2)] state_db_files blob(1) fm by (fastforce simp: ready_for_def)
  next
    case False
    then have "db1 = db" using s blob by (simp add: set_ready_if_pending_def)
    moreover have "kept db f" unfolding kept_def using bm f(2) False by auto
    ultimately show ?thesis using ok fm by (auto simp: ready_for_def)
  qed
qed

lemma file_for_attachment_ok:
  assumes ok: "file_ok db" and r: "file_for_attachment now u input db = Inr (i, db1)"
  shows "file_ok db1 \<and> ready_for i db1 \<and> fd_attachments db1 = fd_attachments db"
proof -
  define known where "known = (case (ca_owner input, ca_sha256 input) of
           (Some x, Some h) \<Rightarrow> if x = [] \<or> h = [] then None else findUserFileByHash x h (ca_size input) all_states db | _ \<Rightarrow> None)"
  define pathed where "pathed = (if ca_owner input = None \<and> ca_dedupe_by_path input then file_by_path (ca_path input) db else None)"
  note r = r [unfolded file_for_attachment_def Let_def known_def [symmetric] pathed_def [symmetric]]
  show ?thesis
  proof (cases known)
    case (Some f)
    then obtain x h where "findUserFileByHash x h (ca_size input) all_states db = Some f"
      by (auto simp: known_def split: option.splits if_splits)
    then show ?thesis
    proof (rule find_by_hash)
      fix b assume f: "f \<in> set (fd_files db)" "uf_blob f = Some (bl_id b)" "getBlob (bl_id b) db = Some b"
      from r Some have "revive_blob now (u 1) (ca_owner input) (ca_sha256 input) (ca_size input) (ca_path input) f db = Inr db1" "i = uf_id f"
        by (auto split: sum.splits)
      with revive_ok [OF ok f(1,2)] f(3) show ?thesis by (auto simp: ready_for_def)
    qed
  next
    case None
    note r = r [unfolded None option.case]
    show ?thesis
    proof (cases pathed)
      case (Some f)
      then have p: "file_by_path (ca_path input) db = Some f" by (auto simp: pathed_def split: if_splits)
      have "uf_blob f \<noteq> None" using sql_get_SomeD [OF p [unfolded file_by_path_def]] by (auto split: option.splits)
      then obtain b where b: "uf_blob f = Some b" by auto
      with r Some have "set_ready_if_pending now b db = Inr db1" "i = uf_id f" by (auto split: sum.splits)
      with by_path_ok [OF ok p b] show ?thesis by simp
    next
      case none: None
      from r none obtain d where "insert_blob (ready_blob now (u 1) (ca_owner input) (ca_sha256 input) (ca_size input) (ca_path input)) db = Inr d"
          "insert_file (new_file now (u 2) (ca_owner input) (u 1) (ca_filename input) (ca_mime input) (ca_size input)) d = Inr db1" "i = u 2"
        by (auto split: sum.splits if_splits)
      from new_file_ok [OF ok this(1) _ this(2)] this(3) show ?thesis by (simp add: new_file_def)
    qed
  qed
qed

lemma createAttachment_ok:
  assumes ok: "file_ok db" and r: "createAttachment now u input db = Inr (a, db')"
  shows "file_ok db'"
proof -
  obtain i db1 where f: "file_for_attachment now u input db = Inr (i, db1)"
    using r by (auto simp: createAttachment_def split: sum.splits prod.splits)
  note ok1 = file_for_attachment_ok [OF ok f]
  then obtain g where g: "g \<in> set (fd_files db1)" "uf_id g = i" "kept db1 g" by (auto simp: ready_for_def)
  show ?thesis
  proof (cases "sql_get (\<lambda>a. live_attachment i a \<and> am_post a = ca_post input) (fd_attachments db1)")
    case None
    define row where "row = \<lparr>am_id = u 0, am_file = Some i, am_post = ca_post input,
                     am_filename = ca_filename input, am_mime = ca_mime input, am_size = ca_size input, am_path = None,
                     am_sha256 = None, am_created_at = now, am_deleted_at = None, am_delete_reason = None\<rparr>"
    have "db' = db1\<lparr>fd_attachments := sql_insert row (fd_attachments db1)\<rparr>" and "\<forall>b \<in> set (fd_attachments db1). am_id b \<noteq> am_id row"
      using r None unfolding createAttachment_def f sum.case prod.case Let_def row_def [symmetric]
      by (auto split: if_splits simp: row_def)
    then show ?thesis using insert_attachment_ok [of db1 row g] ok1 g by (auto simp: row_def)
  next
    case (Some x)
    then show ?thesis using r f ok1 by (simp add: createAttachment_def)
  qed
qed

lemma createUserFile_ok:
  assumes ok: "file_ok db" and r: "createUserFile now u input db = Inr (x, db')"
  shows "file_ok db'"
proof -
  define known where "known = (case cf_sha256 input of None \<Rightarrow> None
           | Some h \<Rightarrow> if h = [] then None else findUserFileByHash (cf_identity input) h (cf_size input) all_states db)"
  note r = r [unfolded createUserFile_def Let_def known_def [symmetric]]
  show ?thesis
  proof (cases known)
    case (Some f)
    then obtain h where "findUserFileByHash (cf_identity input) h (cf_size input) all_states db = Some f"
      by (auto simp: known_def split: option.splits if_splits)
    then show ?thesis
    proof (rule find_by_hash)
      fix b assume f: "f \<in> set (fd_files db)" "uf_blob f = Some (bl_id b)" "getBlob (bl_id b) db = Some b"
      let ?g = "\<lambda>g :: user_file_row. g\<lparr>uf_standalone := True, uf_visibility := Some (cf_shown input), uf_expires_at := cf_expires_at input,
                   uf_revision := uf_revision g + 1, uf_updated_at := now\<rparr>"
      from r Some obtain d where rev: "revive_blob now (u 0) (Some (cf_identity input)) (cf_sha256 input) (cf_size input) (cf_path input) f db = Inr d"
          and db': "db' = d\<lparr>fd_files := sql_update (\<lambda>g. uf_id g = uf_id f) ?g (fd_files d)\<rparr>"
        by (auto split: sum.splits)
      have okd: "file_ok d" and "ready_for (uf_id f) d" using revive_ok [OF ok f(1,2) _ rev] f(3) by (auto simp: ready_for_def)
      then obtain g where g: "g \<in> set (fd_files d)" "uf_id g = uf_id f" "kept d g" by (auto simp: ready_for_def)
      have "kept d (?g h)" if "h \<in> set (fd_files d)" "uf_id h = uf_id f" for h
      proof -
        have "h = g" using okd g that by (auto simp: file_ok_def file_keys_def dest: unique_keyD)
        then show ?thesis using g(3) kept_blob_of [of "?g g" g d] by simp
      qed
      then show ?thesis unfolding db' by (intro files_update_ok [OF okd]) auto
    qed
  next
    case None
    from r [unfolded None option.case] obtain d f where
        "insert_blob (ready_blob now (u 1) (Some (cf_identity input)) (cf_sha256 input) (cf_size input) (cf_path input)) db = Inr d"
        "insert_file f d = Inr db'" "uf_blob f = Some (u 1)"
      by (auto split: sum.splits if_splits simp: new_file_def)
    from new_file_ok [OF ok this(1,3,2)] show ?thesis by simp
  qed
qed

definition same_files :: "file_db \<Rightarrow> file_db \<Rightarrow> bool" where
  "same_files db db' \<longleftrightarrow> fd_blobs db' = fd_blobs db \<and> fd_files db' = fd_files db \<and> fd_attachments db' = fd_attachments db
     \<and> fd_aliases db' = fd_aliases db"

lemma same_files_ok: "same_files db db' \<Longrightarrow> file_ok db \<Longrightarrow> file_ok db'"
  by (auto simp: same_files_def file_ok_def file_keys_def held_def attached_def stored_once_def referenced_def kept_def)

lemma updateUserFile_ok:
  assumes ok: "file_ok db"
  shows "file_ok (snd (updateUserFile now i owner expected visibility expires db))"
proof -
  have "file_ok (db\<lparr>fd_files := sql_update (\<lambda>g. uf_id g = j) (\<lambda>g. g\<lparr>uf_visibility := Some visibility, uf_expires_at := e g,
      uf_revision := uf_revision g + 1, uf_updated_at := now\<rparr>) (fd_files db)\<rparr>)" for j e
    using ok by (intro files_update_ok) (auto simp: file_ok_def held_def referenced_def kept_def)
  then show ?thesis using ok by (auto simp: updateUserFile_def Let_def split: option.splits)
qed

lemma deleteUserFile_ok: "file_ok db \<Longrightarrow> file_ok (deleteUserFile now i owner db)"
  by (auto simp: deleteUserFile_def split: option.splits intro!: mark_ok unshare_ok)

lemma expireUserFiles_ok: "file_ok db \<Longrightarrow> file_ok (snd (expireUserFiles clock now db))"
  by (auto simp: expireUserFiles_def Let_def intro!: mark_ok unshare_ok)

lemma claimBlobForGc_ok:
  assumes ok: "file_ok db" and r: "claimBlobForGc now i db = Inr (x, db')"
  shows "file_ok db'"
proof (cases "sql_get (\<lambda>b. bl_id b = i \<and> bl_state b = Blob_gc_pending) (fd_blobs db)")
  case None
  with r ok show ?thesis by (simp add: claimBlobForGc_def)
next
  case (Some blob)
  show ?thesis
  proof (cases "sql_exists (\<lambda>f. uf_blob f = Some i \<and> referenced db f) (fd_files db)")
    case True
    then show ?thesis using r Some state_update_ok [OF ok] unfolding claimBlobForGc_def
      by (auto simp del: sql_exists_iff split: sum.splits)
  next
    case False
    let ?db1 = "db\<lparr>fd_files := sql_update (\<lambda>f. uf_blob f = Some i) (\<lambda>f. f\<lparr>uf_blob := None\<rparr>) (fd_files db)\<rparr>"
    have ok1: "file_ok ?db1" using False by (intro files_update_ok [OF ok]) (auto simp: referenced_def)
    have "file_ok (?db1\<lparr>fd_blobs := sql_delete (\<lambda>b. bl_id b = i) (fd_blobs db)\<rparr>)"
    proof (rule file_ok_blobs [OF ok1])
      show "unique_key bl_id (sql_delete (\<lambda>b. bl_id b = i) (fd_blobs db))"
        using ok by (auto simp: file_ok_def file_keys_def intro: unique_key_delete)
      show "stored_once (?db1\<lparr>fd_blobs := sql_delete (\<lambda>b. bl_id b = i) (fd_blobs db)\<rparr>)"
        using ok by (auto simp: file_ok_def stored_once_def)
      fix f assume "f \<in> set (fd_files ?db1)" and k: "kept ?db1 f"
      then have "uf_blob f \<noteq> Some i" by (auto simp: set_sql_update)
      then show "kept (?db1\<lparr>fd_blobs := sql_delete (\<lambda>b. bl_id b = i) (fd_blobs db)\<rparr>) f" using k by (auto simp: kept_def)
    qed
    moreover have "same_files (?db1\<lparr>fd_blobs := sql_delete (\<lambda>b. bl_id b = i) (fd_blobs db)\<rparr>) db'"
      using r Some False unfolding claimBlobForGc_def by (auto simp: same_files_def simp del: sql_exists_iff)
    ultimately show ?thesis by (rule same_files_ok [rotated])
  qed
qed

lemma restoreBlob_ok:
  assumes ok: "file_ok db" and r: "restoreBlob now i path sha bytes db = Inr db'"
  shows "file_ok db'"
proof (cases "getBlob i db")
  case None
  with r ok show ?thesis by (simp add: restoreBlob_def)
next
  case (Some b)
  then obtain d where d: "update_blob i (\<lambda>b. b\<lparr>bl_path := path, bl_sha256 := sha, bl_size := bytes, bl_state := Blob_ready, bl_updated_at := now\<rparr>) db = Inr d"
      and s: "same_files d db'"
    using r by (auto simp: restoreBlob_def same_files_def split: sum.splits)
  have "file_ok d" by (rule update_blob_ok [OF ok d]) simp_all
  then show ?thesis using s by (rule same_files_ok [rotated])
qed

section \<open>Merging duplicates\<close>

lemma merge_loser_ok:
  assumes ok: "file_ok db" and g: "g \<in> set (fd_files db)" "uf_id g = c" "kept db g" and l: "l \<noteq> c"
  shows "file_ok (merge_loser now c l db)"
proof -
  let ?db = "merge_loser now c l db"
  have files: "set (fd_files ?db) = {f \<in> set (fd_files db). uf_id f \<noteq> l}" and blobs: "fd_blobs ?db = fd_blobs db"
    by (auto simp: merge_loser_def)
  have only: "f = g" if "f \<in> set (fd_files db)" "uf_id f = c" for f using ok g that by (auto simp: file_ok_def file_keys_def dest: unique_keyD)
  have att: "(a \<in> set (fd_attachments db) \<and> am_file a \<noteq> Some l) \<or> am_file a = Some c" if "a \<in> set (fd_attachments ?db)" for a
    using that by (auto simp: merge_loser_def set_sql_update)
  have "held ?db" unfolding held_def
  proof (intro ballI impI)
    fix f assume f: "f \<in> set (fd_files ?db)" and r: "referenced ?db f"
    then have fm: "f \<in> set (fd_files db)" using files by auto
    show "kept ?db f"
    proof (cases "uf_id f = c")
      case True
      then show ?thesis using only [OF fm] g(3) blobs by (simp add: kept_def)
    next
      case False
      have "referenced db f" using r False att by (fastforce simp: referenced_def live_attachment_def)
      then show ?thesis using ok fm blobs by (simp add: file_ok_def held_def kept_def)
    qed
  qed
  moreover have "attached ?db" unfolding attached_def
  proof (intro ballI impI)
    fix a assume a: "a \<in> set (fd_attachments ?db)" and live: "am_deleted_at a = None"
    show "\<exists>f \<in> set (fd_files ?db). am_file a = Some (uf_id f)"
    proof (cases "am_file a = Some c")
      case True
      then show ?thesis using g l files by auto
    next
      case False
      with att [OF a] have "a \<in> set (fd_attachments db)" "am_file a \<noteq> Some l" by auto
      then show ?thesis using ok live files unfolding file_ok_def attached_def by fastforce
    qed
  qed
  moreover have "file_keys ?db" using ok
    by (auto simp: file_ok_def file_keys_def merge_loser_def Let_def unique_key_insert_iff intro!: unique_key_update unique_key_delete)
  ultimately show ?thesis using ok blobs by (simp add: file_ok_def stored_once_def)
qed

lemma merge_losers_ok:
  assumes "file_ok db" and "g \<in> set (fd_files db)" and "uf_id g = c" and "kept db g" and "c \<notin> uf_id ` set ls"
  shows "file_ok (foldl (\<lambda>d f. merge_loser now c (uf_id f) d) db ls)
    \<and> set (fd_files (foldl (\<lambda>d f. merge_loser now c (uf_id f) d) db ls)) = {f \<in> set (fd_files db). uf_id f \<notin> uf_id ` set ls}
    \<and> fd_blobs (foldl (\<lambda>d f. merge_loser now c (uf_id f) d) db ls) = fd_blobs db"
  using assms
proof (induction ls arbitrary: db)
  case (Cons l ls)
  let ?db = "merge_loser now c (uf_id l) db"
  have l: "uf_id l \<noteq> c" using Cons.prems(5) by auto
  have "g \<in> set (fd_files ?db)" "kept ?db g" using Cons.prems l by (auto simp: merge_loser_def kept_def)
  with Cons.IH [of ?db] merge_loser_ok [OF Cons.prems(1-4) l, of now] Cons.prems show ?case by (auto simp: merge_loser_def)
qed simp

lemma merge_files_ok:
  assumes ok: "file_ok db" and b: "b \<in> set (fd_blobs db)" "bl_id b = kept_id" "bl_state b = Blob_ready" and ne: "kept_id \<noteq> other"
  shows "file_ok (merge_files now kept_id other db)"
proof (cases "sql_order_by (\<lambda>f. (\<not> uf_standalone f, uf_created_at f, uf_id f))
    (sql_select (\<lambda>f. uf_blob f = Some kept_id \<or> uf_blob f = Some other) (fd_files db))")
  case Nil
  then show ?thesis using ok by (simp add: merge_files_def)
next
  case (Cons c ls)
  define shared where "shared = filter uf_standalone (c # ls)"
  let ?g = "\<lambda>f :: user_file_row. f\<lparr>uf_blob := Some kept_id, uf_standalone := shared \<noteq> [], uf_visibility := (if shared = [] then None else widest shared),
                  uf_expires_at := (if shared = [] then None else latest_expiry shared), uf_revision := uf_revision f + 1,
                  uf_updated_at := now\<rparr>"
  define db1 where "db1 = db\<lparr>fd_files := sql_update (\<lambda>f. uf_id f = uf_id c) ?g (fd_files db)\<rparr>"
  define db2 where "db2 = foldl (\<lambda>d f. merge_loser now (uf_id c) (uf_id f) d) db1 ls"
  have set_cl: "set (c # ls) = {f \<in> set (fd_files db). uf_blob f = Some kept_id \<or> uf_blob f = Some other}"
    using arg_cong [OF Cons, of set] by simp
  have u: "distinct (map uf_id (c # ls))"
  proof -
    have d: "distinct (map uf_id (sql_select p (fd_files db)))" for p
      using ok by (auto simp: file_ok_def file_keys_def unique_key_def sql_select_def intro: distinct_map_filter)
    have eq: "distinct (map uf_id (sql_order_by k xs)) = distinct (map uf_id xs)" for k :: "user_file_row \<Rightarrow> bool \<times> iso_time \<times> ident" and xs
      by (simp add: sql_order_by_def distinct_map)
    show ?thesis unfolding Cons [symmetric] by (simp only: eq d)
  qed
  have k: "kept d f" if "uf_blob f = Some kept_id" "fd_blobs d = fd_blobs db" for d f unfolding kept_def using b that by (intro bexI [of _ b]) auto
  have ok1: "file_ok db1" unfolding db1_def by (rule files_update_ok [OF ok]) (auto intro: k)
  have gc: "?g c \<in> set (fd_files db1)" using set_cl by (auto simp: db1_def set_sql_update intro!: image_eqI [of _ _ c])
  have m: "file_ok db2 \<and> set (fd_files db2) = {f \<in> set (fd_files db1). uf_id f \<notin> uf_id ` set ls} \<and> fd_blobs db2 = fd_blobs db1"
    unfolding db2_def using u by (intro merge_losers_ok [OF ok1 gc]) (auto intro: k simp: db1_def)
  have none: "uf_blob f \<noteq> Some other" if f: "f \<in> set (fd_files db2)" for f
  proof
    assume o: "uf_blob f = Some other"
    have f1: "f \<in> set (fd_files db1)" "uf_id f \<notin> uf_id ` set ls" using f m by auto
    then obtain h where h: "h \<in> set (fd_files db)" "f = (if uf_id h = uf_id c then ?g h else h)" by (auto simp: db1_def set_sql_update)
    then have "uf_id h \<noteq> uf_id c" and "f = h" using o ne by (auto split: if_splits)
    then have "h \<in> set (c # ls)" using set_cl h(1) o by auto
    then show False using \<open>f = h\<close> \<open>uf_id h \<noteq> uf_id c\<close> f1(2) by auto
  qed
  have "merge_files now kept_id other db =
      db2\<lparr>fd_blobs := sql_update (\<lambda>b. bl_id b = other) (\<lambda>b. b\<lparr>bl_state := Blob_gc_pending, bl_updated_at := now\<rparr>) (fd_blobs db2)\<rparr>"
    unfolding merge_files_def Cons list.case Let_def shared_def [symmetric] db1_def [symmetric] db2_def [symmetric] ..
  moreover have "file_ok (db2\<lparr>fd_blobs := sql_update (\<lambda>b. bl_id b = other) (\<lambda>b. b\<lparr>bl_state := Blob_gc_pending, bl_updated_at := now\<rparr>) (fd_blobs db2)\<rparr>)"
    using m none by (intro blob_rows_ok) auto
  ultimately show ?thesis by simp
qed

lemma verifyBlob_ok:
  assumes ok: "file_ok db" and r: "verifyBlob now i sha actual db = Inr db'"
  shows "file_ok db'"
proof (cases "getBlob i db")
  case None
  with r ok show ?thesis by (simp add: verifyBlob_def)
next
  case (Some blob)
  define dup where "dup = (if truthy_id (bl_owner blob)
                   then sql_get (\<lambda>b. bl_id b \<noteq> i \<and> bl_owner b = bl_owner blob \<and> bl_sha256 b = Some sha \<and> bl_size b = actual
                     \<and> bl_state b = Blob_ready) (fd_blobs db) else None)"
  note r = r [unfolded verifyBlob_def Some option.case dup_def [symmetric]]
  show ?thesis
  proof (cases "bl_state blob \<noteq> Blob_ready \<or> bl_size blob \<noteq> actual")
    case True
    then show ?thesis using r ok by (auto split: if_splits intro: markMissing_ok)
  next
    case False
    show ?thesis
    proof (cases dup)
      case None
      then show ?thesis using r False by (auto intro!: update_blob_ok [OF ok, of i "\<lambda>b. b\<lparr>bl_sha256 := Some sha, bl_updated_at := now\<rparr>" db'])
    next
      case dd: (Some d)
      then have d: "d \<in> set (fd_blobs db)" "bl_id d \<noteq> i" "bl_state d = Blob_ready"
        by (auto simp: dup_def split: if_splits dest: sql_get_SomeD)
      then show ?thesis using r False dd merge_files_ok [OF ok d(1) refl d(3,2)] by auto
    qed
  qed
qed

section \<open>Steps\<close>

text \<open>Everything that happens to the files: uploads reach the disk before their rows are written.\<close>

inductive file_step :: "file_db \<times> disk \<Rightarrow> file_db \<times> disk \<Rightarrow> bool" where
  upload: "file_step (db, disk) (db, e # disk)"
| attach: "createAttachment now u input db = Inr (a, db') \<Longrightarrow> file_step (db, disk) (db', disk)"
| detach: "file_step (db, disk) (deleteAttachment now i why db, disk)"
| detach_post: "file_step (db, disk) (detachPostAttachments now i why db, disk)"
| create_file: "createUserFile now u cf db = Inr (f, db') \<Longrightarrow> file_step (db, disk) (db', disk)"
| update_file: "file_step (db, disk) (snd (updateUserFile now i owner expected visibility expires db), disk)"
| delete_file: "file_step (db, disk) (deleteUserFile now i o' db, disk)"
| create_pending: "createPendingAttachment row db = Inr (p, db') \<Longrightarrow> file_step (db, disk) (db', disk)"
| delete_pending: "file_step (db, disk) (deletePendingAttachment i db, disk)"
| restore: "restoreBlob now i path sha bytes db = Inr db' \<Longrightarrow> file_step (db, disk) (db', disk)"
| missing: "file_step (db, disk) (markBlobMissing now i db, disk)"
| expire_pass: "file_step (db, disk) (snd (maintenance_expire managed disk clock now db), disk)"
| verify_look: "file_step (db, disk) (snd (verify_look managed disk clock b db), disk)"
| verify_hashed: "file_step (db, disk) (verify_hashed clock hash len b db, disk)"
| collect_pass: "file_step (db, disk) (maintenance_collect managed unlinkable message clock now uploads pendings db disk)"

lemma foldl_keeps: "P d \<Longrightarrow> (\<And>d x. P d \<Longrightarrow> P (f d x)) \<Longrightarrow> P (foldl f d xs)"
  by (induction xs arbitrary: d) auto

lemma maintenance_expire_ok:
  assumes "file_ok db"
  shows "file_ok (snd (maintenance_expire managed disk clock now db))"
proof -
  have step: "file_ok (check_ready_blob managed disk clock now d b)" if "file_ok d" for d b
    using that by (simp add: check_ready_blob_def markMissing_ok touch_ok)
  have "file_ok (snd (deleteExpiredPendingAttachments now (snd (expireUserFiles clock now db))))"
    by (rule same_files_ok [OF _ expireUserFiles_ok [OF assms, of clock now]]) (simp add: same_files_def deleteExpiredPendingAttachments_def Let_def)
  then have "file_ok (foldl (check_ready_blob managed disk clock now) (snd (deleteExpiredPendingAttachments now (snd (expireUserFiles clock now db)))) xs)" for xs
    by (rule foldl_keeps) (rule step)
  then show ?thesis by (simp add: maintenance_expire_def Let_def split: prod.splits) (metis snd_conv)
qed

lemma verify_look_ok: "file_ok db \<Longrightarrow> file_ok (snd (verify_look managed disk clock b db))"
  by (simp add: verify_look_def markMissing_ok)

lemma verify_hashed_ok: "file_ok db \<Longrightarrow> file_ok (verify_hashed clock hash len b db)"
  by (auto simp: verify_hashed_def split: option.splits sum.splits intro: verifyBlob_ok)

lemma process_deletion_same: "same_files (fst s) (fst (process_deletion managed unlinkable message s d))
    \<and> fd_pendings (fst (process_deletion managed unlinkable message s d)) = fd_pendings (fst s)"
  by (cases s) (simp add: process_deletion_def same_files_def failQueuedFileDeletion_def completeQueuedFileDeletion_def)

lemma claim_or_defer_ok: "file_ok d \<Longrightarrow> file_ok (claim_or_defer clock d b)"
  by (auto simp: claim_or_defer_def split: sum.splits prod.splits intro: claimBlobForGc_ok)

lemma process_deletions_same:
  "same_files (fst s) (fst (foldl (process_deletion managed unlinkable message) s ds))
    \<and> fd_pendings (fst (foldl (process_deletion managed unlinkable message) s ds)) = fd_pendings (fst s)"
proof (induction ds arbitrary: s)
  case (Cons d ds)
  show ?case using Cons.IH [of "process_deletion managed unlinkable message s d"] process_deletion_same [of s managed unlinkable message d]
    by (simp add: same_files_def)
qed (simp add: same_files_def)

lemma claim_unreferenced_ok: "file_ok db \<Longrightarrow> file_ok (claim_unreferenced clock db)"
  unfolding claim_unreferenced_def Let_def by (rule foldl_keeps) (auto intro: mark_ok claim_or_defer_ok)

lemma fst_maintenance_collect:
  "fst (maintenance_collect managed unlinkable message clock now uploads pendings db disk) =
    fst (foldl (process_deletion managed unlinkable message) (claim_unreferenced clock db, disk) (listQueuedFileDeletions 50 (claim_unreferenced clock db)))"
  by (simp add: maintenance_collect_def Let_def split: prod.splits)

lemma maintenance_collect_ok:
  assumes "file_ok db"
  shows "file_ok (fst (maintenance_collect managed unlinkable message clock now uploads pendings db disk))"
  unfolding fst_maintenance_collect
  by (rule same_files_ok [OF _ claim_unreferenced_ok [OF assms, of clock]]) (metis process_deletions_same fst_conv)

lemma pending_same:
  "createPendingAttachment row db = Inr (p, db') \<Longrightarrow> same_files db db'" "same_files db (deletePendingAttachment i db)"
  by (auto simp: createPendingAttachment_def deletePendingAttachment_def same_files_def Let_def split: if_splits)

lemmas files_ok = updateUserFile_ok deleteUserFile_ok markMissing_ok drop_attachments_ok maintenance_expire_ok verify_look_ok
  verify_hashed_ok maintenance_collect_ok

lemma file_step_ok: "file_step s s' \<Longrightarrow> file_ok (fst s) \<Longrightarrow> file_ok (fst s')"
proof (induction rule: file_step.induct)
  case attach
  then show ?case unfolding fst_conv by (rule createAttachment_ok [rotated])
next
  case create_file
  then show ?case unfolding fst_conv by (rule createUserFile_ok [rotated])
next
  case create_pending
  then show ?case unfolding fst_conv by (rule same_files_ok [OF pending_same(1)])
next
  case delete_pending
  then show ?case unfolding fst_conv by (rule same_files_ok [OF pending_same(2)])
next
  case restore
  then show ?case unfolding fst_conv by (rule restoreBlob_ok [rotated])
qed (simp_all only: fst_conv deleteAttachment_def detachPostAttachments_def files_ok)

lemma file_run_ok: "file_step\<^sup>*\<^sup>* s s' \<Longrightarrow> file_ok (fst s) \<Longrightarrow> file_ok (fst s')"
  by (induction rule: rtranclp_induct) (auto intro: file_step_ok)

end
