(* ===== verification/File_Safety.thy ===== *)
theory File_Safety
  imports File_Laws
begin

text \<open>
  The consequences for the people who use the files: what they can reach stays on disk, what is merged
  stays reachable under its old ids, and what the quota does not bound.
\<close>

section \<open>Reachable files have bytes\<close>

lemma getBlob_of: "unique_key bl_id (fd_blobs db) \<Longrightarrow> b \<in> set (fd_blobs db) \<Longrightarrow> getBlob (bl_id b) db = Some b"
  unfolding getBlob_def by (rule sql_get_unique)

lemma file_row_of: "unique_key uf_id (fd_files db) \<Longrightarrow> f \<in> set (fd_files db) \<Longrightarrow> file_row (uf_id f) db = Some f"
  unfolding file_row_def by (rule sql_get_unique)

lemma kept_blob:
  assumes "file_ok db" and "f \<in> set (fd_files db)" and "referenced db f"
  shows "\<exists>b. (case uf_blob f of None \<Rightarrow> None | Some i \<Rightarrow> getBlob i db) = Some b \<and> bl_state b \<noteq> Blob_gc_pending"
proof -
  obtain b where b: "b \<in> set (fd_blobs db)" "uf_blob f = Some (bl_id b)" "bl_state b \<noteq> Blob_gc_pending"
    using assms by (auto simp: file_ok_def held_def kept_def)
  with getBlob_of [OF _ b(1)] assms(1) show ?thesis by (simp add: file_ok_def file_keys_def)
qed

lemma live_attachment_blob:
  assumes ok: "file_ok db" and a: "a \<in> set (fd_attachments db)" "am_deleted_at a = None"
  shows "\<exists>b. getAttachmentBlob (am_id a) db = Some b \<and> bl_state b \<noteq> Blob_gc_pending"
proof -
  obtain f where f: "f \<in> set (fd_files db)" "am_file a = Some (uf_id f)" using ok a by (auto simp: file_ok_def attached_def)
  then have "referenced db f" using a by (auto simp: referenced_def live_attachment_def)
  with kept_blob [OF ok f(1)] have "\<exists>b. am_blob a db = Some b \<and> bl_state b \<noteq> Blob_gc_pending"
    using file_row_of [OF _ f(1)] f(2) ok by (simp add: am_blob_def file_ok_def file_keys_def split: option.splits)
  moreover have "sql_get (\<lambda>x. am_id x = am_id a) (fd_attachments db) = Some a"
    using ok a(1) by (intro sql_get_unique) (auto simp: file_ok_def file_keys_def)
  ultimately show ?thesis by (simp add: getAttachmentBlob_def)
qed

lemma shared_file_blob:
  assumes ok: "file_ok db" and f: "getUserFile i db = Some f" "uf_standalone f"
  shows "\<exists>b. getUserFileBlob i db = Some b \<and> bl_state b \<noteq> Blob_gc_pending"
proof -
  have "f \<in> set (fd_files db)" using f(1) by (auto simp: getUserFile_def file_row_def split: option.splits dest: sql_get_SomeD)
  then show ?thesis using kept_blob [OF ok] f by (simp add: referenced_def getUserFileBlob_def)
qed

text \<open>
  C13. Whatever uploads, attachments, deletions, expiries, merges and maintenance passes happen, a live
  attachment and a shared file, looked up by its id or by the id of a file merged into it, have registered
  bytes that are not due for collection, and an owner has the same bytes ready at most once.
\<close>

theorem files_stay_backed:
  assumes "file_ok db" and "file_step\<^sup>*\<^sup>* (db, disk) (db', disk')"
  shows "(\<forall>a \<in> set (fd_attachments db'). am_deleted_at a = None \<longrightarrow>
      (\<exists>b. getAttachmentBlob (am_id a) db' = Some b \<and> bl_state b \<noteq> Blob_gc_pending))
    \<and> (\<forall>i f. getUserFile i db' = Some f \<longrightarrow> uf_standalone f \<longrightarrow>
      (\<exists>b. getUserFileBlob i db' = Some b \<and> bl_state b \<noteq> Blob_gc_pending))
    \<and> (\<forall>x \<in> set (fd_blobs db'). \<forall>y \<in> set (fd_blobs db').
      bl_state x = Blob_ready \<longrightarrow> bl_state y = Blob_ready \<longrightarrow> same_content x y \<longrightarrow> x = y)"
proof -
  have ok: "file_ok db'" using file_run_ok [OF assms(2)] assms(1) by simp
  have "x = y" if "x \<in> set (fd_blobs db')" "y \<in> set (fd_blobs db')" "bl_state x = Blob_ready" "bl_state y = Blob_ready" "same_content x y" for x y
    using ok that unfolding file_ok_def stored_once_def file_keys_def by (meson unique_keyD)
  then show ?thesis using live_attachment_blob [OF ok] shared_file_blob [OF ok] by blast
qed

section \<open>Collection leaves reachable bytes on disk\<close>

definition backs :: "string \<Rightarrow> user_file_row \<Rightarrow> file_db \<Rightarrow> bool" where
  \<comment> \<open>the bytes of a reachable file are stored at that path\<close>
  "backs path f db \<longleftrightarrow> f \<in> set (fd_files db) \<and> referenced db f \<and> (\<exists>b \<in> set (fd_blobs db). uf_blob f = Some (bl_id b) \<and> bl_path b = path)"

lemma backs_update:
  assumes "backs path f db" and "\<And>b. bl_id (g b) = bl_id b \<and> bl_path (g b) = bl_path b"
  shows "backs path f (db\<lparr>fd_blobs := sql_update p g (fd_blobs db)\<rparr>)"
proof -
  obtain b where b: "b \<in> set (fd_blobs db)" "uf_blob f = Some (bl_id b)" "bl_path b = path" using assms(1) by (auto simp: backs_def)
  have "(if p b then g b else b) \<in> set (sql_update p g (fd_blobs db))" unfolding set_sql_update using b(1) by (rule imageI)
  then have "\<exists>c \<in> set (sql_update p g (fd_blobs db)). uf_blob f = Some (bl_id c) \<and> bl_path c = path"
    by (rule bexI [rotated]) (simp add: b assms(2))
  then show ?thesis using assms(1) by (simp add: backs_def referenced_def)
qed

lemma backs_mark: "backs path f db \<Longrightarrow> backs path f (markUnreferencedBlobsForGc clock db)"
  unfolding markUnreferencedBlobsForGc_def by (erule backs_update) simp

lemma backs_claim:
  assumes b: "backs path f db"
  shows "backs path f (claim_or_defer clock db row)"
proof (cases "sql_get (\<lambda>b. bl_id b = bl_id row \<and> bl_state b = Blob_gc_pending) (fd_blobs db)")
  case None
  then show ?thesis using b by (simp add: claim_or_defer_def claimBlobForGc_def)
next
  case (Some blob)
  show ?thesis
  proof (cases "sql_exists (\<lambda>f. uf_blob f = Some (bl_id row) \<and> referenced db f) (fd_files db)")
    case True
    have "backs path f (db\<lparr>fd_blobs := sql_update (\<lambda>b. bl_id b = bl_id row) (\<lambda>b. b\<lparr>bl_state := Blob_ready, bl_updated_at := clock\<rparr>) (fd_blobs db)\<rparr>)"
      using b by (rule backs_update) simp
    then show ?thesis using True Some b
      by (auto simp: claim_or_defer_def claimBlobForGc_def set_blob_state_def update_blob_def simp del: sql_exists_iff split: option.splits)
  next
    case False
    with b have ne: "uf_blob f \<noteq> Some (bl_id row)" by (auto simp: backs_def)
    have "f \<in> set (sql_update (\<lambda>f. uf_blob f = Some (bl_id row)) (\<lambda>f. f\<lparr>uf_blob := None\<rparr>) (fd_files db))"
      using b ne by (auto simp: backs_def set_sql_update)
    with b ne False Some show ?thesis unfolding claim_or_defer_def claimBlobForGc_def
      by (auto simp: backs_def referenced_def simp del: sql_exists_iff)
  qed
qed

lemma backs_claims: "backs path f db \<Longrightarrow> backs path f (claim_unreferenced clock db)"
  unfolding claim_unreferenced_def Let_def by (rule foldl_keeps) (auto intro: backs_mark backs_claim)

lemma process_deletion_keeps:
  assumes "hasBlobAtStoragePath path (fst s) \<and> on_disk path (snd s)"
  shows "hasBlobAtStoragePath path (fst (process_deletion managed unlinkable message s d)) \<and> on_disk path (snd (process_deletion managed unlinkable message s d))"
  using assms by (cases s) (auto simp: process_deletion_def failQueuedFileDeletion_def completeQueuedFileDeletion_def hasBlobAtStoragePath_def
    on_disk_def unlink_def list_ex_iff intro!: exI)

lemma sweep_keeps:
  assumes "hasBlobAtStoragePath path db" and "on_disk path disk" and "\<forall>n. (n, path) \<in> set entries \<longrightarrow> take 9 n \<noteq> ''.staging-''"
  shows "on_disk path (sweepUnclaimedFiles unlinkable now acceptsPending entries db disk)"
  using assms(2,3) unfolding sweepUnclaimedFiles_def
proof (induction entries arbitrary: disk)
  case (Cons e es)
  have "on_disk path (sweep_entry unlinkable now acceptsPending db disk e)"
    using Cons.prems assms(1) by (cases e) (auto simp: sweep_entry_def on_disk_def unlink_def list_ex_iff split: option.splits)
  then show ?case using Cons by simp
qed simp

lemma collect_keeps:
  assumes b: "backs path f db" and d: "on_disk path disk"
    and n: "\<forall>n. (n, path) \<in> set uploads \<union> set pendings \<longrightarrow> take 9 n \<noteq> ''.staging-''"
  shows "hasBlobAtStoragePath path (fst (maintenance_collect managed unlinkable message clock now uploads pendings db disk))
    \<and> on_disk path (snd (maintenance_collect managed unlinkable message clock now uploads pendings db disk))"
proof -
  let ?db2 = "claim_unreferenced clock db"
  obtain db3 disk1 where f: "foldl (process_deletion managed unlinkable message) (?db2, disk) (listQueuedFileDeletions 50 ?db2) = (db3, disk1)"
    by fastforce
  have "hasBlobAtStoragePath path (fst (?db2, disk)) \<and> on_disk path (snd (?db2, disk))"
    using backs_claims [OF b, of clock] d by (auto simp: backs_def hasBlobAtStoragePath_def)
  then have "hasBlobAtStoragePath path (fst (db3, disk1)) \<and> on_disk path (snd (db3, disk1))"
    unfolding f [symmetric] by (rule foldl_keeps) (rule process_deletion_keeps)
  then show ?thesis using n by (auto simp: maintenance_collect_def Let_def f intro!: sweep_keeps)
qed

lemma getUserFile_in: "getUserFile i db = Some f \<Longrightarrow> f \<in> set (fd_files db)"
  by (auto simp: getUserFile_def file_row_def split: option.splits dest: sql_get_SomeD)

lemma getUserFile_same:
  \<comment> \<open>the ids and aliases decide which row is found\<close>
  assumes g: "getUserFile i db = Some f" and a: "fd_aliases db' = fd_aliases db" and m: "map uf_id (fd_files db') = map uf_id (fd_files db)"
    and u: "unique_key uf_id (fd_files db')" and f: "f \<in> set (fd_files db')"
  shows "getUserFile i db' = Some f"
proof (cases "file_row i db")
  case (Some h)
  then have "h = f" "uf_id f = i" using g by (auto simp: getUserFile_def file_row_def dest: sql_get_SomeD)
  then show ?thesis using file_row_of [OF u f] by (simp add: getUserFile_def)
next
  case None
  then obtain x where x: "sql_get (\<lambda>a. al_id a = i) (fd_aliases db) = Some x" "file_row (al_file x) db = Some f"
    using g by (auto simp: getUserFile_def split: option.splits)
  have "i \<notin> set (map uf_id (fd_files db))" using None by (auto simp: file_row_def sql_get_None_iff)
  then have "file_row i db' = None" unfolding m [symmetric] by (auto simp: file_row_def sql_get_None_iff)
  moreover have "uf_id f = al_file x" using x(2) by (auto simp: file_row_def dest: sql_get_SomeD)
  ultimately show ?thesis using x(1) a file_row_of [OF u f] by (simp add: getUserFile_def)
qed

lemma claim_ids: "map uf_id (fd_files (claim_or_defer clock db b)) = map uf_id (fd_files db) \<and> fd_aliases (claim_or_defer clock db b) = fd_aliases db"
  by (auto simp: claim_or_defer_def claimBlobForGc_def set_blob_state_def update_blob_def map_sql_update split: sum.splits option.splits if_splits)

lemma claims_ids: "map uf_id (fd_files (claim_unreferenced clock db)) = map uf_id (fd_files db) \<and> fd_aliases (claim_unreferenced clock db) = fd_aliases db"
  unfolding claim_unreferenced_def Let_def
  by (rule foldl_keeps) (simp_all add: markUnreferencedBlobsForGc_def claim_ids)

lemma collect_tables:
  "same_files (claim_unreferenced clock db) (fst (maintenance_collect managed unlinkable message clock now uploads pendings db disk))"
  unfolding fst_maintenance_collect using process_deletions_same [of "(claim_unreferenced clock db, disk)"] by simp

text \<open>
  C11. A maintenance pass that collects garbage, empties the deletion queue and sweeps the upload
  directories leaves the bytes of every reachable file on disk: if the file is shared or attached, then
  after the pass its id still finds the same file, whose blob is still stored at the same path, and that
  path still exists. The one exception are paths whose name begins with \<^verbatim>\<open>.staging-\<close>, which are
  reserved for unfinished uploads and swept even if a blob is registered there.
\<close>

theorem collection_spares_reachable:
  assumes "file_ok db" and "getUserFile i db = Some f" and "referenced db f" and "getUserFileBlob i db = Some b"
    and "on_disk (bl_path b) disk" and "\<forall>n. (n, bl_path b) \<in> set uploads \<union> set pendings \<longrightarrow> take 9 n \<noteq> ''.staging-''"
    and "maintenance_collect managed unlinkable message clock now uploads pendings db disk = (db', disk')"
  shows "on_disk (bl_path b) disk' \<and> getUserFile i db' = Some f \<and> (\<exists>c. getUserFileBlob i db' = Some c \<and> bl_id c = bl_id b \<and> bl_path c = bl_path b)"
proof -
  let ?d = "claim_unreferenced clock db"
  have b: "backs (bl_path b) f db" "uf_blob f = Some (bl_id b)" using assms(2-4) getUserFile_in [OF assms(2)]
    by (auto simp: backs_def getUserFileBlob_def getBlob_def split: option.splits dest: sql_get_SomeD)
  have s: "same_files ?d db'" using collect_tables [of clock db managed unlinkable message now uploads pendings disk] assms(7) by simp
  have ok: "file_ok db'" using maintenance_collect_ok [OF assms(1), of managed unlinkable message clock now uploads pendings disk] assms(7) by simp
  then have u: "unique_key uf_id (fd_files db')" "unique_key bl_id (fd_blobs db')" by (auto simp: file_ok_def file_keys_def)
  obtain c where c: "c \<in> set (fd_blobs db')" "bl_id c = bl_id b" "bl_path c = bl_path b" "f \<in> set (fd_files db')"
    using backs_claims [OF b(1), of clock] b(2) s by (auto simp: backs_def same_files_def)
  have f: "getUserFile i db' = Some f"
    using claims_ids [of clock db] s by (intro getUserFile_same [OF assms(2) _ _ u(1) c(4)]) (auto simp: same_files_def)
  moreover have "getUserFileBlob i db' = Some c" using f b(2) getBlob_of [OF u(2) c(1)] c(2) by (simp add: getUserFileBlob_def)
  moreover have "on_disk (bl_path b) disk'"
    using collect_keeps [OF b(1) assms(5,6), of managed unlinkable message clock now] assms(7) by simp
  ultimately show ?thesis using c by blast
qed

section \<open>Merged files stay reachable\<close>

lemma merge_loser_resolves:
  assumes k: "file_keys db" and c: "c \<in> set (fd_files db)" and l: "l \<in> set (fd_files db)" "uf_id l \<noteq> uf_id c"
    and g: "getUserFile j db = Some f"
  shows "getUserFile j (merge_loser now (uf_id c) (uf_id l) db) = Some (if uf_id f = uf_id l then c else f)"
proof -
  let ?db = "merge_loser now (uf_id c) (uf_id l) db"
  have u: "unique_key uf_id (fd_files db)" using k by (simp add: file_keys_def)
  have row: "file_row i ?db = (if i = uf_id l then None else file_row i db)" for i
    by (cases "sql_get (\<lambda>f. uf_id f = i) (fd_files db)") (auto simp: file_row_def merge_loser_def sql_get_delete_key [OF u] dest: sql_get_SomeD)
  have rc: "file_row (uf_id c) ?db = Some c" using row l(2) file_row_of [OF u c] by simp
  have names: "map_option al_file (sql_get (\<lambda>a. al_id a = i) (fd_aliases ?db)) = (if i = uf_id l then Some (uf_id c)
      else map_option (\<lambda>a. if al_file a = uf_id l then uf_id c else al_file a) (sql_get (\<lambda>a. al_id a = i) (fd_aliases db)))" for i
  proof -
    have ex: "sql_exists p t \<longleftrightarrow> sql_get p t \<noteq> None" for p and t :: "alias_row table" by (auto simp: sql_get_None_iff)
    show ?thesis unfolding merge_loser_def Let_def
      by (cases "sql_get (\<lambda>a. al_id a = i) (fd_aliases db)"; cases "sql_get (\<lambda>a. al_id a = uf_id l) (fd_aliases db)")
        (auto simp: ex sql_get_update_key sql_get_insert simp del: sql_exists_iff dest: sql_get_SomeD)
  qed
  show ?thesis
  proof (cases "j = uf_id l")
    case True
    then have "f = l" using g file_row_of [OF u l(1)] by (simp add: getUserFile_def)
    then show ?thesis using names [of j] row [of j] rc True by (auto simp: getUserFile_def split: option.splits)
  next
    case False
    show ?thesis
    proof (cases "file_row j db")
      case (Some h)
      then have "h = f" "uf_id f = j" using g by (auto simp: getUserFile_def file_row_def dest: sql_get_SomeD)
      then show ?thesis using Some row False by (simp add: getUserFile_def)
    next
      case None
      then obtain x where x: "sql_get (\<lambda>a. al_id a = j) (fd_aliases db) = Some x" "file_row (al_file x) db = Some f"
        using g by (auto simp: getUserFile_def split: option.splits)
      moreover have "uf_id f = al_file x" using x(2) by (auto simp: file_row_def dest: sql_get_SomeD)
      ultimately show ?thesis using None names [of j] row [of j] row [of "al_file x"] rc False
        by (auto simp: getUserFile_def split: option.splits if_splits)
    qed
  qed
qed

lemma merge_loser_keys: "file_keys db \<Longrightarrow> file_keys (merge_loser now c l db)"
  by (auto simp: file_keys_def merge_loser_def Let_def unique_key_insert_iff intro!: unique_key_update unique_key_delete)

lemma merge_losers_resolve:
  assumes "file_keys db" and "c \<in> set (fd_files db)" and "set ls \<subseteq> set (fd_files db)" and "distinct (map uf_id (c # ls))"
    and "getUserFile j db = Some f"
  shows "getUserFile j (foldl (\<lambda>d l. merge_loser now (uf_id c) (uf_id l) d) db ls) = Some (if uf_id f \<in> uf_id ` set ls then c else f)"
  using assms
proof (induction ls arbitrary: db f)
  case (Cons l ls)
  let ?db = "merge_loser now (uf_id c) (uf_id l) db" and ?f = "if uf_id f = uf_id l then c else f"
  have "getUserFile j ?db = Some ?f" using Cons.prems by (intro merge_loser_resolves) auto
  moreover have "uf_id x \<noteq> uf_id l" if "x \<in> set ls" for x using Cons.prems(4) imageI [OF that, of uf_id] by auto
  then have "set ls \<subseteq> set (fd_files ?db)" using Cons.prems(3) by (auto simp: merge_loser_def)
  moreover have "c \<in> set (fd_files ?db)" using Cons.prems by (auto simp: merge_loser_def)
  ultimately have "getUserFile j (foldl (\<lambda>d l. merge_loser now (uf_id c) (uf_id l) d) ?db ls) = Some (if uf_id ?f \<in> uf_id ` set ls then c else ?f)"
    using Cons.prems by (intro Cons.IH merge_loser_keys) auto
  then show ?case using Cons.prems(4) by auto
qed simp

lemma getUserFile_blobs [simp]: "getUserFile i (db\<lparr>fd_blobs := t\<rparr>) = getUserFile i db"
  by (simp add: getUserFile_def file_row_def cong: option.case_cong)

lemma getUserFile_update:
  assumes "\<And>f. uf_id (g f) = uf_id f"
  shows "getUserFile i (db\<lparr>fd_files := sql_update p g (fd_files db)\<rparr>) = map_option (\<lambda>f. if p f then g f else f) (getUserFile i db)"
  by (auto simp: getUserFile_def file_row_def sql_get_update_key assms split: option.splits)

definition merged :: "ident \<Rightarrow> ident \<Rightarrow> user_file_row \<Rightarrow> user_file_row \<Rightarrow> bool" where
  \<comment> \<open>what a merge of the files of two blobs does to the file found under an id\<close>
  "merged kept_id other f g \<longleftrightarrow> (if uf_blob f = Some kept_id \<or> uf_blob f = Some other
     then uf_blob g = Some kept_id \<and> (uf_standalone f \<longrightarrow> uf_standalone g \<and> visibility_rank (uf_visibility f) \<le> visibility_rank (uf_visibility g)
       \<and> (case uf_expires_at g of None \<Rightarrow> True | Some e \<Rightarrow> \<exists>t. uf_expires_at f = Some t \<and> t \<le> e))
     else g = f)"

lemma widest_max: "f \<in> set fs \<Longrightarrow> visibility_rank (uf_visibility f) \<le> visibility_rank (widest fs)"
proof -
  assume f: "f \<in> set fs"
  let ?vs = "sort_key (\<lambda>v. - visibility_rank v) (map uf_visibility fs)"
  have m: "uf_visibility f \<in> set ?vs" using f by simp
  then obtain v vs where v: "?vs = v # vs" by (cases ?vs) auto
  have "sorted (map (\<lambda>v. - visibility_rank v) (v # vs))" using sorted_sort_key [of "\<lambda>v. - visibility_rank v" "map uf_visibility fs"] v by simp
  then have "visibility_rank (uf_visibility f) \<le> visibility_rank v" using m v by auto
  then show ?thesis using v by (simp add: widest_def)
qed

lemma latest_max: "f \<in> set fs \<Longrightarrow> latest_expiry fs = Some e \<Longrightarrow> \<exists>t. uf_expires_at f = Some t \<and> t \<le> e"
proof -
  assume f: "f \<in> set fs" and e: "latest_expiry fs = Some e"
  let ?ts = "sort (List.map_filter uf_expires_at fs)"
  have some: "\<forall>f \<in> set fs. uf_expires_at f \<noteq> None" using e by (auto simp: latest_expiry_def list_ex_iff split: if_splits)
  then obtain t where t: "uf_expires_at f = Some t" using f by auto
  then have m: "t \<in> set ?ts" using f by (force simp: List.map_filter_def)
  have "e = last ?ts" using e some m by (auto simp: latest_expiry_def list_ex_iff split: if_splits list.splits)
  moreover have "t \<le> last ?ts"
  proof -
    have "?ts = butlast ?ts @ [last ?ts]" using m by (metis append_butlast_last_id empty_iff empty_set)
    then obtain xs x where x: "?ts = xs @ [x]" by blast
    have "sorted (xs @ [x])" unfolding x [symmetric] by simp
    then show ?thesis using m unfolding x by (auto simp: sorted_append)
  qed
  ultimately show ?thesis using t by auto
qed

lemma files_of_distinct:
  \<comment> \<open>the files selected for a merge\<close>
  fixes k :: "user_file_row \<Rightarrow> bool \<times> iso_time \<times> ident"
  assumes "unique_key uf_id t" and "sql_order_by k (sql_select p t) = cs"
  shows "distinct (map uf_id cs) \<and> set cs = {f \<in> set t. p f}"
proof -
  have "distinct (map uf_id (sql_select p t))" using assms(1) by (auto simp: unique_key_def sql_select_def intro: distinct_map_filter)
  then have "distinct (map uf_id (sql_order_by k (sql_select p t)))" by (simp add: sql_order_by_def distinct_map)
  moreover have "set (sql_order_by k (sql_select p t)) = {f \<in> set t. p f}" by simp
  ultimately show ?thesis unfolding assms(2) by simp
qed

lemma merge_files_resolves:
  assumes k: "file_keys db" and g: "getUserFile j db = Some f"
  shows "\<exists>h. getUserFile j (merge_files now kept_id other db) = Some h \<and> merged kept_id other f h"
proof (cases "sql_order_by (\<lambda>f. (\<not> uf_standalone f, uf_created_at f, uf_id f))
    (sql_select (\<lambda>f. uf_blob f = Some kept_id \<or> uf_blob f = Some other) (fd_files db))")
  case Nil
  then have "\<not> (uf_blob f = Some kept_id \<or> uf_blob f = Some other)"
    using files_of_distinct [OF _ Nil] k getUserFile_in [OF g] by (auto simp: file_keys_def)
  then show ?thesis using g unfolding merge_files_def Nil list.case by (simp add: merged_def)
next
  case (Cons c ls)
  define shared where "shared = filter uf_standalone (c # ls)"
  define up where "up = (\<lambda>f :: user_file_row. f\<lparr>uf_blob := Some kept_id, uf_standalone := shared \<noteq> [], uf_visibility := (if shared = [] then None else widest shared),
                  uf_expires_at := (if shared = [] then None else latest_expiry shared), uf_revision := uf_revision f + 1,
                  uf_updated_at := now\<rparr>)"
  define db1 where "db1 = db\<lparr>fd_files := sql_update (\<lambda>f. uf_id f = uf_id c) up (fd_files db)\<rparr>"
  have u: "unique_key uf_id (fd_files db)" using k by (simp add: file_keys_def)
  note sel = files_of_distinct [OF u Cons]
  have eq: "merge_files now kept_id other db = (let db2 = foldl (\<lambda>d l. merge_loser now (uf_id (up c)) (uf_id l) d) db1 ls in
      db2\<lparr>fd_blobs := sql_update (\<lambda>b. bl_id b = other) (\<lambda>b. b\<lparr>bl_state := Blob_gc_pending, bl_updated_at := now\<rparr>) (fd_blobs db2)\<rparr>)"
  proof -
    have id: "uf_id (up c) = uf_id c" by (simp add: up_def)
    show ?thesis unfolding merge_files_def Cons list.case Let_def shared_def [symmetric] up_def [symmetric] db1_def [symmetric] id ..
  qed
  let ?f = "if uf_id f = uf_id c then up f else f"
  have f: "getUserFile j db1 = Some ?f" unfolding db1_def using g by (subst getUserFile_update) (auto simp: up_def)
  have "getUserFile j (merge_files now kept_id other db) = Some (if uf_id ?f \<in> uf_id ` set ls then up c else ?f)"
    unfolding eq Let_def getUserFile_blobs
  proof (rule merge_losers_resolve [OF _ _ _ _ f])
    show "file_keys db1" using k by (auto simp: db1_def file_keys_def up_def intro!: unique_key_update)
    show "up c \<in> set (fd_files db1)" using sel by (auto simp: db1_def set_sql_update intro!: image_eqI [of _ _ c])
    show "set ls \<subseteq> set (fd_files db1)"
    proof
      fix x assume x: "x \<in> set ls"
      then have "uf_id x \<noteq> uf_id c" "x \<in> set (fd_files db)" using sel by (auto simp: image_iff)
      then show "x \<in> set (fd_files db1)" by (auto simp: db1_def set_sql_update intro!: image_eqI [of _ _ x])
    qed
    show "distinct (map uf_id (up c # ls))" using sel by (simp add: up_def)
  qed
  moreover have fd: "f \<in> set (fd_files db)" using g by (rule getUserFile_in)
  have one: "uf_id f \<in> uf_id ` set (c # ls) \<longleftrightarrow> f \<in> set (c # ls)" using sel fd u by (auto dest: unique_keyD)
  have "merged kept_id other f (if uf_id ?f \<in> uf_id ` set ls then up c else ?f)"
  proof (cases "f \<in> set (c # ls)")
    case True
    have "uf_standalone f \<Longrightarrow> f \<in> set shared" using True by (auto simp: shared_def)
    then have "merged kept_id other f (up x)" for x using True sel widest_max [of f shared] latest_max [of f shared]
      by (auto simp: merged_def up_def split: option.splits)
    then show ?thesis using one True by (auto simp: up_def)
  next
    case False
    then have "\<not> (uf_blob f = Some kept_id \<or> uf_blob f = Some other)" using sel fd by auto
    then show ?thesis using one False by (auto simp: merged_def up_def)
  qed
  ultimately show ?thesis by blast
qed

text \<open>
  C35. When the maintenance pass finds that a blob has the same bytes as another ready blob of its owner,
  the files of the two are merged and none is lost: every id that named a file still names one, with the
  bytes of the kept blob, at least as visible and for at least as long as before, and files of other blobs
  are untouched.
\<close>

theorem merge_keeps_access:
  assumes "file_ok db" and "getBlob i db = Some b" and "bl_state b = Blob_ready" and "bl_size b = bytes" and "truthy_id (bl_owner b)"
    and "sql_get (\<lambda>d. bl_id d \<noteq> i \<and> bl_owner d = bl_owner b \<and> bl_sha256 d = Some sha \<and> bl_size d = bytes \<and> bl_state d = Blob_ready) (fd_blobs db) = Some d"
    and "getUserFile j db = Some f"
  shows "\<exists>db' g. verifyBlob now i sha bytes db = Inr db' \<and> getUserFile j db' = Some g \<and> merged (bl_id d) i f g \<and> file_ok db'"
proof -
  have v: "verifyBlob now i sha bytes db = Inr (merge_files now (bl_id d) i db)" using assms by (simp add: verifyBlob_def)
  moreover have "file_ok (merge_files now (bl_id d) i db)" using verifyBlob_ok [OF assms(1) v] .
  moreover have "file_keys db" using assms(1) by (simp add: file_ok_def)
  ultimately show ?thesis using merge_files_resolves [OF _ assms(7), of now "bl_id d" i] by blast
qed

end
