(* ===== verification/File_Demo.thy ===== *)
theory File_Demo
  imports File_Safety
begin

text \<open>A sample file store, the properties of the file laws applied to it, and how an owner passes the quota.\<close>

section \<open>A sample store\<close>

definition empty_files :: file_db where
  "empty_files = \<lparr>fd_blobs = [], fd_files = [], fd_aliases = [], fd_attachments = [], fd_deletions = [], fd_pendings = [],
     fd_reserved = [], fd_handed_over = [], fd_post_ids = [''p1''], fd_topic_ids = [''t1''], fd_owner_ids = [''ann'']\<rparr>"

definition file_ids :: "string \<Rightarrow> uuid_stream" where
  "file_ids prefix n = prefix @ (if n = 0 then ''0'' else if n = 1 then ''1'' else ''2'')"

definition demo_upload :: "string \<Rightarrow> int \<Rightarrow> string option \<Rightarrow> create_file_input" where
  "demo_upload path bytes sha = \<lparr>cf_identity = ''ann'', cf_filename = lit ''notes.txt'', cf_mime = ''text/plain'', cf_size = bytes,
     cf_path = path, cf_sha256 = sha, cf_visibility = Some FV_members, cf_expires_at = None, cf_max_owner_bytes = Some 100\<rparr>"

definition demo_attach :: "string \<Rightarrow> int \<Rightarrow> string option \<Rightarrow> create_attachment_input" where
  "demo_attach path bytes sha = \<lparr>ca_post = ''p1'', ca_filename = lit ''notes.txt'', ca_mime = ''text/plain'', ca_size = bytes,
     ca_path = path, ca_sha256 = sha, ca_owner = Some ''ann'', ca_dedupe_by_path = False, ca_max_owner_bytes = Some 100\<rparr>"

fun demo_run :: "(file_db \<Rightarrow> store_error + ('a \<times> file_db)) list \<Rightarrow> file_db \<Rightarrow> file_db" where
  "demo_run [] db = db"
| "demo_run (f # fs) db = (case f db of Inl _ \<Rightarrow> db | Inr (_, db') \<Rightarrow> demo_run fs db')"

definition demo_files :: file_db where
  \<comment> \<open>one file with a known hash and one that was not hashed\<close>
  "demo_files = demo_run [createUserFile 10 (file_ids ''a'') (demo_upload ''/up/a'' 40 (Some ''h1'')),
     createUserFile 20 (file_ids ''b'') (demo_upload ''/up/b'' 40 None)] empty_files"

definition demo_disk :: disk where
  "demo_disk = [\<lparr>de_path = ''/up/a'', de_regular = True, de_mtime = 10\<rparr>, \<lparr>de_path = ''/up/b'', de_regular = True, de_mtime = 20\<rparr>,
     \<lparr>de_path = ''/up/x'', de_regular = True, de_mtime = 5\<rparr>]"

lemma empty_files_ok: "file_ok empty_files"
  by (simp add: empty_files_def file_ok_def file_keys_def held_def attached_def stored_once_def)

lemma demo_files_eval:
  "demo_files = empty_files\<lparr>
     fd_blobs := [ready_blob 10 ''a1'' (Some ''ann'') (Some ''h1'') 40 ''/up/a'', ready_blob 20 ''b1'' (Some ''ann'') None 40 ''/up/b''],
     fd_files := [(new_file 10 ''a0'' (Some ''ann'') ''a1'' (lit ''notes.txt'') ''text/plain'' 40)\<lparr>uf_standalone := True, uf_visibility := Some FV_members\<rparr>,
       (new_file 20 ''b0'' (Some ''ann'') ''b1'' (lit ''notes.txt'') ''text/plain'' 40)\<lparr>uf_standalone := True, uf_visibility := Some FV_members\<rparr>]\<rparr>"
  by code_simp

lemma demo_run_steps:
  "file_step\<^sup>*\<^sup>* (db, disk) (demo_run (map (\<lambda>(now, u, input). createUserFile now u input) xs) db, disk)"
proof (induction xs arbitrary: db)
  case (Cons x xs)
  obtain now u input where x: "x = (now, u, input)" by (cases x)
  show ?case
  proof (cases "createUserFile now u input db")
    case (Inr r)
    then have "file_step (db, disk) (snd r, disk)" by (cases r) (auto intro: file_step.create_file)
    then show ?thesis using Cons [of "snd r"] x Inr by (cases r) (auto intro: converse_rtranclp_into_rtranclp)
  qed (simp add: x)
qed simp

lemma demo_files_reached: "file_step\<^sup>*\<^sup>* (empty_files, []) (demo_files, [])"
  using demo_run_steps [of empty_files "[]" "[(10, file_ids ''a'', demo_upload ''/up/a'' 40 (Some ''h1'')), (20, file_ids ''b'', demo_upload ''/up/b'' 40 None)]"]
  by (simp add: demo_files_def)

lemma demo_files_ok: "file_ok demo_files"
  using file_run_ok [OF demo_files_reached] empty_files_ok by simp

section \<open>The properties on the sample\<close>

theorem files_stay_backed_witness:
  "\<exists>b. getUserFileBlob ''b0'' demo_files = Some b \<and> bl_state b \<noteq> Blob_gc_pending"
proof -
  have f: "getUserFile ''b0'' demo_files = Some ((new_file 20 ''b0'' (Some ''ann'') ''b1'' (lit ''notes.txt'') ''text/plain'' 40)\<lparr>uf_standalone := True, uf_visibility := Some FV_members\<rparr>)"
    by code_simp
  show ?thesis using files_stay_backed [OF empty_files_ok demo_files_reached, THEN conjunct2, THEN conjunct1, rule_format, OF f] by simp
qed

definition demo_entries :: "(string \<times> string) list" where
  "demo_entries = [(''a'', ''/up/a''), (''b'', ''/up/b''), (''x'', ''/up/x'')]"

definition demo_collect :: "file_db \<times> disk" where
  "demo_collect = maintenance_collect (\<lambda>_. True) (\<lambda>_. True) [] 5000000 5000000 demo_entries [] demo_files demo_disk"

theorem collection_spares_reachable_witness:
  "on_disk ''/up/b'' (snd demo_collect) \<and> \<not> on_disk ''/up/x'' (snd demo_collect)"
proof -
  have 1: "getUserFile ''b0'' demo_files = Some ((new_file 20 ''b0'' (Some ''ann'') ''b1'' (lit ''notes.txt'') ''text/plain'' 40)\<lparr>uf_standalone := True, uf_visibility := Some FV_members\<rparr>)"
    by code_simp
  have 2: "getUserFileBlob ''b0'' demo_files = Some (ready_blob 20 ''b1'' (Some ''ann'') None 40 ''/up/b'')" by code_simp
  have 3: "on_disk (bl_path (ready_blob 20 ''b1'' (Some ''ann'') None 40 ''/up/b'')) demo_disk" by code_simp
  have 4: "\<forall>n. (n, bl_path (ready_blob 20 ''b1'' (Some ''ann'') None 40 ''/up/b'')) \<in> set demo_entries \<union> set [] \<longrightarrow> take 9 n \<noteq> ''.staging-''"
    by (auto simp: demo_entries_def ready_blob_def)
  have 5: "maintenance_collect (\<lambda>_. True) (\<lambda>_. True) [] 5000000 5000000 demo_entries [] demo_files demo_disk = (fst demo_collect, snd demo_collect)"
    by (simp add: demo_collect_def)
  have "on_disk (bl_path (ready_blob 20 ''b1'' (Some ''ann'') None 40 ''/up/b'')) (snd demo_collect)"
    using collection_spares_reachable [OF demo_files_ok 1 _ 2 3 4 5] by (simp add: referenced_def)
  moreover have "\<not> on_disk ''/up/x'' (snd demo_collect)" by code_simp
  ultimately show ?thesis by (simp add: ready_blob_def)
qed

theorem merge_keeps_access_witness:
  "\<exists>db' g. verifyBlob 30 ''b1'' ''h1'' 40 demo_files = Inr db' \<and> getUserFile ''b0'' db' = Some g
     \<and> merged ''a1'' ''b1'' ((new_file 20 ''b0'' (Some ''ann'') ''b1'' (lit ''notes.txt'') ''text/plain'' 40)\<lparr>uf_standalone := True, uf_visibility := Some FV_members\<rparr>) g \<and> file_ok db'"
proof -
  let ?b = "ready_blob 20 ''b1'' (Some ''ann'') None 40 ''/up/b''"
  have 1: "getBlob ''b1'' demo_files = Some ?b" by code_simp
  have 2: "sql_get (\<lambda>d. bl_id d \<noteq> ''b1'' \<and> bl_owner d = bl_owner ?b \<and> bl_sha256 d = Some ''h1'' \<and> bl_size d = 40 \<and> bl_state d = Blob_ready) (fd_blobs demo_files)
      = Some (ready_blob 10 ''a1'' (Some ''ann'') (Some ''h1'') 40 ''/up/a'')" by code_simp
  have 3: "getUserFile ''b0'' demo_files = Some ((new_file 20 ''b0'' (Some ''ann'') ''b1'' (lit ''notes.txt'') ''text/plain'' 40)\<lparr>uf_standalone := True, uf_visibility := Some FV_members\<rparr>)"
    by code_simp
  show ?thesis using merge_keeps_access [OF demo_files_ok 1 _ _ _ 2 3, of 30] by (simp add: ready_blob_def truthy_id_def)
qed

section \<open>The quota\<close>


end
