(* ===== verification/Projections.thy ===== *)
theory Projections
  imports User_Files
begin

text \<open>
  How an answer of the agent becomes a post: \<^verbatim>\<open>assistant_projections\<close> records each outward message of an
  agent session once, \<^verbatim>\<open>attachment_handoffs\<close> the files that go with it, \<^verbatim>\<open>pending_attachment_reservations\<close>
  who has custody of an uploaded file. Operations of \<^verbatim>\<open>server/store.ts\<close> and the synchronous parts of
  \<^verbatim>\<open>server/services/attachmentHandoffService.ts\<close>. They work on the posts of \<open>Forum_Db\<close> and the files of
  \<open>User_Files\<close>. The clock is read once per operation.
\<close>

section \<open>Rows\<close>

datatype projection_status = Pj_pending | Pj_linking | Pj_projected | Pj_failed | Pj_needs_manual_review
datatype handoff_status = Ho_pending | Ho_linking | Ho_linked | Ho_failed | Ho_needs_manual_review
datatype source_kind = Structured_pending | Legacy_marker | Legacy_artifact

datatype completion_state = Completion_none | Completion_pending | Completion_claimed

datatype ref_value = Ref_null | Ref_text string | Ref_value string
  \<comment> \<open>a value of a JSON object: null, a text or anything else\<close>

type_synonym source_ref = "(string \<times> ref_value) list"

record metadata =
  md_source_kind :: "ref_value option"
  md_rest :: string

record projection_payload =
  pl_session :: ident
  pl_body :: js_string
  pl_author :: ident
  pl_parent :: "ident option"
  pl_metadata :: "metadata option"
  pl_follow_up :: bool

record projection_row =
  ap_id :: ident
  ap_pi_session :: ident
  ap_pi_message :: ident
  ap_utterance :: ident
  ap_topic :: ident
  ap_post :: "ident option"
  ap_session_message :: "ident option"
  ap_status :: projection_status
  ap_origin :: string
  ap_payload :: projection_payload
  ap_completion :: "string option"
  ap_completion_state :: completion_state
  ap_completion_token :: "ident option"
  ap_error :: "js_string option"
  ap_created_at :: iso_time
  ap_updated_at :: iso_time

record handoff_row =
  ho_id :: ident
  ho_projection :: ident
  ho_ref_entry :: string
  ho_kind :: source_kind
  ho_source :: source_ref
  ho_sha256 :: "string option"
  ho_size :: "int option"
  ho_status :: handoff_status
  ho_attempt_count :: nat
  ho_claim_token :: "ident option"
  ho_next_attempt_at :: "iso_time option"
  ho_error :: "js_string option"
  ho_created_at :: iso_time
  ho_updated_at :: iso_time

record reservation_row =
  rv_pending :: ident
  rv_topic :: ident
  rv_projection :: ident
  rv_handoff :: ident
  rv_created_at :: iso_time

record session_message_row =
  sm_id :: ident
  sm_session :: ident
  sm_role :: string
  sm_content :: js_string
  sm_created_at :: iso_time

record link_row =
  ml_id :: ident
  ml_pi_session :: ident
  ml_pi_message :: ident
  ml_post :: "ident option"
  ml_session_message :: "ident option"
  ml_role :: "string option"
  ml_imported_at :: iso_time
  ml_metadata :: "metadata option"

record anomaly_row =
  an_id :: ident
  an_pi_session :: ident
  an_pi_message :: ident
  an_topic :: ident
  an_session :: ident
  an_status :: string
  an_reason :: string
  an_preview :: js_string
  an_first_seen :: iso_time
  an_last_seen :: iso_time
  an_post :: "ident option"
  an_handoff :: ident

record projection_db =
  pj_forum :: forum_db
  pj_files :: file_db
  pj_sessions :: "(ident \<times> ident) table"
  pj_projections :: "projection_row table"
  pj_handoffs :: "handoff_row table"
  pj_reservations :: "reservation_row table"
  pj_messages :: "session_message_row table"
  pj_links :: "link_row table"
  pj_anomalies :: "anomaly_row table"

section \<open>The files next to the handoffs\<close>

definition open_handoff :: "handoff_row \<Rightarrow> bool" where
  "open_handoff h \<longleftrightarrow> ho_status h = Ho_pending \<or> ho_status h = Ho_linking \<or> ho_status h = Ho_failed \<or> ho_status h = Ho_needs_manual_review"

definition text_of :: "ref_value option \<Rightarrow> string option" where
  "text_of v = (case v of Some (Ref_text t) \<Rightarrow> Some t | _ \<Rightarrow> None)"

definition handed_over :: "handoff_row table \<Rightarrow> ident list" where
  "handed_over t = List.map_filter (\<lambda>h. text_of (map_of (ho_source h) ''pendingAttachmentId'')) (sql_select open_handoff t)"

definition file_view :: "projection_db \<Rightarrow> file_db" where
  \<comment> \<open>the file tables as their operations see them: reservations, handoffs, posts and topics are those of the other tables\<close>
  "file_view pj = (pj_files pj)\<lparr>fd_reserved := map rv_pending (pj_reservations pj), fd_handed_over := handed_over (pj_handoffs pj),
     fd_post_ids := map po_id (fb_posts (pj_forum pj)), fd_topic_ids := map to_id (fb_topics (pj_forum pj))\<rparr>"

section \<open>Inputs\<close>

record handoff_input =
  hi_ref_entry :: string
  hi_kind :: source_kind
  hi_source :: source_ref
  hi_sha256 :: "string option"
  hi_size :: "int option"

definition trim_text :: "string \<Rightarrow> string" where
  "trim_text s = (let space = (\<lambda>c. is_space (word_of_nat (of_char c))) in rev (dropWhile space (rev (dropWhile space s))))"

fun coalesce_refs :: "ref_value option list \<Rightarrow> ref_value option" where
  \<comment> \<open>\<^verbatim>\<open>a ?? b ?? c\<close>\<close>
  "coalesce_refs [] = None"
| "coalesce_refs [v] = v"
| "coalesce_refs (v # vs) = (case v of None \<Rightarrow> coalesce_refs vs | Some Ref_null \<Rightarrow> coalesce_refs vs | Some x \<Rightarrow> Some x)"

definition pendingAttachmentId :: "source_ref \<Rightarrow> ident option" where
  "pendingAttachmentId ref =
    (case text_of (coalesce_refs [map_of ref ''pendingAttachmentId'', map_of ref ''pending_attachment_id'', map_of ref ''id'']) of
       None \<Rightarrow> None | Some t \<Rightarrow> if trim_text t = [] then None else Some (trim_text t))"

fun dedupe_from :: "ident list \<Rightarrow> string list \<Rightarrow> ident list \<Rightarrow> handoff_input list \<Rightarrow> handoff_input list" where
  "dedupe_from structured seenRefs seenPending [] = []"
| "dedupe_from structured seenRefs seenPending (h # hs) =
    (let pendingId = pendingAttachmentId (hi_source h) in
     if hi_ref_entry h \<in> set seenRefs then dedupe_from structured seenRefs seenPending hs
     else case pendingId of
         None \<Rightarrow> h # dedupe_from structured (hi_ref_entry h # seenRefs) seenPending hs
       | Some i \<Rightarrow>
           if hi_kind h \<noteq> Structured_pending \<and> i \<in> set structured then dedupe_from structured seenRefs seenPending hs
           else if i \<in> set seenPending then dedupe_from structured seenRefs seenPending hs
           else h # dedupe_from structured (hi_ref_entry h # seenRefs) (i # seenPending) hs)"

definition structured_ids :: "handoff_input list \<Rightarrow> ident list" where
  "structured_ids hs = List.map_filter (\<lambda>h. pendingAttachmentId (hi_source h)) (filter (\<lambda>h. hi_kind h = Structured_pending) hs)"

definition dedupeAttachmentHandoffs :: "handoff_input list \<Rightarrow> handoff_input list" where
  "dedupeAttachmentHandoffs hs = dedupe_from (structured_ids hs) [] [] hs"

record begin_input =
  bi_pi_session :: ident
  bi_pi_message :: ident
  bi_utterance :: ident
  bi_topic :: ident
  bi_session :: ident
  bi_body :: js_string
  bi_author :: ident
  bi_parent :: "ident option"
  bi_origin :: string
  bi_metadata :: "metadata option"
  bi_completion :: "string option"
  bi_handoffs :: "handoff_input list"

section \<open>Links to agent messages\<close>

definition getPiMessageLink :: "ident \<Rightarrow> ident \<Rightarrow> projection_db \<Rightarrow> link_row option" where
  "getPiMessageLink session message pj = sql_get (\<lambda>l. ml_pi_session l = session \<and> ml_pi_message l = message) (pj_links pj)"

definition or_else :: "'a option \<Rightarrow> 'a option \<Rightarrow> 'a option" where
  "or_else a b = (case a of None \<Rightarrow> b | Some x \<Rightarrow> Some x)"

definition known_post :: "ident option \<Rightarrow> projection_db \<Rightarrow> bool" where
  "known_post i pj = (case i of None \<Rightarrow> True | Some j \<Rightarrow> sql_exists (\<lambda>p. po_id p = j) (fb_posts (pj_forum pj)))"

definition known_message :: "ident option \<Rightarrow> projection_db \<Rightarrow> bool" where
  "known_message i pj = (case i of None \<Rightarrow> True | Some j \<Rightarrow> sql_exists (\<lambda>m. sm_id m = j) (pj_messages pj))"

definition createPiMessageLink ::
  "iso_time \<Rightarrow> ident \<Rightarrow> ident \<Rightarrow> ident \<Rightarrow> ident option \<Rightarrow> ident option \<Rightarrow> string option \<Rightarrow> metadata option \<Rightarrow>
   projection_db \<Rightarrow> store_error + (link_row option \<times> projection_db)" where
  "createPiMessageLink now i session message post sm role meta pj = (case getPiMessageLink session message pj of
     Some existing \<Rightarrow>
       if \<not> known_post (or_else (ml_post existing) post) pj \<or> \<not> known_message (or_else (ml_session_message existing) sm) pj
       then Inl Store_constraint
       else let pj' = pj\<lparr>pj_links := sql_update (\<lambda>l. ml_id l = ml_id existing)
         (\<lambda>l. l\<lparr>ml_post := or_else (ml_post l) post, ml_session_message := or_else (ml_session_message l) sm,
            ml_role := or_else (ml_role l) role,
            ml_metadata := (if ml_post l = None \<and> post \<noteq> None then meta else ml_metadata l)\<rparr>) (pj_links pj)\<rparr>
       in Inr (sql_get (\<lambda>l. ml_id l = ml_id existing) (pj_links pj'), pj')
   | None \<Rightarrow>
       if sql_exists (\<lambda>l. ml_id l = i) (pj_links pj) \<or> \<not> known_post post pj \<or> \<not> known_message sm pj then Inl Store_constraint
       else let pj' = pj\<lparr>pj_links := sql_insert \<lparr>ml_id = i, ml_pi_session = session, ml_pi_message = message, ml_post = post,
              ml_session_message = sm, ml_role = role, ml_imported_at = now, ml_metadata = meta\<rparr> (pj_links pj)\<rparr>
            in Inr (sql_get (\<lambda>l. ml_id l = i) (pj_links pj'), pj'))"

section \<open>Publishing\<close>

definition getAssistantProjection :: "ident \<Rightarrow> ident \<Rightarrow> projection_db \<Rightarrow> projection_row option" where
  "getAssistantProjection session message pj =
    sql_get (\<lambda>p. ap_pi_session p = session \<and> ap_pi_message p = message) (pj_projections pj)"

definition getAssistantProjectionById :: "ident \<Rightarrow> projection_db \<Rightarrow> projection_row option" where
  "getAssistantProjectionById i pj = sql_get (\<lambda>p. ap_id p = i) (pj_projections pj)"

definition listAttachmentHandoffsForProjection :: "ident \<Rightarrow> projection_db \<Rightarrow> handoff_row list" where
  "listAttachmentHandoffsForProjection i pj = sql_select (\<lambda>h. ho_projection h = i) (pj_handoffs pj)"

definition incomplete :: "projection_status \<Rightarrow> bool" where
  "incomplete s \<longleftrightarrow> s = Pj_pending \<or> s = Pj_linking \<or> s = Pj_failed"

definition earlier_rows :: "ident \<Rightarrow> projection_row table \<Rightarrow> projection_row list" where
  \<comment> \<open>the rows with a smaller \<^verbatim>\<open>rowid\<close>: the table is in the order of insertion\<close>
  "earlier_rows i t = takeWhile (\<lambda>p. ap_id p \<noteq> i) t"

definition earlierIncomplete :: "projection_row \<Rightarrow> projection_db \<Rightarrow> bool" where
  "earlierIncomplete p pj = sql_exists (\<lambda>e. ap_pi_session e = ap_pi_session p \<and> ap_topic e = ap_topic p \<and> incomplete (ap_status e))
     (earlier_rows (ap_id p) (pj_projections pj))"

definition reservation_of :: "ident \<Rightarrow> projection_db \<Rightarrow> ident option" where
  "reservation_of i pj = map_option rv_projection (sql_get (\<lambda>r. rv_pending r = i) (pj_reservations pj))"

datatype publish_error = Lost_custody ident | Foreign_custody ident | Publish_store store_error

definition pending_of :: "handoff_row \<Rightarrow> file_db \<Rightarrow> pending_attachment_row option" where
  "pending_of h files = (case text_of (map_of (ho_source h) ''pendingAttachmentId'') of
     None \<Rightarrow> None | Some i \<Rightarrow> if i = [] then None else getPendingAttachment i files)"

definition projected_attachment :: "ident \<Rightarrow> pending_attachment_row \<Rightarrow> create_attachment_input" where
  "projected_attachment post q = \<lparr>ca_post = post, ca_filename = pa_filename q, ca_mime = pa_mime q, ca_size = pa_size q, ca_path = pa_path q,
     ca_sha256 = pa_sha256 q, ca_owner = None, ca_dedupe_by_path = False, ca_max_owner_bytes = None\<rparr>"

fun attach_all ::
  "iso_time \<Rightarrow> uuid_stream \<Rightarrow> ident \<Rightarrow> ident \<Rightarrow> projection_db \<Rightarrow> handoff_row list \<Rightarrow> file_db \<Rightarrow> publish_error + (ident list \<times> file_db)" where
  "attach_all now u post i pj [] files = Inr ([], files)"
| "attach_all now u post i pj (h # hs) files = (case pending_of h files of
     None \<Rightarrow> Inl (Lost_custody (ho_id h))
   | Some q \<Rightarrow>
       if reservation_of (pa_id q) pj \<noteq> Some i then Inl (Foreign_custody (ho_id h))
       else (case createAttachment now u (projected_attachment post q) files of
           Inl e \<Rightarrow> Inl (Publish_store e)
         | Inr (_, files') \<Rightarrow> (case attach_all now (uuid_shift 3 u) post i pj hs files' of
             Inl e \<Rightarrow> Inl e | Inr (ids, files'') \<Rightarrow> Inr (pa_id q # ids, files''))))"

definition insert_projected_post :: "iso_time \<Rightarrow> ident \<Rightarrow> projection_row \<Rightarrow> projection_db \<Rightarrow> store_error + projection_db" where
  "insert_projected_post now post p pj =
    (if known_post (Some post) pj \<or> \<not> topic_exists (ap_topic p) (pj_forum pj) then Inl Store_constraint
     else Inr (pj\<lparr>pj_forum := (pj_forum pj)\<lparr>fb_posts := sql_insert ((new_post post (ap_topic p) (pl_parent (ap_payload p)) (pl_author (ap_payload p))
       (pl_body (ap_payload p)) (ap_session_message p) False now)\<lparr>po_follow_up := pl_follow_up (ap_payload p)\<rparr>) (fb_posts (pj_forum pj))\<rparr>\<rparr>))"

definition projected_post :: "iso_time \<Rightarrow> ident \<Rightarrow> projection_row \<Rightarrow> projection_db \<Rightarrow> store_error + (ident \<times> projection_db)" where
  \<comment> \<open>the post of the projection: a new one, or the one it was linked to\<close>
  "projected_post now i p pj = (case ap_post p of
     None \<Rightarrow> (case insert_projected_post now i p pj of Inl e \<Rightarrow> Inl e | Inr pj' \<Rightarrow> Inr (i, pj'))
   | Some post \<Rightarrow> Inr (post, if pl_follow_up (ap_payload p)
       then pj\<lparr>pj_forum := (pj_forum pj)\<lparr>fb_posts := sql_update (\<lambda>q. po_id q = post) (\<lambda>q. q\<lparr>po_follow_up := True\<rparr>) (fb_posts (pj_forum pj))\<rparr>\<rparr>
       else pj))"

definition update_projection :: "ident \<Rightarrow> (projection_row \<Rightarrow> projection_row) \<Rightarrow> projection_db \<Rightarrow> projection_db" where
  "update_projection i f pj = pj\<lparr>pj_projections := sql_update (\<lambda>p. ap_id p = i) f (pj_projections pj)\<rparr>"

definition publish :: "iso_time \<Rightarrow> uuid_stream \<Rightarrow> projection_row \<Rightarrow> projection_db \<Rightarrow> publish_error + projection_db" where
  "publish now u p pj = (case projected_post now (u 0) p pj of
     Inl e \<Rightarrow> Inl (Publish_store e)
   | Inr (post, pj1) \<Rightarrow>
       (case attach_all now (uuid_shift 2 u) post (ap_id p) pj1 (listAttachmentHandoffsForProjection (ap_id p) pj1) (file_view pj1) of
          Inl e \<Rightarrow> Inl e
        | Inr (ids, files) \<Rightarrow>
            let pj2 = pj1\<lparr>pj_files := files\<lparr>fd_pendings := sql_delete (\<lambda>q. pa_id q \<in> set ids) (fd_pendings files)\<rparr>\<rparr> in
            (case createPiMessageLink now (u 1) (ap_pi_session p) (ap_pi_message p) (Some post) (ap_session_message p)
                (Some ''assistant'') (pl_metadata (ap_payload p)) pj2 of
               Inl e \<Rightarrow> Inl (Publish_store e)
             | Inr (_, pj3) \<Rightarrow> Inr (update_projection (ap_id p) (\<lambda>q. q\<lparr>ap_post := Some post, ap_status := Pj_projected, ap_error := None,
                 ap_completion_state := (if ap_completion q = None then Completion_none else Completion_pending),
                 ap_completion_token := None, ap_updated_at := now\<rparr>) pj3))))"

definition finalizeAssistantProjection ::
  "iso_time \<Rightarrow> uuid_stream \<Rightarrow> ident \<Rightarrow> projection_db \<Rightarrow> publish_error + (projection_row option \<times> projection_db)" where
  "finalizeAssistantProjection now u i pj = (case getAssistantProjectionById i pj of
     None \<Rightarrow> Inr (None, pj)
   | Some p \<Rightarrow>
       if ap_status p = Pj_projected then Inr (Some p, pj)
       else if earlierIncomplete p pj then Inr (Some p, pj)
       else if sql_count (\<lambda>h. ho_projection h = i \<and> ho_status h \<noteq> Ho_linked) (pj_handoffs pj) > 0 then Inr (Some p, pj)
       else (case publish now u p pj of Inl e \<Rightarrow> Inl e | Inr pj' \<Rightarrow> Inr (getAssistantProjectionById i pj', pj')))"

section \<open>Beginning\<close>

fun insert_handoffs :: "iso_time \<Rightarrow> uuid_stream \<Rightarrow> ident \<Rightarrow> handoff_input list \<Rightarrow> handoff_row table \<Rightarrow> handoff_row table" where
  \<comment> \<open>\<^verbatim>\<open>insert or ignore\<close>\<close>
  "insert_handoffs now u i [] t = t"
| "insert_handoffs now u i (h # hs) t = insert_handoffs now (uuid_shift 1 u) i hs
    (if sql_exists (\<lambda>x. ho_id x = u 0 \<or> ho_projection x = i \<and> ho_ref_entry x = hi_ref_entry h) t then t
     else sql_insert \<lparr>ho_id = u 0, ho_projection = i, ho_ref_entry = hi_ref_entry h, ho_kind = hi_kind h, ho_source = hi_source h,
       ho_sha256 = hi_sha256 h, ho_size = hi_size h, ho_status = Ho_pending, ho_attempt_count = 0, ho_claim_token = None,
       ho_next_attempt_at = None, ho_error = None, ho_created_at = now, ho_updated_at = now\<rparr> t)"

definition is_follow_up :: "metadata option \<Rightarrow> bool" where
  "is_follow_up m = (case m of None \<Rightarrow> False | Some x \<Rightarrow> md_source_kind x = Some (Ref_text ''subagent-completion''))"

definition linked_post :: "link_row option \<Rightarrow> ident \<Rightarrow> projection_db \<Rightarrow> ident option" where
  "linked_post l topic pj = (case l of None \<Rightarrow> None | Some x \<Rightarrow> (case ml_post x of None \<Rightarrow> None
     | Some i \<Rightarrow> map_option po_id (sql_get (\<lambda>p. po_id p = i \<and> po_topic p = topic) (fb_posts (pj_forum pj)))))"

definition linked_message :: "link_row option \<Rightarrow> projection_db \<Rightarrow> ident option" where
  "linked_message l pj = (case l of None \<Rightarrow> None | Some x \<Rightarrow> (case ml_session_message x of None \<Rightarrow> None
     | Some i \<Rightarrow> map_option sm_id (sql_get (\<lambda>m. sm_id m = i) (pj_messages pj))))"

definition ensure_message :: "iso_time \<Rightarrow> ident \<Rightarrow> begin_input \<Rightarrow> ident option \<Rightarrow> projection_db \<Rightarrow> store_error + (ident \<times> projection_db)" where
  "ensure_message now i input known pj = (case known of
     Some j \<Rightarrow> Inr (j, pj)
   | None \<Rightarrow> if sql_exists (\<lambda>m. sm_id m = i) (pj_messages pj) \<or> bi_session input \<notin> fst ` set (pj_sessions pj) then Inl Store_constraint
       else Inr (i, pj\<lparr>pj_messages := sql_insert \<lparr>sm_id = i, sm_session = bi_session input, sm_role = ''assistant'', sm_content = bi_body input,
         sm_created_at = now\<rparr> (pj_messages pj)\<rparr>))"

definition new_projection :: "iso_time \<Rightarrow> ident \<Rightarrow> begin_input \<Rightarrow> bool \<Rightarrow> ident option \<Rightarrow> ident \<Rightarrow> projection_row" where
  "new_projection now i input linking post message = \<lparr>ap_id = i, ap_pi_session = bi_pi_session input, ap_pi_message = bi_pi_message input,
     ap_utterance = bi_utterance input, ap_topic = bi_topic input, ap_post = post, ap_session_message = Some message,
     ap_status = (if linking then Pj_linking else Pj_pending), ap_origin = bi_origin input,
     ap_payload = \<lparr>pl_session = bi_session input, pl_body = bi_body input, pl_author = bi_author input, pl_parent = bi_parent input,
       pl_metadata = bi_metadata input, pl_follow_up = is_follow_up (bi_metadata input)\<rparr>,
     ap_completion = bi_completion input, ap_completion_state = Completion_none, ap_completion_token = None, ap_error = None,
     ap_created_at = now, ap_updated_at = now\<rparr>"

definition begin_row :: "iso_time \<Rightarrow> uuid_stream \<Rightarrow> begin_input \<Rightarrow> handoff_input list \<Rightarrow> projection_db \<Rightarrow> store_error + (ident \<times> projection_db)" where
  \<comment> \<open>the transaction that finds or inserts the projection\<close>
  "begin_row now u input handoffs pj = (case getAssistantProjection (bi_pi_session input) (bi_pi_message input) pj of
     Some existing \<Rightarrow> Inr (ap_id existing, if bi_completion input \<noteq> None \<and> ap_completion existing = None
       then update_projection (ap_id existing) (\<lambda>p. p\<lparr>ap_completion := bi_completion input,
         ap_completion_state := (if ap_status p = Pj_projected then Completion_pending else ap_completion_state p), ap_updated_at := now\<rparr>) pj
       else pj)
   | None \<Rightarrow>
       let link = getPiMessageLink (bi_pi_session input) (bi_pi_message input) pj in
       (case ensure_message now (u 1) input (linked_message link pj) pj of
          Inl e \<Rightarrow> Inl e
        | Inr (message, pj1) \<Rightarrow>
            if sql_exists (\<lambda>p. ap_id p = u 0) (pj_projections pj1) \<or> \<not> topic_exists (bi_topic input) (pj_forum pj1) then Inl Store_constraint
            else Inr (u 0, pj1\<lparr>pj_projections := sql_insert (new_projection now (u 0) input (handoffs \<noteq> [])
                   (linked_post link (bi_topic input) pj) message) (pj_projections pj1),
                 pj_handoffs := insert_handoffs now (uuid_shift 2 u) (u 0) handoffs (pj_handoffs pj1)\<rparr>)))"

definition beginAssistantProjection ::
  "iso_time \<Rightarrow> uuid_stream \<Rightarrow> uuid_stream \<Rightarrow> begin_input \<Rightarrow> projection_db \<Rightarrow> (publish_error + projection_row option) \<times> projection_db" where
  \<comment> \<open>without handoffs the projection is published at once; a failure there leaves the projection in place\<close>
  "beginAssistantProjection now u v input pj =
    (let handoffs = dedupeAttachmentHandoffs (bi_handoffs input) in
     case begin_row now u input handoffs pj of
       Inl e \<Rightarrow> (Inl (Publish_store e), pj)
     | Inr (i, pj1) \<Rightarrow>
         if handoffs \<noteq> [] then (Inr (getAssistantProjectionById i pj1), pj1)
         else (case finalizeAssistantProjection now v i pj1 of
             Inl e \<Rightarrow> (Inl e, pj1)
           | Inr (r, pj2) \<Rightarrow> (Inr (or_else r (getAssistantProjectionById i pj1)), pj2)))"

section \<open>Handoffs\<close>

definition getHandoff :: "ident \<Rightarrow> projection_db \<Rightarrow> handoff_row option" where
  "getHandoff i pj = sql_get (\<lambda>h. ho_id h = i) (pj_handoffs pj)"

definition update_handoff :: "ident \<Rightarrow> (handoff_row \<Rightarrow> handoff_row) \<Rightarrow> projection_db \<Rightarrow> projection_db" where
  "update_handoff i f pj = pj\<lparr>pj_handoffs := sql_update (\<lambda>h. ho_id h = i) f (pj_handoffs pj)\<rparr>"

definition claimable :: "iso_time \<Rightarrow> handoff_row \<Rightarrow> bool" where
  "claimable now h \<longleftrightarrow> (ho_status h = Ho_pending \<or> ho_status h = Ho_failed)
     \<and> (case ho_next_attempt_at h of None \<Rightarrow> True | Some t \<Rightarrow> t \<le> now)"

definition row_position :: "('a \<Rightarrow> bool) \<Rightarrow> 'a table \<Rightarrow> nat" where
  "row_position p t = length (takeWhile (\<lambda>r. \<not> p r) t)"

definition listDueAttachmentHandoffs :: "iso_time \<Rightarrow> nat \<Rightarrow> projection_db \<Rightarrow> handoff_row list" where
  "listDueAttachmentHandoffs now n pj = take n (sql_order_by (\<lambda>h. row_position (\<lambda>p. ap_id p = ho_projection h) (pj_projections pj))
     (sql_select (\<lambda>h. claimable now h \<and> sql_exists (\<lambda>p. ap_id p = ho_projection h) (pj_projections pj)) (pj_handoffs pj)))"

definition stale_handoff :: "iso_time \<Rightarrow> ident list \<Rightarrow> handoff_row \<Rightarrow> bool" where
  "stale_handoff before excluded h \<longleftrightarrow> ho_status h = Ho_linking \<and> ho_updated_at h \<le> before
     \<and> (case ho_claim_token h of None \<Rightarrow> True | Some t \<Rightarrow> t \<notin> set excluded)"

definition reclaimStaleAttachmentHandoffs :: "iso_time \<Rightarrow> iso_time \<Rightarrow> ident list \<Rightarrow> projection_db \<Rightarrow> nat \<times> projection_db" where
  "reclaimStaleAttachmentHandoffs now before excluded pj =
    (sql_count (stale_handoff before excluded) (pj_handoffs pj),
     pj\<lparr>pj_handoffs := sql_update (stale_handoff before excluded) (\<lambda>h. h\<lparr>ho_status := Ho_failed, ho_claim_token := None,
       ho_next_attempt_at := None, ho_error := Some (case ho_error h of None \<Rightarrow> lit ''Recovered stale linking lease.'' | Some e \<Rightarrow> e),
       ho_updated_at := now\<rparr>) (pj_handoffs pj)\<rparr>)"

definition reservePendingAttachment ::
  "iso_time \<Rightarrow> handoff_row \<Rightarrow> pending_attachment_row \<Rightarrow> projection_db \<Rightarrow> ident \<times> projection_db" where
  \<comment> \<open>the foreign keys hold: the projection and its topic exist\<close>
  "reservePendingAttachment now h q pj = (case getAssistantProjectionById (ho_projection h) pj of
     None \<Rightarrow> ([], pj)
   | Some p \<Rightarrow>
       if ap_topic p \<noteq> pa_topic q then ([], pj)
       else let pj' = (if sql_exists (\<lambda>r. rv_pending r = pa_id q) (pj_reservations pj) then pj
              else pj\<lparr>pj_reservations := sql_insert \<lparr>rv_pending = pa_id q, rv_topic = pa_topic q, rv_projection = ho_projection h,
                rv_handoff = ho_id h, rv_created_at = now\<rparr> (pj_reservations pj)\<rparr>)
            in (case reservation_of (pa_id q) pj' of None \<Rightarrow> [] | Some i \<Rightarrow> i, pj'))"

definition record_anomaly ::
  "iso_time \<Rightarrow> ident \<Rightarrow> projection_row \<Rightarrow> string \<Rightarrow> js_string \<Rightarrow> ident \<Rightarrow> projection_db \<Rightarrow> store_error + projection_db" where
  "record_anomaly now i p why message handoff pj = (case sql_get (\<lambda>s. snd s = ap_topic p) (pj_sessions pj) of
     None \<Rightarrow> Inl Store_constraint
   | Some (session, _) \<Rightarrow>
       let same = (\<lambda>a. an_pi_session a = ap_pi_session p \<and> an_pi_message a = ap_pi_message p \<and> an_reason a = why) in
       if sql_exists same (pj_anomalies pj)
       then Inr (pj\<lparr>pj_anomalies := sql_update same (\<lambda>a. a\<lparr>an_status := ''needs_manual_review'', an_last_seen := now,
         an_preview := js_slice 500 message, an_post := ap_post p, an_handoff := handoff\<rparr>) (pj_anomalies pj)\<rparr>)
       else if sql_exists (\<lambda>a. an_id a = i) (pj_anomalies pj) then Inl Store_constraint
       else Inr (pj\<lparr>pj_anomalies := sql_insert \<lparr>an_id = i, an_pi_session = ap_pi_session p, an_pi_message = ap_pi_message p,
         an_topic = ap_topic p, an_session = session, an_status = ''needs_manual_review'', an_reason = why,
         an_preview = js_slice 500 message, an_first_seen = now, an_last_seen = now, an_post = ap_post p, an_handoff = handoff\<rparr> (pj_anomalies pj)\<rparr>))"

definition conflict_message :: "ident \<Rightarrow> js_string" where
  "conflict_message owner = lit (''Pending attachment is already reserved by assistant projection '' @ owner @ ''.'')"

definition set_handoff_status :: "iso_time \<Rightarrow> handoff_status \<Rightarrow> iso_time option \<Rightarrow> js_string \<Rightarrow> ident \<Rightarrow> projection_db \<Rightarrow> projection_db" where
  "set_handoff_status now status next message i pj = update_handoff i (\<lambda>h. h\<lparr>ho_status := status, ho_claim_token := None,
     ho_next_attempt_at := next, ho_error := Some (js_slice 1000 message), ho_updated_at := now\<rparr>) pj"

definition set_projection_status :: "iso_time \<Rightarrow> projection_status \<Rightarrow> js_string \<Rightarrow> ident \<Rightarrow> projection_db \<Rightarrow> projection_db" where
  "set_projection_status now status message i pj = update_projection i (\<lambda>p. p\<lparr>ap_status := status,
     ap_error := Some (js_slice 1000 message), ap_updated_at := now\<rparr>) pj"

definition markAttachmentReservationConflict ::
  "iso_time \<Rightarrow> ident \<Rightarrow> handoff_row \<Rightarrow> ident \<Rightarrow> projection_db \<Rightarrow> store_error + (handoff_row option \<times> projection_db)" where
  "markAttachmentReservationConflict now i h owner pj = (case getAssistantProjectionById (ho_projection h) pj of
     None \<Rightarrow> Inr (Some h, pj)
   | Some p \<Rightarrow>
       let pj1 = set_projection_status now Pj_needs_manual_review (conflict_message owner) (ap_id p)
                   (set_handoff_status now Ho_needs_manual_review None (conflict_message owner) (ho_id h) pj) in
       (case record_anomaly now i p ''attachment-handoff-conflict'' (conflict_message owner) (ho_id h) pj1 of
          Inl e \<Rightarrow> Inl e | Inr pj2 \<Rightarrow> Inr (getHandoff (ho_id h) pj2, pj2)))"

definition reserve_for_claim ::
  "iso_time \<Rightarrow> ident \<Rightarrow> handoff_row \<Rightarrow> projection_db \<Rightarrow> store_error + (handoff_row option \<times> projection_db)" where
  "reserve_for_claim now i h pj = (case (if ho_kind h = Legacy_artifact then None else pendingAttachmentId (ho_source h)) of
     None \<Rightarrow> Inr (Some h, pj)
   | Some pendingId \<Rightarrow>
       let (owner, pj1) = (case getPendingAttachment pendingId (pj_files pj) of
             Some q \<Rightarrow> reservePendingAttachment now h q pj
           | None \<Rightarrow> (case reservation_of pendingId pj of None \<Rightarrow> [] | Some x \<Rightarrow> x, pj))
       in if owner \<noteq> [] \<and> owner \<noteq> ho_projection h then markAttachmentReservationConflict now i h owner pj1 else Inr (Some h, pj1))"

definition claimAttachmentHandoff ::
  "iso_time \<Rightarrow> ident \<Rightarrow> ident \<Rightarrow> ident \<Rightarrow> projection_db \<Rightarrow> store_error + (handoff_row option \<times> projection_db)" where
  "claimAttachmentHandoff now token anomaly i pj =
    (if sql_count (\<lambda>h. ho_id h = i \<and> claimable now h) (pj_handoffs pj) \<noteq> 1 then Inr (None, pj)
     else let pj1 = update_handoff i (\<lambda>h. h\<lparr>ho_status := Ho_linking, ho_claim_token := Some token, ho_attempt_count := ho_attempt_count h + 1,
                ho_next_attempt_at := None, ho_error := None, ho_updated_at := now\<rparr>) pj
          in (case getHandoff i pj1 of None \<Rightarrow> Inr (None, pj1) | Some h \<Rightarrow> reserve_for_claim now anomaly h pj1))"

definition claimed_handoff :: "ident \<Rightarrow> ident \<Rightarrow> projection_db \<Rightarrow> handoff_row option" where
  "claimed_handoff i token pj = sql_get (\<lambda>h. ho_id h = i \<and> ho_status h = Ho_linking \<and> ho_claim_token h = Some token) (pj_handoffs pj)"

definition completeAttachmentHandoff ::
  "iso_time \<Rightarrow> ident \<Rightarrow> ident \<Rightarrow> ident \<Rightarrow> pending_attachment_row \<Rightarrow> projection_db \<Rightarrow> store_error + (handoff_row option \<times> projection_db)" where
  "completeAttachmentHandoff now anomaly i token q pj = (case claimed_handoff i token pj of
     None \<Rightarrow> Inr (None, pj)
   | Some h \<Rightarrow>
       (case reservePendingAttachment now h q pj of (owner, pj1) \<Rightarrow>
          if owner \<noteq> ho_projection h
          then markAttachmentReservationConflict now anomaly h (if owner = [] then ''unknown'' else owner) pj1
          else let pj2 = update_handoff i (\<lambda>x. x\<lparr>ho_status := Ho_linked, ho_claim_token := None, ho_next_attempt_at := None, ho_error := None,
                   ho_source := map_set ''pendingAttachmentId'' (Ref_text (pa_id q)) (ho_source h), ho_updated_at := now\<rparr>) pj1
               in Inr (getHandoff i pj2, pj2)))"

definition failAttachmentHandoff ::
  "iso_time \<Rightarrow> ident \<Rightarrow> ident \<Rightarrow> ident \<Rightarrow> js_string \<Rightarrow> iso_time option \<Rightarrow> bool \<Rightarrow> projection_db \<Rightarrow> store_error + (handoff_row option \<times> projection_db)" where
  \<comment> \<open>the projection exists, as the handoff references it\<close>
  "failAttachmentHandoff now anomaly i token message retryAt terminal pj = (case claimed_handoff i token pj of
     None \<Rightarrow> Inr (None, pj)
   | Some h \<Rightarrow>
       let pj1 = set_projection_status now (if terminal then Pj_needs_manual_review else Pj_failed) message (ho_projection h)
             (set_handoff_status now (if terminal then Ho_needs_manual_review else Ho_failed) retryAt message i pj) in
       (case (if terminal then (case getAssistantProjectionById (ho_projection h) pj of
                  None \<Rightarrow> Inr pj1 | Some p \<Rightarrow> record_anomaly now anomaly p ''attachment-handoff-terminal'' message i pj1) else Inr pj1) of
          Inl e \<Rightarrow> Inl e | Inr pj2 \<Rightarrow> Inr (getHandoff i pj2, pj2)))"

section \<open>Completions\<close>

definition listIncompleteAssistantProjections :: "projection_db \<Rightarrow> projection_row list" where
  "listIncompleteAssistantProjections pj = sql_select (\<lambda>p. incomplete (ap_status p)) (pj_projections pj)"

definition stale_completion :: "iso_time \<Rightarrow> ident list \<Rightarrow> projection_row \<Rightarrow> bool" where
  "stale_completion before excluded p \<longleftrightarrow> ap_completion_state p = Completion_claimed \<and> ap_updated_at p \<le> before
     \<and> (case ap_completion_token p of None \<Rightarrow> True | Some t \<Rightarrow> t \<notin> set excluded)"

definition reclaimStaleAssistantProjectionCompletions :: "iso_time \<Rightarrow> iso_time \<Rightarrow> ident list \<Rightarrow> projection_db \<Rightarrow> nat \<times> projection_db" where
  "reclaimStaleAssistantProjectionCompletions now before excluded pj =
    (sql_count (stale_completion before excluded) (pj_projections pj),
     pj\<lparr>pj_projections := sql_update (stale_completion before excluded)
       (\<lambda>p. p\<lparr>ap_completion_state := Completion_pending, ap_completion_token := None, ap_updated_at := now\<rparr>) (pj_projections pj)\<rparr>)"

definition completion_open :: "projection_row \<Rightarrow> bool" where
  "completion_open e \<longleftrightarrow> ap_status e = Pj_projected \<and> (ap_completion_state e = Completion_pending \<or> ap_completion_state e = Completion_claimed)"

definition may_claim_completion :: "projection_db \<Rightarrow> projection_row \<Rightarrow> bool" where
  "may_claim_completion pj p \<longleftrightarrow> ap_status p = Pj_projected \<and> ap_completion_state p = Completion_pending
     \<and> \<not> sql_exists (\<lambda>e. ap_pi_session e = ap_pi_session p \<and> ap_topic e = ap_topic p \<and> completion_open e)
          (earlier_rows (ap_id p) (pj_projections pj))"

definition claimAssistantProjectionCompletion :: "iso_time \<Rightarrow> ident \<Rightarrow> ident \<Rightarrow> projection_db \<Rightarrow> projection_row option \<times> projection_db" where
  "claimAssistantProjectionCompletion now token i pj =
    (let hit = (\<lambda>p. ap_id p = i \<and> may_claim_completion pj p);
         pj' = pj\<lparr>pj_projections := sql_update hit (\<lambda>p. p\<lparr>ap_completion_state := Completion_claimed, ap_completion_token := Some token,
           ap_updated_at := now\<rparr>) (pj_projections pj)\<rparr>
     in (if sql_count hit (pj_projections pj) \<noteq> 1 then None else getAssistantProjectionById i pj', pj'))"

definition finish_completion :: "iso_time \<Rightarrow> completion_state \<Rightarrow> ident \<Rightarrow> ident \<Rightarrow> projection_db \<Rightarrow> nat \<times> projection_db" where
  "finish_completion now state i token pj =
    (let hit = (\<lambda>p. ap_id p = i \<and> ap_completion_state p = Completion_claimed \<and> ap_completion_token p = Some token) in
     (sql_count hit (pj_projections pj), pj\<lparr>pj_projections := sql_update hit
       (\<lambda>p. p\<lparr>ap_completion_state := state, ap_completion_token := None, ap_updated_at := now\<rparr>) (pj_projections pj)\<rparr>))"

definition completeAssistantProjectionCompletion :: "iso_time \<Rightarrow> ident \<Rightarrow> ident \<Rightarrow> projection_db \<Rightarrow> bool \<times> projection_db" where
  "completeAssistantProjectionCompletion now i token pj = (case finish_completion now Completion_none i token pj of (n, pj') \<Rightarrow> (n = 1, pj'))"

definition releaseAssistantProjectionCompletion :: "iso_time \<Rightarrow> ident \<Rightarrow> ident \<Rightarrow> projection_db \<Rightarrow> projection_db" where
  "releaseAssistantProjectionCompletion now i token pj = snd (finish_completion now Completion_pending i token pj)"

definition listPendingAssistantProjectionCompletions :: "projection_db \<Rightarrow> projection_row list" where
  "listPendingAssistantProjectionCompletions pj =
    sql_select (\<lambda>p. ap_status p = Pj_projected \<and> ap_completion_state p = Completion_pending) (pj_projections pj)"

section \<open>The handoff service\<close>

definition RETRY_MS :: "int list" where
  "RETRY_MS = [10000, 30000, 120000, 300000]"

definition retry_delay :: "nat \<Rightarrow> int" where
  "retry_delay attempts = RETRY_MS ! min (attempts - 1) (length RETRY_MS - 1)"

record read_result =
  rr_length :: int
  rr_hash :: string

definition service_text :: "ref_value option \<Rightarrow> ident option" where
  \<comment> \<open>the helper \<^verbatim>\<open>string\<close>\<close>
  "service_text v = (case text_of v of None \<Rightarrow> None | Some t \<Rightarrow> if trim_text t = [] then None else Some (trim_text t))"

definition service_pending_id :: "source_ref \<Rightarrow> ident option" where
  "service_pending_id ref = service_text (coalesce_refs [map_of ref ''pendingAttachmentId'', map_of ref ''pending_attachment_id'', map_of ref ''id''])"

definition find_source ::
  "(js_string + pending_attachment_row) \<Rightarrow> handoff_row \<Rightarrow> projection_db \<Rightarrow> js_string + pending_attachment_row" where
  \<comment> \<open>\<open>staged\<close> is the outcome of staging a legacy artifact\<close>
  "find_source staged h pj = (if ho_kind h = Legacy_artifact then staged
     else case service_pending_id (ho_source h) of
         None \<Rightarrow> Inl (lit ''terminal: pending attachment reference is malformed'')
       | Some i \<Rightarrow> (case getPendingAttachment i (pj_files pj) of
           None \<Rightarrow> Inl (lit ''terminal: pending attachment source is missing'') | Some q \<Rightarrow> Inr q))"

definition check_source ::
  "int \<Rightarrow> int \<Rightarrow> (string \<Rightarrow> (js_string + read_result) option) \<Rightarrow> handoff_row \<Rightarrow> projection_row \<Rightarrow> pending_attachment_row \<Rightarrow> js_string + string" where
  \<comment> \<open>\<open>read\<close> opens a path without following links: \<open>None\<close> where nothing exists, \<open>Inl\<close> the error of the attempt\<close>
  "check_source clock limit read h p q =
    (if pa_topic q \<noteq> ap_topic p then Inl (lit ''terminal: attachment topic does not match projection'')
     else if pa_expires_at q \<le> clock then Inl (lit ''terminal: pending attachment has expired'')
     else if pa_size q \<le> 0 \<or> pa_size q > limit then Inl (lit ''terminal: attachment size is outside configured limits'')
     else case read (pa_path q) of
         None \<Rightarrow> Inl (lit ''terminal: pending attachment bytes are missing'')
       | Some (Inl e) \<Rightarrow> Inl e
       | Some (Inr r) \<Rightarrow>
           if rr_length r \<noteq> pa_size q \<or> (case ho_size h of None \<Rightarrow> False | Some n \<Rightarrow> rr_length r \<noteq> n)
           then Inl (lit ''terminal: attachment size mismatch'')
           else (case or_else (ho_sha256 h) (pa_sha256 q) of
               None \<Rightarrow> Inl (lit ''terminal: attachment SHA-256 mismatch'')
             | Some x \<Rightarrow> if x = [] \<or> rr_hash r \<noteq> x then Inl (lit ''terminal: attachment SHA-256 mismatch'') else Inr (rr_hash r)))"

definition verified_source where
  "verified_source clock limit read staged h pj = (case getAssistantProjectionById (ho_projection h) pj of
     None \<Rightarrow> Inl (lit ''terminal: assistant projection is missing'')
   | Some p \<Rightarrow> (case find_source staged h pj of
       Inl e \<Rightarrow> Inl e
     | Inr q \<Rightarrow> (case check_source clock limit read h p q of Inl e \<Rightarrow> Inl e | Inr hash \<Rightarrow> Inr (q\<lparr>pa_sha256 := Some hash\<rparr>))))"

definition process_claim ::
  "int \<Rightarrow> int \<Rightarrow> (string \<Rightarrow> (js_string + read_result) option) \<Rightarrow> ident \<Rightarrow> (js_string + pending_attachment_row) \<Rightarrow> (store_error \<Rightarrow> js_string) \<Rightarrow>
   handoff_row \<Rightarrow> projection_db \<Rightarrow> store_error + projection_db" where
  \<comment> \<open>a claimed handoff, after the wait for a legacy artifact\<close>
  "process_claim clock limit read anomaly staged shown h pj = (case ho_claim_token h of
     None \<Rightarrow> Inr pj
   | Some token \<Rightarrow>
       (case (case verified_source clock limit read staged h pj of
                Inl e \<Rightarrow> Inl e
              | Inr q \<Rightarrow> (case completeAttachmentHandoff clock anomaly (ho_id h) token q pj of Inl e \<Rightarrow> Inl (shown e) | Inr (_, pj') \<Rightarrow> Inr pj')) of
          Inr pj' \<Rightarrow> Inr pj'
        | Inl message \<Rightarrow>
            let terminal = (take 9 message = lit ''terminal:'' \<or> ho_attempt_count h \<ge> length RETRY_MS + 1) in
            (case failAttachmentHandoff clock anomaly (ho_id h) token message
                 (if terminal then None else Some (clock + retry_delay (ho_attempt_count h))) terminal pj of
               Inl e \<Rightarrow> Inl e | Inr (_, pj') \<Rightarrow> Inr pj')))"

fun finalizeReadyProjections :: "iso_time \<Rightarrow> uuid_stream \<Rightarrow> ident list \<Rightarrow> projection_db \<Rightarrow> bool \<times> projection_db" where
  \<comment> \<open>over the projections listed at the start; an error ends the drain\<close>
  "finalizeReadyProjections now u [] pj = (True, pj)"
| "finalizeReadyProjections now u (i # is) pj = (case finalizeAssistantProjection now u i pj of
     Inl _ \<Rightarrow> (False, pj)
   | Inr (_, pj') \<Rightarrow> finalizeReadyProjections now (uuid_shift (3 + 3 * length (pj_handoffs pj)) u) is pj')"

end
