(* ===== verification/Projection_Laws.thy ===== *)
theory Projection_Laws
  imports Projections File_Laws
begin

text \<open>
  What the projection of agent answers guarantees. An abstract machine of elementary changes carries the
  invariant; every operation of the store and of the handoff service is a run of it.
\<close>

section \<open>The abstract machine\<close>

definition same_projection :: "projection_row \<Rightarrow> projection_row \<Rightarrow> bool" where
  "same_projection p q \<longleftrightarrow> ap_id q = ap_id p \<and> ap_pi_session q = ap_pi_session p \<and> ap_topic q = ap_topic p"

definition busy :: "handoff_status \<Rightarrow> bool" where
  "busy s \<longleftrightarrow> s = Ho_pending \<or> s = Ho_failed \<or> s = Ho_linking"

definition reserved_kept :: "projection_db \<Rightarrow> ident option \<Rightarrow> projection_db \<Rightarrow> bool" where
  \<comment> \<open>waiting uploads in custody stay, but for those of one projection\<close>
  "reserved_kept pj x pj' \<longleftrightarrow> (\<forall>q \<in> set (fd_pendings (pj_files pj)).
     \<forall>i. reservation_of (pa_id q) pj = Some i \<longrightarrow> Some i \<noteq> x \<longrightarrow> q \<in> set (fd_pendings (pj_files pj')))"

inductive pj_change :: "projection_db \<Rightarrow> projection_db \<Rightarrow> bool" where
  other: "pj_projections pj' = pj_projections pj \<Longrightarrow> pj_handoffs pj' = pj_handoffs pj \<Longrightarrow> pj_reservations pj' = pj_reservations pj \<Longrightarrow>
    reserved_kept pj None pj' \<Longrightarrow> pj_change pj pj'"
| annotate: "(\<And>p. same_projection p (f p) \<and> ap_status (f p) = ap_status p \<and> ap_post (f p) = ap_post p) \<Longrightarrow>
    pj_change pj (pj\<lparr>pj_projections := sql_update hit f (pj_projections pj)\<rparr>)"
| start: "ap_id row \<noteq> [] \<Longrightarrow> (\<And>p. p \<in> set (pj_projections pj) \<Longrightarrow> ap_id p \<noteq> ap_id row) \<Longrightarrow> incomplete (ap_status row) \<Longrightarrow>
    (\<And>h. h \<in> set hs \<Longrightarrow> ho_projection h = ap_id row \<and> ho_status h = Ho_pending) \<Longrightarrow> unique_key ho_id (pj_handoffs pj @ hs) \<Longrightarrow>
    pj_change pj (pj\<lparr>pj_projections := sql_insert row (pj_projections pj), pj_handoffs := pj_handoffs pj @ hs\<rparr>)"
| reserve: "(\<And>r. r \<in> set (pj_reservations pj) \<Longrightarrow> rv_pending r \<noteq> rv_pending row) \<Longrightarrow>
    pj_change pj (pj\<lparr>pj_reservations := sql_insert row (pj_reservations pj)\<rparr>)"
| work: "(\<And>h. h \<in> set (pj_handoffs pj) \<Longrightarrow> hit h \<Longrightarrow> busy (ho_status h) \<and> busy (ho_status (g h)) \<and> ho_id (g h) = ho_id h \<and> ho_projection (g h) = ho_projection h) \<Longrightarrow>
    pj_change pj (pj\<lparr>pj_handoffs := sql_update hit g (pj_handoffs pj)\<rparr>)"
| link: "h \<in> set (pj_handoffs pj) \<Longrightarrow> busy (ho_status h) \<Longrightarrow>
    ho_id (g h) = ho_id h \<Longrightarrow> ho_projection (g h) = ho_projection h \<Longrightarrow> ho_status (g h) = Ho_linked \<Longrightarrow>
    map_of (ho_source (g h)) ''pendingAttachmentId'' = Some (Ref_text (pa_id q)) \<Longrightarrow> pa_id q \<noteq> [] \<Longrightarrow>
    q \<in> set (fd_pendings (pj_files pj)) \<Longrightarrow> reservation_of (pa_id q) pj = Some (ho_projection h) \<Longrightarrow>
    pj_change pj (pj\<lparr>pj_handoffs := sql_update (\<lambda>x. ho_id x = ho_id h) g (pj_handoffs pj)\<rparr>)"
| fail: "h \<in> set (pj_handoffs pj) \<Longrightarrow> busy (ho_status h) \<Longrightarrow>
    ho_id (g h) = ho_id h \<Longrightarrow> ho_projection (g h) = ho_projection h \<Longrightarrow>
    (\<And>p. same_projection p (f p) \<and> ap_post (f p) = ap_post p) \<Longrightarrow>
    ho_status (g h) = Ho_failed \<and> (\<forall>p. ap_status (f p) = Pj_failed)
      \<or> ho_status (g h) = Ho_needs_manual_review \<and> (\<forall>p. ap_status (f p) = Pj_needs_manual_review) \<Longrightarrow>
    pj_change pj (pj\<lparr>pj_handoffs := sql_update (\<lambda>x. ho_id x = ho_id h) g (pj_handoffs pj),
      pj_projections := sql_update (\<lambda>p. ap_id p = ho_projection h) f (pj_projections pj)\<rparr>)"
| publish: "p \<in> set (pj_projections pj) \<Longrightarrow> ap_status p \<noteq> Pj_projected \<Longrightarrow> \<not> earlierIncomplete p pj \<Longrightarrow>
    (\<And>h. h \<in> set (pj_handoffs pj) \<Longrightarrow> ho_projection h = ap_id p \<Longrightarrow> ho_status h = Ho_linked) \<Longrightarrow>
    (\<And>x. same_projection x (f x) \<and> ap_status (f x) = Pj_projected \<and> ap_post (f x) \<noteq> None) \<Longrightarrow>
    pj_projections pj' = sql_update (\<lambda>x. ap_id x = ap_id p) f (pj_projections pj) \<Longrightarrow> pj_handoffs pj' = pj_handoffs pj \<Longrightarrow>
    pj_reservations pj' = pj_reservations pj \<Longrightarrow> reserved_kept pj (Some (ap_id p)) pj' \<Longrightarrow> pj_change pj pj'"

section \<open>The invariant\<close>

definition proj_keys :: "projection_db \<Rightarrow> bool" where
  "proj_keys pj \<longleftrightarrow> unique_key ap_id (pj_projections pj) \<and> unique_key ho_id (pj_handoffs pj) \<and> unique_key rv_pending (pj_reservations pj)
     \<and> (\<forall>h \<in> set (pj_handoffs pj). ho_projection h \<in> ap_id ` set (pj_projections pj)) \<and> [] \<notin> ap_id ` set (pj_projections pj)"

definition in_custody :: "projection_db \<Rightarrow> handoff_row \<Rightarrow> bool" where
  \<comment> \<open>the upload of a linked handoff is reserved for its projection and waits until that is published\<close>
  "in_custody pj h \<longleftrightarrow> (\<exists>i. map_of (ho_source h) ''pendingAttachmentId'' = Some (Ref_text i) \<and> i \<noteq> [] \<and> reservation_of i pj = Some (ho_projection h)
     \<and> ((\<forall>p \<in> set (pj_projections pj). ap_id p = ho_projection h \<longrightarrow> ap_status p \<noteq> Pj_projected) \<longrightarrow> i \<in> pa_id ` set (fd_pendings (pj_files pj))))"

definition reviewed :: "projection_db \<Rightarrow> ident \<Rightarrow> bool" where
  "reviewed pj i \<longleftrightarrow> (\<exists>h \<in> set (pj_handoffs pj). ho_projection h = i \<and> ho_status h = Ho_needs_manual_review)"

definition before :: "projection_row \<Rightarrow> projection_row \<Rightarrow> projection_db \<Rightarrow> bool" where
  \<comment> \<open>an earlier message of the same session and topic\<close>
  "before e p pj \<longleftrightarrow> p \<in> set (pj_projections pj) \<and> e \<in> set (earlier_rows (ap_id p) (pj_projections pj))
     \<and> ap_pi_session e = ap_pi_session p \<and> ap_topic e = ap_topic p"

definition pj_ok :: "projection_db \<Rightarrow> bool" where
  "pj_ok pj \<longleftrightarrow> proj_keys pj
     \<and> (\<forall>h \<in> set (pj_handoffs pj). ho_status h = Ho_linked \<longrightarrow> in_custody pj h)
     \<and> (\<forall>p \<in> set (pj_projections pj). ap_status p = Pj_needs_manual_review \<longrightarrow> reviewed pj (ap_id p))
     \<and> (\<forall>p \<in> set (pj_projections pj). ap_status p = Pj_projected \<longrightarrow> ap_post p \<noteq> None
          \<and> (\<forall>h \<in> set (pj_handoffs pj). ho_projection h = ap_id p \<longrightarrow> ho_status h = Ho_linked))
     \<and> (\<forall>e p. before e p pj \<longrightarrow> ap_status p = Pj_projected \<longrightarrow> ap_status e \<noteq> Pj_projected \<longrightarrow> reviewed pj (ap_id e))"

lemma reviewed_map:
  assumes "pj_handoffs pj' = map G (pj_handoffs pj)"
    and "\<And>h. h \<in> set (pj_handoffs pj) \<Longrightarrow> \<not> busy (ho_status h) \<Longrightarrow> G h = h" and "reviewed pj i"
  shows "reviewed pj' i"
proof -
  obtain h where h: "h \<in> set (pj_handoffs pj)" "ho_projection h = i" "ho_status h = Ho_needs_manual_review" using assms(3) by (auto simp: reviewed_def)
  then have "G h = h" using assms(2) by (simp add: busy_def)
  then have "h \<in> set (pj_handoffs pj')" using h(1) assms(1) by (metis image_eqI list.set_map)
  then show ?thesis using h by (auto simp: reviewed_def)
qed

lemma before_map:
  assumes P: "pj_projections pj' = map F (pj_projections pj)" and F: "\<And>p. same_projection p (F p)" and b: "before e' p' pj'"
  obtains e p where "before e p pj" "e' = F e" "p' = F p" "e \<in> set (pj_projections pj)"
proof -
  have id: "ap_id (F p) = ap_id p" "ap_pi_session (F p) = ap_pi_session p" "ap_topic (F p) = ap_topic p" for p using F [of p] by (auto simp: same_projection_def)
  obtain p where p: "p \<in> set (pj_projections pj)" "p' = F p" using b P by (auto simp: before_def)
  have "earlier_rows (ap_id p') (pj_projections pj') = map F (earlier_rows (ap_id p) (pj_projections pj))"
    by (simp add: earlier_rows_def P takeWhile_map comp_def id p(2))
  then obtain e where e: "e \<in> set (earlier_rows (ap_id p) (pj_projections pj))" "e' = F e" using b by (auto simp: before_def)
  have "e \<in> set (pj_projections pj)" using e(1) by (auto simp: earlier_rows_def dest: set_takeWhileD)
  moreover have "before e p pj" using b p e id by (auto simp: before_def)
  ultimately show ?thesis using that p e by blast
qed

lemma mapped_ok:
  assumes ok: "pj_ok pj"
    and P: "pj_projections pj' = map F (pj_projections pj)" and F: "\<And>p. same_projection p (F p)"
    and H: "pj_handoffs pj' = map G (pj_handoffs pj)"
    and G: "\<And>h. h \<in> set (pj_handoffs pj) \<Longrightarrow> ho_id (G h) = ho_id h \<and> ho_projection (G h) = ho_projection h \<and> (\<not> busy (ho_status h) \<longrightarrow> G h = h)"
    and U: "unique_key rv_pending (pj_reservations pj')" and R: "\<And>i x. reservation_of i pj = Some x \<Longrightarrow> reservation_of i pj' = Some x"
    and Q: "\<And>q x. q \<in> set (fd_pendings (pj_files pj)) \<Longrightarrow> reservation_of (pa_id q) pj = Some x \<Longrightarrow>
      q \<in> set (fd_pendings (pj_files pj')) \<or> (\<exists>p \<in> set (pj_projections pj'). ap_id p = x \<and> ap_status p = Pj_projected)"
    and L: "\<And>h. h \<in> set (pj_handoffs pj) \<Longrightarrow> busy (ho_status h) \<Longrightarrow> ho_status (G h) = Ho_linked \<Longrightarrow> in_custody pj' (G h)"
    and S1: "\<And>p. p \<in> set (pj_projections pj) \<Longrightarrow> ap_status p = Pj_projected \<Longrightarrow> ap_status (F p) = Pj_projected \<and> ap_post (F p) \<noteq> None"
    and S2: "\<And>p. p \<in> set (pj_projections pj) \<Longrightarrow> ap_status (F p) = Pj_needs_manual_review \<Longrightarrow> ap_status p = Pj_needs_manual_review \<or> reviewed pj' (ap_id p)"
    and S3: "\<And>p. p \<in> set (pj_projections pj) \<Longrightarrow> ap_status p \<noteq> Pj_projected \<Longrightarrow> ap_status (F p) = Pj_projected \<Longrightarrow> ap_post (F p) \<noteq> None
      \<and> (\<forall>h \<in> set (pj_handoffs pj). ho_projection h = ap_id p \<longrightarrow> ho_status h = Ho_linked) \<and> (\<forall>e. before e p pj \<longrightarrow> \<not> incomplete (ap_status e))"
  shows "pj_ok pj'"
proof -
  have id: "ap_id (F p) = ap_id p" for p using F [of p] by (simp add: same_projection_def)
  have hid: "map ho_id (map G (pj_handoffs pj)) = map ho_id (pj_handoffs pj)" using G by simp
  have "unique_key ap_id (pj_projections pj')" using ok P id by (simp add: pj_ok_def proj_keys_def unique_key_def comp_def)
  moreover have "unique_key ho_id (pj_handoffs pj')" using ok unfolding H pj_ok_def proj_keys_def unique_key_def hid by simp
  moreover have ids: "ap_id ` set (pj_projections pj') = ap_id ` set (pj_projections pj)" using id P by (auto simp: image_image)
  then have "\<forall>h \<in> set (pj_handoffs pj'). ho_projection h \<in> ap_id ` set (pj_projections pj')" using ok G H by (auto simp: pj_ok_def proj_keys_def)
  moreover have "[] \<notin> ap_id ` set (pj_projections pj')" using ok ids by (simp add: pj_ok_def proj_keys_def)
  ultimately have keys: "proj_keys pj'" using U by (simp add: proj_keys_def)
  have rv: "reviewed pj i \<Longrightarrow> reviewed pj' i" for i using reviewed_map [OF H] G by blast
  have cust: "in_custody pj' k" if k: "k \<in> set (pj_handoffs pj')" "ho_status k = Ho_linked" for k
  proof -
    obtain h where h: "h \<in> set (pj_handoffs pj)" "k = G h" using k(1) H by auto
    show ?thesis
    proof (cases "busy (ho_status h)")
      case True
      then show ?thesis using L [OF h(1)] k h(2) by simp
    next
      case False
      then have g: "k = h" using G h by simp
      then have "in_custody pj h" using ok h(1) k(2) by (simp add: pj_ok_def)
      then obtain i where i: "map_of (ho_source h) ''pendingAttachmentId'' = Some (Ref_text i)" "i \<noteq> []" "reservation_of i pj = Some (ho_projection h)"
        "(\<forall>p \<in> set (pj_projections pj). ap_id p = ho_projection h \<longrightarrow> ap_status p \<noteq> Pj_projected) \<longrightarrow> i \<in> pa_id ` set (fd_pendings (pj_files pj))"
        unfolding in_custody_def by blast
      have "i \<in> pa_id ` set (fd_pendings (pj_files pj'))" if np: "\<forall>p \<in> set (pj_projections pj'). ap_id p = ho_projection h \<longrightarrow> ap_status p \<noteq> Pj_projected"
      proof -
        have "\<forall>p \<in> set (pj_projections pj). ap_id p = ho_projection h \<longrightarrow> ap_status p \<noteq> Pj_projected" using np S1 id P by auto
        then obtain q where "q \<in> set (fd_pendings (pj_files pj))" "pa_id q = i" using i(4) by auto
        then show ?thesis using Q [of q] i(3) np by auto
      qed
      then show ?thesis unfolding g in_custody_def using i R by blast
    qed
  qed
  have review: "reviewed pj' (ap_id p')" if p': "p' \<in> set (pj_projections pj')" "ap_status p' = Pj_needs_manual_review" for p'
  proof -
    obtain p where p: "p \<in> set (pj_projections pj)" "p' = F p" using p'(1) P by auto
    then show ?thesis using S2 [OF p(1)] p'(2) ok rv id by (auto simp: pj_ok_def)
  qed
  have published: "ap_post p' \<noteq> None \<and> (\<forall>k \<in> set (pj_handoffs pj'). ho_projection k = ap_id p' \<longrightarrow> ho_status k = Ho_linked)"
    if p': "p' \<in> set (pj_projections pj')" "ap_status p' = Pj_projected" for p'
  proof -
    obtain p where p: "p \<in> set (pj_projections pj)" "p' = F p" using p'(1) P by auto
    have post: "ap_post p' \<noteq> None" and all: "\<forall>h \<in> set (pj_handoffs pj). ho_projection h = ap_id p \<longrightarrow> ho_status h = Ho_linked"
      using p S1 [OF p(1)] S3 [OF p(1)] p'(2) ok by (cases "ap_status p = Pj_projected"; auto simp: pj_ok_def)+
    have "ho_status k = Ho_linked" if k: "k \<in> set (pj_handoffs pj')" "ho_projection k = ap_id p'" for k
    proof -
      obtain h where h: "h \<in> set (pj_handoffs pj)" "k = G h" using k(1) H by auto
      then have l: "ho_status h = Ho_linked" using all k(2) G p(2) id by auto
      then have "G h = h" using G h by (simp add: busy_def)
      then show ?thesis using h l by simp
    qed
    then show ?thesis using post by blast
  qed
  have order: "reviewed pj' (ap_id e')" if b: "before e' p' pj'" and st: "ap_status p' = Pj_projected" "ap_status e' \<noteq> Pj_projected" for e' p'
  proof -
    obtain e p where ep: "before e p pj" "e' = F e" "p' = F p" "e \<in> set (pj_projections pj)" using before_map [OF P F b] by blast
    have p: "p \<in> set (pj_projections pj)" using ep(1) by (simp add: before_def)
    have ne: "ap_status e \<noteq> Pj_projected" using S1 [OF ep(4)] st(2) ep(2) by auto
    have "reviewed pj (ap_id e)"
    proof (cases "ap_status p = Pj_projected")
      case True
      then show ?thesis using ok ep(1) ne by (auto simp: pj_ok_def)
    next
      case False
      then have "\<not> incomplete (ap_status e)" using S3 [OF p] st(1) ep by auto
      then have "ap_status e = Pj_needs_manual_review" using ne by (cases "ap_status e") (auto simp: incomplete_def)
      then show ?thesis using ok ep(4) by (auto simp: pj_ok_def)
    qed
    then show ?thesis using rv id ep(2) by simp
  qed
  show ?thesis unfolding pj_ok_def using keys cust review published order by blast
qed

section \<open>Changes keep the invariant\<close>

lemma reservation_of_insert:
  assumes "reservation_of i pj = Some x"
  shows "reservation_of i (pj\<lparr>pj_reservations := sql_insert row (pj_reservations pj)\<rparr>) = Some x"
  using assms by (auto simp: reservation_of_def sql_get_insert)

lemma reservation_of_same [simp]:
  "reservation_of i (pj\<lparr>pj_handoffs := h\<rparr>) = reservation_of i pj" "reservation_of i (pj\<lparr>pj_projections := p\<rparr>) = reservation_of i pj"
  "reservation_of i (pj\<lparr>pj_files := fd\<rparr>) = reservation_of i pj" "reservation_of i (pj\<lparr>pj_forum := fb\<rparr>) = reservation_of i pj"
  by (simp_all add: reservation_of_def)

lemma reservation_of_cong: "pj_reservations pj' = pj_reservations pj \<Longrightarrow> reservation_of i pj' = reservation_of i pj"
  by (simp add: reservation_of_def)

lemma pj_ok_posts: "pj_ok pj \<Longrightarrow> p \<in> set (pj_projections pj) \<Longrightarrow> ap_status p = Pj_projected \<Longrightarrow> \<exists>y. ap_post p = Some y"
  by (auto simp: pj_ok_def)

lemma busy_simps [simp]: "busy Ho_pending" "busy Ho_failed" "busy Ho_linking" "\<not> busy Ho_linked" "\<not> busy Ho_needs_manual_review"
  by (simp_all add: busy_def)

lemma busy_not_projected:
  "pj_ok pj \<Longrightarrow> h \<in> set (pj_handoffs pj) \<Longrightarrow> busy (ho_status h) \<Longrightarrow> p \<in> set (pj_projections pj) \<Longrightarrow> ap_id p = ho_projection h \<Longrightarrow>
    ap_status p \<noteq> Pj_projected"
  by (auto simp: pj_ok_def busy_def)

lemma before_incomplete: "\<not> earlierIncomplete p pj \<Longrightarrow> before e p pj \<Longrightarrow> \<not> incomplete (ap_status e)"
  by (auto simp: earlierIncomplete_def before_def)

lemma start_ok:
  assumes ok: "pj_ok pj" and ne: "ap_id row \<noteq> []" and new: "\<And>p. p \<in> set (pj_projections pj) \<Longrightarrow> ap_id p \<noteq> ap_id row" and inc: "incomplete (ap_status row)"
    and hs: "\<And>h. h \<in> set hs \<Longrightarrow> ho_projection h = ap_id row \<and> ho_status h = Ho_pending" and u: "unique_key ho_id (pj_handoffs pj @ hs)"
  shows "pj_ok (pj\<lparr>pj_projections := sql_insert row (pj_projections pj), pj_handoffs := pj_handoffs pj @ hs\<rparr>)"
proof -
  let ?pj = "pj\<lparr>pj_projections := sql_insert row (pj_projections pj), pj_handoffs := pj_handoffs pj @ hs\<rparr>"
  have rows: "set (pj_projections ?pj) = insert row (set (pj_projections pj))" by simp
  have ref: "h \<in> set (pj_handoffs pj) \<Longrightarrow> ho_projection h \<noteq> ap_id row" for h using ok new by (force simp: pj_ok_def proj_keys_def)
  have fresh: "\<forall>p \<in> set (pj_projections pj). ap_id p \<noteq> ap_id row" using new by blast
  have inc': "ap_status row \<noteq> Pj_projected" "ap_status row \<noteq> Pj_needs_manual_review" using inc by (auto simp: incomplete_def)
  have rv: "reviewed pj i \<Longrightarrow> reviewed ?pj i" for i by (auto simp: reviewed_def)
  have cust: "in_custody ?pj h" if "h \<in> set (pj_handoffs pj)" "in_custody pj h" for h
    using that unfolding in_custody_def by (auto simp: reservation_of_def)
  have bef: "before e p pj" if b: "before e p ?pj" and "p \<noteq> row" for e p
  proof -
    have p: "p \<in> set (pj_projections pj)" using b that(2) by (auto simp: before_def)
    then have "earlier_rows (ap_id p) (pj_projections pj @ [row]) = earlier_rows (ap_id p) (pj_projections pj)"
      unfolding earlier_rows_def by (intro takeWhile_append1) auto
    then show ?thesis using b p by (simp add: before_def sql_insert_def)
  qed
  have "proj_keys ?pj" using ok ne new u hs by (auto simp: pj_ok_def proj_keys_def unique_key_insert_iff)
  moreover have "\<forall>h \<in> set (pj_handoffs ?pj). ho_status h = Ho_linked \<longrightarrow> in_custody ?pj h"
    using ok cust hs by (auto simp: pj_ok_def)
  moreover have "\<forall>p \<in> set (pj_projections ?pj). ap_status p = Pj_needs_manual_review \<longrightarrow> reviewed ?pj (ap_id p)"
    using ok rv inc' unfolding rows pj_ok_def by auto
  moreover have "\<forall>p \<in> set (pj_projections ?pj). ap_status p = Pj_projected \<longrightarrow> ap_post p \<noteq> None
      \<and> (\<forall>h \<in> set (pj_handoffs ?pj). ho_projection h = ap_id p \<longrightarrow> ho_status h = Ho_linked)"
    using ok inc' hs fresh unfolding rows pj_ok_def by auto
  moreover have "\<forall>e p. before e p ?pj \<longrightarrow> ap_status p = Pj_projected \<longrightarrow> ap_status e \<noteq> Pj_projected \<longrightarrow> reviewed ?pj (ap_id e)"
    using ok inc'(1) bef rv unfolding pj_ok_def by metis
  ultimately show ?thesis by (simp add: pj_ok_def)
qed

lemma same_projection_refl [simp]: "same_projection p p"
  by (simp add: same_projection_def)

lemma pj_ok_keys: "pj_ok pj \<Longrightarrow> unique_key rv_pending (pj_reservations pj)" "pj_ok pj \<Longrightarrow> unique_key ho_id (pj_handoffs pj)"
  "pj_ok pj \<Longrightarrow> unique_key ap_id (pj_projections pj)"
  by (auto simp: pj_ok_def proj_keys_def)

lemma files_ok_other:
  assumes ok: "pj_ok pj" and "pj_projections pj' = pj_projections pj" "pj_handoffs pj' = pj_handoffs pj" "pj_reservations pj' = pj_reservations pj"
    and "reserved_kept pj None pj'"
  shows "pj_ok pj'"
proof (rule mapped_ok [OF ok, of pj' "\<lambda>p. p" "\<lambda>h. h"])
  show "reservation_of i pj = Some x \<Longrightarrow> reservation_of i pj' = Some x" for i x by (simp add: reservation_of_cong [OF assms(4)])
qed (use assms pj_ok_keys(1) [OF ok] in \<open>auto simp: reserved_kept_def pj_ok_posts [OF ok]\<close>)

lemma annotate_ok:
  assumes ok: "pj_ok pj" and f: "\<And>p. same_projection p (f p) \<and> ap_status (f p) = ap_status p \<and> ap_post (f p) = ap_post p"
  shows "pj_ok (pj\<lparr>pj_projections := sql_update hit f (pj_projections pj)\<rparr>)"
  using f by (intro mapped_ok [OF ok, of _ "\<lambda>p. if hit p then f p else p" "\<lambda>h. h"])
    (auto simp: sql_update_def pj_ok_keys [OF ok] pj_ok_posts [OF ok] split: if_splits)

lemma reserve_ok:
  assumes ok: "pj_ok pj" and new: "\<And>r. r \<in> set (pj_reservations pj) \<Longrightarrow> rv_pending r \<noteq> rv_pending row"
  shows "pj_ok (pj\<lparr>pj_reservations := sql_insert row (pj_reservations pj)\<rparr>)"
  using new by (intro mapped_ok [OF ok, of _ "\<lambda>p. p" "\<lambda>h. h"])
    (auto simp: unique_key_insert_iff pj_ok_keys [OF ok] pj_ok_posts [OF ok] reservation_of_insert)

lemma work_ok:
  assumes ok: "pj_ok pj"
    and g: "\<And>h. h \<in> set (pj_handoffs pj) \<Longrightarrow> hit h \<Longrightarrow> busy (ho_status h) \<and> busy (ho_status (g h)) \<and> ho_id (g h) = ho_id h \<and> ho_projection (g h) = ho_projection h"
  shows "pj_ok (pj\<lparr>pj_handoffs := sql_update hit g (pj_handoffs pj)\<rparr>)"
proof (rule mapped_ok [OF ok, of _ "\<lambda>p. p" "\<lambda>h. if hit h then g h else h"])
  show "in_custody (pj\<lparr>pj_handoffs := sql_update hit g (pj_handoffs pj)\<rparr>) (if hit h then g h else h)"
    if "h \<in> set (pj_handoffs pj)" "busy (ho_status h)" "ho_status (if hit h then g h else h) = Ho_linked" for h
    using g [OF that(1)] that by (auto simp: busy_def split: if_splits)
qed (use g in \<open>auto simp: sql_update_def pj_ok_keys [OF ok] pj_ok_posts [OF ok]\<close>)

lemma link_ok:
  assumes ok: "pj_ok pj" and h: "h \<in> set (pj_handoffs pj)" "busy (ho_status h)"
    and g: "ho_id (g h) = ho_id h" "ho_projection (g h) = ho_projection h" "ho_status (g h) = Ho_linked"
    and q: "map_of (ho_source (g h)) ''pendingAttachmentId'' = Some (Ref_text (pa_id q))" "pa_id q \<noteq> []" "q \<in> set (fd_pendings (pj_files pj))"
      "reservation_of (pa_id q) pj = Some (ho_projection h)"
  shows "pj_ok (pj\<lparr>pj_handoffs := sql_update (\<lambda>x. ho_id x = ho_id h) g (pj_handoffs pj)\<rparr>)"
proof -
  have only: "x = h" if "x \<in> set (pj_handoffs pj)" "ho_id x = ho_id h" for x using pj_ok_keys(2) [OF ok] h that by (auto dest: unique_keyD)
  have st: "ho_status h \<noteq> Ho_linked" using h(2) by (auto simp: busy_def)
  show ?thesis
  proof (rule mapped_ok [OF ok, of _ "\<lambda>p. p" "\<lambda>x. if ho_id x = ho_id h then g x else x"])
    show "in_custody (pj\<lparr>pj_handoffs := sql_update (\<lambda>x. ho_id x = ho_id h) g (pj_handoffs pj)\<rparr>) (if ho_id x = ho_id h then g x else x)"
      if x: "x \<in> set (pj_handoffs pj)" "busy (ho_status x)" "ho_status (if ho_id x = ho_id h then g x else x) = Ho_linked" for x
    proof -
      have "ho_id x = ho_id h" using x(2,3) by (auto simp: busy_def split: if_splits)
      then have "x = h" using only x(1) by blast
      then show ?thesis using q g by (auto simp: in_custody_def intro!: exI [of _ "pa_id q"])
    qed
  qed (use only g h in \<open>auto simp: sql_update_def pj_ok_keys [OF ok] pj_ok_posts [OF ok]\<close>)
qed

lemma fail_ok:
  assumes ok: "pj_ok pj" and h: "h \<in> set (pj_handoffs pj)" "busy (ho_status h)"
    and g: "ho_id (g h) = ho_id h" "ho_projection (g h) = ho_projection h"
    and f: "\<And>p. same_projection p (f p) \<and> ap_post (f p) = ap_post p"
    and st: "ho_status (g h) = Ho_failed \<and> (\<forall>p. ap_status (f p) = Pj_failed)
      \<or> ho_status (g h) = Ho_needs_manual_review \<and> (\<forall>p. ap_status (f p) = Pj_needs_manual_review)"
  shows "pj_ok (pj\<lparr>pj_handoffs := sql_update (\<lambda>x. ho_id x = ho_id h) g (pj_handoffs pj),
      pj_projections := sql_update (\<lambda>p. ap_id p = ho_projection h) f (pj_projections pj)\<rparr>)" (is "pj_ok ?pj")
proof -
  let ?F = "\<lambda>p. if ap_id p = ho_projection h then f p else p" and ?G = "\<lambda>x. if ho_id x = ho_id h then g x else x"
  have only: "x = h" if "x \<in> set (pj_handoffs pj)" "ho_id x = ho_id h" for x using pj_ok_keys(2) [OF ok] h that by (auto dest: unique_keyD)
  have np: "ap_status p \<noteq> Pj_projected" if "p \<in> set (pj_projections pj)" "ap_id p = ho_projection h" for p
    using busy_not_projected [OF ok h that] .
  have gh: "g h \<in> set (pj_handoffs ?pj)" using h(1) by (auto simp: set_sql_update intro!: image_eqI [of _ _ h])
  show ?thesis
  proof (rule mapped_ok [OF ok, of _ ?F ?G])
    show "in_custody ?pj (?G x)" if "x \<in> set (pj_handoffs pj)" "busy (ho_status x)" "ho_status (?G x) = Ho_linked" for x
      using that st only [of x] by (auto simp: busy_def split: if_splits)
    show "ap_status p = Pj_needs_manual_review \<or> reviewed ?pj (ap_id p)" if "p \<in> set (pj_projections pj)" "ap_status (?F p) = Pj_needs_manual_review" for p
      using that st gh g(2) by (cases "ap_id p = ho_projection h") (auto simp: reviewed_def)
    show "ap_status (?F p) = Pj_projected \<and> ap_post (?F p) \<noteq> None" if "p \<in> set (pj_projections pj)" "ap_status p = Pj_projected" for p
      using that np pj_ok_posts [OF ok] by auto
    show "ap_post (?F p) \<noteq> None \<and> (\<forall>h \<in> set (pj_handoffs pj). ho_projection h = ap_id p \<longrightarrow> ho_status h = Ho_linked)
        \<and> (\<forall>e. before e p pj \<longrightarrow> \<not> incomplete (ap_status e))"
      if "p \<in> set (pj_projections pj)" "ap_status p \<noteq> Pj_projected" "ap_status (?F p) = Pj_projected" for p
      using that st by (auto split: if_splits)
  qed (use only g f h in \<open>auto simp: sql_update_def pj_ok_keys [OF ok] reservation_of_def\<close>)
qed

lemma publish_ok:
  assumes ok: "pj_ok pj" and p: "p \<in> set (pj_projections pj)" "ap_status p \<noteq> Pj_projected" "\<not> earlierIncomplete p pj"
      "\<And>h. h \<in> set (pj_handoffs pj) \<Longrightarrow> ho_projection h = ap_id p \<Longrightarrow> ho_status h = Ho_linked"
    and f: "\<And>x. same_projection x (f x) \<and> ap_status (f x) = Pj_projected \<and> ap_post (f x) \<noteq> None"
    and P: "pj_projections pj' = sql_update (\<lambda>x. ap_id x = ap_id p) f (pj_projections pj)" and H: "pj_handoffs pj' = pj_handoffs pj"
    and R: "pj_reservations pj' = pj_reservations pj" and Q: "reserved_kept pj (Some (ap_id p)) pj'"
  shows "pj_ok pj'"
proof -
  let ?F = "\<lambda>x. if ap_id x = ap_id p then f x else x"
  have only: "x = p" if "x \<in> set (pj_projections pj)" "ap_id x = ap_id p" for x using pj_ok_keys(3) [OF ok] p that by (auto dest: unique_keyD)
  have fp: "f p \<in> set (pj_projections pj')" using p(1) by (auto simp: P set_sql_update intro!: image_eqI [of _ _ p])
  show ?thesis
  proof (rule mapped_ok [OF ok, of _ ?F "\<lambda>h. h"])
    show "q \<in> set (fd_pendings (pj_files pj')) \<or> (\<exists>r \<in> set (pj_projections pj'). ap_id r = x \<and> ap_status r = Pj_projected)"
      if "q \<in> set (fd_pendings (pj_files pj))" "reservation_of (pa_id q) pj = Some x" for q x
      using Q that fp f [of p] by (cases "x = ap_id p") (auto simp: reserved_kept_def same_projection_def)
    show "ap_post (?F x) \<noteq> None \<and> (\<forall>h \<in> set (pj_handoffs pj). ho_projection h = ap_id x \<longrightarrow> ho_status h = Ho_linked)
        \<and> (\<forall>e. before e x pj \<longrightarrow> \<not> incomplete (ap_status e))"
      if x: "x \<in> set (pj_projections pj)" "ap_status x \<noteq> Pj_projected" "ap_status (?F x) = Pj_projected" for x
    proof -
      have "x = p" using x only by (auto split: if_splits)
      then show ?thesis using f [of p] p before_incomplete [OF p(3)] by auto
    qed
    show "ap_status x = Pj_needs_manual_review \<or> reviewed pj' (ap_id x)"
      if "x \<in> set (pj_projections pj)" "ap_status (?F x) = Pj_needs_manual_review" for x using that f by (auto split: if_splits)
  qed (use f pj_ok_posts [OF ok] in \<open>auto simp: P H R sql_update_def pj_ok_keys [OF ok] reservation_of_cong [OF R]\<close>)
qed

lemma pj_change_ok: "pj_change pj pj' \<Longrightarrow> pj_ok pj \<Longrightarrow> pj_ok pj'"
proof (induction rule: pj_change.induct)
  case other
  show ?case by (rule files_ok_other [OF other.prems other.hyps])
next
  case annotate
  show ?case by (rule annotate_ok [OF annotate.prems annotate.hyps])
next
  case start
  show ?case by (rule start_ok [OF start.prems start.hyps])
next
  case reserve
  show ?case by (rule reserve_ok [OF reserve.prems reserve.hyps])
next
  case work
  show ?case by (rule work_ok [OF work.prems work.hyps])
next
  case (link h pj g q)
  show ?case by (rule link_ok [OF link.prems link.hyps(1,2), where g = g and q = q]) (fact link.hyps)+
next
  case (fail h pj g f)
  show ?case by (rule fail_ok [OF fail.prems fail.hyps(1,2), where g = g and f = f]) (fact fail.hyps)+
next
  case publish
  show ?case by (rule publish_ok [OF publish.prems publish.hyps])
qed

section \<open>What lasts\<close>

text \<open>Every change maps the rows, or appends new ones.\<close>

definition row_map where
  "row_map pj pj' F G \<longleftrightarrow> pj_projections pj' = map F (pj_projections pj) \<and> pj_handoffs pj' = map G (pj_handoffs pj)
     \<and> (\<forall>p. same_projection p (F p))
     \<and> (\<forall>h \<in> set (pj_handoffs pj). ho_id (G h) = ho_id h \<and> ho_projection (G h) = ho_projection h \<and> (\<not> busy (ho_status h) \<longrightarrow> G h = h))"

definition projects :: "projection_db \<Rightarrow> projection_row \<Rightarrow> bool" where
  "projects pj p \<longleftrightarrow> \<not> earlierIncomplete p pj \<and> (\<forall>h \<in> set (pj_handoffs pj). ho_projection h = ap_id p \<longrightarrow> ho_status h = Ho_linked)"

definition status_moves where
  \<comment> \<open>which rows change their status, and how\<close>
  "status_moves pj F \<longleftrightarrow> (\<forall>p \<in> set (pj_projections pj). ap_status (F p) = ap_status p \<and> ap_post (F p) = ap_post p
     \<or> ap_status p \<noteq> Pj_projected \<and> ap_status (F p) \<noteq> Pj_projected \<and> (\<exists>h \<in> set (pj_handoffs pj). ho_projection h = ap_id p \<and> busy (ho_status h))
     \<or> ap_status p \<noteq> Pj_projected \<and> projects pj p)"

lemma pj_change_rows:
  assumes "pj_change pj pj'" and ok: "pj_ok pj"
  shows "(\<exists>F G. row_map pj pj' F G \<and> status_moves pj F) \<or>
    (\<exists>row hs. pj_projections pj' = pj_projections pj @ [row] \<and> pj_handoffs pj' = pj_handoffs pj @ hs
       \<and> (\<forall>p \<in> set (pj_projections pj). ap_id p \<noteq> ap_id row) \<and> (\<forall>h \<in> set hs. ho_projection h = ap_id row))"
  using assms(1)
proof cases
  case other
  then have "row_map pj pj' (\<lambda>p. p) (\<lambda>h. h) \<and> status_moves pj (\<lambda>p. p)" by (simp add: row_map_def status_moves_def)
  then show ?thesis by blast
next
  case (annotate f hit)
  then have "row_map pj pj' (\<lambda>p. if hit p then f p else p) (\<lambda>h. h) \<and> status_moves pj (\<lambda>p. if hit p then f p else p)"
    by (simp add: row_map_def status_moves_def sql_update_def)
  then show ?thesis by blast
next
  case (start row hs)
  then show ?thesis by (intro disjI2 exI [of _ row] exI [of _ hs]) (auto simp: sql_insert_def)
next
  case reserve
  then have "row_map pj pj' (\<lambda>p. p) (\<lambda>h. h) \<and> status_moves pj (\<lambda>p. p)" by (simp add: row_map_def status_moves_def)
  then show ?thesis by blast
next
  case (work hit g)
  then have "row_map pj pj' (\<lambda>p. p) (\<lambda>h. if hit h then g h else h) \<and> status_moves pj (\<lambda>p. p)"
    by (auto simp: row_map_def status_moves_def sql_update_def)
  then show ?thesis by blast
next
  case (link h g q)
  have only: "x = h" if "x \<in> set (pj_handoffs pj)" "ho_id x = ho_id h" for x using pj_ok_keys(2) [OF ok] link that by (auto dest: unique_keyD)
  then have "row_map pj pj' (\<lambda>p. p) (\<lambda>x. if ho_id x = ho_id h then g x else x) \<and> status_moves pj (\<lambda>p. p)"
    using link by (auto simp: row_map_def status_moves_def sql_update_def)
  then show ?thesis by blast
next
  case (fail h g f)
  have only: "x = h" if "x \<in> set (pj_handoffs pj)" "ho_id x = ho_id h" for x using pj_ok_keys(2) [OF ok] fail that by (auto dest: unique_keyD)
  let ?F = "\<lambda>p. if ap_id p = ho_projection h then f p else p"
  have "row_map pj pj' ?F (\<lambda>x. if ho_id x = ho_id h then g x else x)" using fail only by (auto simp: row_map_def sql_update_def)
  moreover have "ap_status p \<noteq> Pj_projected \<and> ap_status (f p) \<noteq> Pj_projected" if "p \<in> set (pj_projections pj)" "ap_id p = ho_projection h" for p
    using fail(7) busy_not_projected [OF ok fail(2,3) that] by auto
  then have "status_moves pj ?F" unfolding status_moves_def using fail(2,3) by auto
  ultimately show ?thesis by blast
next
  case (publish p f)
  have only: "x = p" if "x \<in> set (pj_projections pj)" "ap_id x = ap_id p" for x using pj_ok_keys(3) [OF ok] publish that by (auto dest: unique_keyD)
  let ?F = "\<lambda>x. if ap_id x = ap_id p then f x else x"
  have "row_map pj pj' ?F (\<lambda>h. h)" using publish by (auto simp: row_map_def sql_update_def)
  moreover have "status_moves pj ?F" unfolding status_moves_def projects_def using publish only by auto
  ultimately show ?thesis by blast
qed

lemma reviewed_stays:
  assumes "pj_change pj pj'" and "pj_ok pj" and "reviewed pj i"
  shows "reviewed pj' i"
  using pj_change_rows [OF assms(1,2)]
proof (elim disjE exE conjE)
  fix F G assume m: "row_map pj pj' F G"
  then have H: "pj_handoffs pj' = map G (pj_handoffs pj)" and "\<And>h. h \<in> set (pj_handoffs pj) \<Longrightarrow> \<not> busy (ho_status h) \<Longrightarrow> G h = h"
    by (auto simp: row_map_def)
  then show ?thesis using reviewed_map [OF H _ assms(3)] by blast
qed (use assms(3) in \<open>auto simp: reviewed_def\<close>)

definition published_as :: "projection_db \<Rightarrow> ident \<Rightarrow> ident option \<Rightarrow> bool" where
  "published_as pj i post \<longleftrightarrow> (\<exists>p \<in> set (pj_projections pj). ap_id p = i \<and> ap_status p = Pj_projected \<and> ap_post p = post)"

lemma published_stays:
  assumes "pj_change pj pj'" and "pj_ok pj" and "published_as pj i post"
  shows "published_as pj' i post"
  using pj_change_rows [OF assms(1,2)]
proof (elim disjE exE conjE)
  fix F G assume m: "row_map pj pj' F G" and s: "status_moves pj F"
  obtain p where p: "p \<in> set (pj_projections pj)" "ap_id p = i" "ap_status p = Pj_projected" "ap_post p = post" using assms(3) by (auto simp: published_as_def)
  have "ap_status (F p) = Pj_projected \<and> ap_post (F p) = post" using s p by (auto simp: status_moves_def)
  moreover have "ap_id (F p) = i" using m p by (simp add: row_map_def same_projection_def)
  ultimately show ?thesis using m p(1) by (auto simp: published_as_def row_map_def)
qed (use assms(3) in \<open>auto simp: published_as_def\<close>)

definition blocked :: "projection_db \<Rightarrow> ident \<Rightarrow> ident \<Rightarrow> bool" where
  \<comment> \<open>an incomplete projection none of whose handoffs can move any more, and a later one waiting for it\<close>
  "blocked pj i j \<longleftrightarrow> (\<exists>e p. before e p pj \<and> ap_id e = i \<and> ap_id p = j \<and> incomplete (ap_status e) \<and> ap_status p \<noteq> Pj_projected)
     \<and> reviewed pj i \<and> (\<forall>h \<in> set (pj_handoffs pj). ho_projection h = i \<longrightarrow> \<not> busy (ho_status h))"

lemma before_in: "before e p pj \<Longrightarrow> e \<in> set (pj_projections pj) \<and> p \<in> set (pj_projections pj)"
  by (auto simp: before_def earlier_rows_def dest: set_takeWhileD)

lemma before_mapped:
  assumes "row_map pj pj' F G" and "before e p pj"
  shows "before (F e) (F p) pj'"
proof -
  have P: "pj_projections pj' = map F (pj_projections pj)" and id: "ap_id (F x) = ap_id x" "ap_pi_session (F x) = ap_pi_session x" "ap_topic (F x) = ap_topic x" for x
    using assms(1) by (auto simp: row_map_def same_projection_def)
  have "earlier_rows (ap_id (F p)) (pj_projections pj') = map F (earlier_rows (ap_id p) (pj_projections pj))"
    by (simp add: earlier_rows_def P takeWhile_map comp_def id)
  then show ?thesis using assms(2) P id by (auto simp: before_def)
qed

lemma blocked_stays:
  assumes c: "pj_change pj pj'" and ok: "pj_ok pj" and b: "blocked pj i j"
  shows "blocked pj' i j"
proof -
  obtain e p where ep: "before e p pj" "ap_id e = i" "ap_id p = j" "incomplete (ap_status e)" "ap_status p \<noteq> Pj_projected"
    and rv: "reviewed pj i" and idle: "\<forall>h \<in> set (pj_handoffs pj). ho_projection h = i \<longrightarrow> \<not> busy (ho_status h)" using b by (auto simp: blocked_def)
  have rv': "reviewed pj' i" using reviewed_stays [OF c ok rv] .
  show ?thesis using pj_change_rows [OF c ok]
  proof (elim disjE exE conjE)
    fix F G assume m: "row_map pj pj' F G" and s: "status_moves pj F"
    have "\<not> projects pj e" using rv ep(2) by (auto simp: projects_def reviewed_def)
    then have e: "ap_status (F e) = ap_status e" using s idle ep(2) before_in [OF ep(1)] by (auto simp: status_moves_def)
    have "\<not> projects pj p" using ep by (auto simp: projects_def earlierIncomplete_def before_def)
    then have "ap_status (F p) \<noteq> Pj_projected" using s ep(5) before_in [OF ep(1)] by (auto simp: status_moves_def)
    moreover have "\<forall>h \<in> set (pj_handoffs pj'). ho_projection h = i \<longrightarrow> \<not> busy (ho_status h)" using m idle by (auto simp: row_map_def)
    moreover have "ap_id (F x) = ap_id x" for x using m by (simp add: row_map_def same_projection_def)
    ultimately show ?thesis unfolding blocked_def using before_mapped [OF m ep(1)] e ep rv' by (metis (no_types, lifting))
  next
    fix row hs assume r: "pj_projections pj' = pj_projections pj @ [row]" "pj_handoffs pj' = pj_handoffs pj @ hs"
      "\<forall>p \<in> set (pj_projections pj). ap_id p \<noteq> ap_id row" "\<forall>h \<in> set hs. ho_projection h = ap_id row"
    have "earlier_rows (ap_id p) (pj_projections pj @ [row]) = earlier_rows (ap_id p) (pj_projections pj)"
      unfolding earlier_rows_def using before_in [OF ep(1)] by (intro takeWhile_append1) auto
    then have "before e p pj'" using ep(1) r by (simp add: before_def)
    moreover have "ap_id row \<noteq> i" using r(3) before_in [OF ep(1)] ep(2) by auto
    ultimately show ?thesis using ep rv' idle r by (auto simp: blocked_def)
  qed
qed

end
