(* ===== verification/Projection_Steps.thy ===== *)
theory Projection_Steps
  imports Projection_Laws
begin

text \<open>Every operation on projections, handoffs and files is a run of the abstract machine.\<close>

section \<open>Waiting uploads under the file operations\<close>

lemma insert_blob_pendings: "insert_blob row db = Inr db' \<Longrightarrow> fd_pendings db' = fd_pendings db"
  by (auto simp: insert_blob_def split: if_splits)

lemma update_blob_pendings: "update_blob i f db = Inr db' \<Longrightarrow> fd_pendings db' = fd_pendings db"
  by (auto simp: update_blob_def split: if_splits option.splits)

lemma set_blob_state_pendings: "set_blob_state now s i db = Inr db' \<Longrightarrow> fd_pendings db' = fd_pendings db"
  unfolding set_blob_state_def by (rule update_blob_pendings)

lemma insert_file_pendings: "insert_file f db = Inr db' \<Longrightarrow> fd_pendings db' = fd_pendings db"
  by (auto simp: insert_file_def split: if_splits)

lemma revive_pendings: "revive_blob now i ow sha bytes path f db = Inr db' \<Longrightarrow> fd_pendings db' = fd_pendings db"
  by (auto simp: revive_blob_def replace_blob_def split: option.splits if_splits sum.splits dest!: insert_blob_pendings set_blob_state_pendings)

lemma file_for_attachment_pendings:
  assumes "file_for_attachment now u input db = Inr (i, db')"
  shows "fd_pendings db' = fd_pendings db"
  using assms unfolding file_for_attachment_def Let_def set_ready_if_pending_def
  by (auto split: option.splits if_splits sum.splits dest!: revive_pendings insert_blob_pendings insert_file_pendings set_blob_state_pendings)

lemma createAttachment_pendings: "createAttachment now u input db = Inr (a, db') \<Longrightarrow> fd_pendings db' = fd_pendings db"
  by (auto simp: createAttachment_def Let_def split: sum.splits prod.splits option.splits if_splits dest!: file_for_attachment_pendings)

lemma createUserFile_pendings: "createUserFile now u input db = Inr (a, db') \<Longrightarrow> fd_pendings db' = fd_pendings db"
  unfolding createUserFile_def Let_def
  by (auto split: sum.splits option.splits if_splits dest!: revive_pendings insert_blob_pendings insert_file_pendings)

lemma restoreBlob_pendings: "restoreBlob now i path sha bytes db = Inr db' \<Longrightarrow> fd_pendings db' = fd_pendings db"
  by (auto simp: restoreBlob_def split: option.splits sum.splits dest!: update_blob_pendings)

lemma mark_pendings: "fd_pendings (markUnreferencedBlobsForGc now db) = fd_pendings db"
  by (simp add: markUnreferencedBlobsForGc_def)

lemma merge_files_pendings: "fd_pendings (merge_files now k l db) = fd_pendings db"
proof -
  have "fd_pendings (foldl (\<lambda>d f. merge_loser now c (uf_id f) d) db ls) = fd_pendings db" for c db and ls :: "user_file_row list"
    by (induction ls arbitrary: db) (auto simp: merge_loser_def)
  then show ?thesis by (simp add: merge_files_def Let_def split: list.splits)
qed

lemma verifyBlob_pendings: "verifyBlob now i sha n db = Inr db' \<Longrightarrow> fd_pendings db' = fd_pendings db"
  by (auto simp: verifyBlob_def markBlobMissing_def merge_files_pendings split: option.splits if_splits dest!: update_blob_pendings)

lemma claims_pendings: "fd_pendings (claim_unreferenced clock db) = fd_pendings db"
proof -
  have "fd_pendings (claim_or_defer clock d b) = fd_pendings d" for d b
    by (auto simp: claim_or_defer_def claimBlobForGc_def split: sum.splits prod.splits option.splits if_splits dest!: set_blob_state_pendings)
  then have "fd_pendings (foldl (claim_or_defer clock) d bs) = fd_pendings d" for d bs by (induction bs arbitrary: d) auto
  then show ?thesis by (simp add: claim_unreferenced_def Let_def mark_pendings)
qed

lemma collect_pendings: "fd_pendings (fst (maintenance_collect managed unlinkable message clock now uploads pendings db disk)) = fd_pendings db"
  unfolding fst_maintenance_collect using process_deletions_same [of "(claim_unreferenced clock db, disk)"] by (simp add: claims_pendings)

lemma expire_pendings:
  "fd_pendings (snd (maintenance_expire managed disk clock now db)) = sql_delete (expired_pending now (snd (expireUserFiles clock now db))) (fd_pendings db)"
proof -
  have "fd_pendings (check_ready_blob managed disk clock now d b) = fd_pendings d" for d b
    by (simp add: check_ready_blob_def markBlobMissing_def touchReadyBlob_def)
  then have "fd_pendings (foldl (check_ready_blob managed disk clock now) d bs) = fd_pendings d" for d bs by (induction bs arbitrary: d) auto
  then show ?thesis by (simp add: maintenance_expire_def Let_def deleteExpiredPendingAttachments_def expireUserFiles_def mark_pendings)
qed

lemma file_step_pendings:
  assumes "file_step s s'" and "q \<in> set (fd_pendings (fst s))" and "pa_id q \<in> set (fd_reserved (fst s))"
  shows "q \<in> set (fd_pendings (fst s'))"
  using assms(1)
proof cases
  case (create_pending row db p db' disk)
  then show ?thesis using assms(2) by (auto simp: createPendingAttachment_def Let_def split: if_splits)
next
  case (delete_pending db disk i)
  then show ?thesis using assms by (auto simp: deletePendingAttachment_def)
next
  case (expire_pass db disk managed clock now)
  then show ?thesis using assms by (auto simp: expire_pendings expired_pending_def expireUserFiles_def Let_def markUnreferencedBlobsForGc_def)
qed (use assms in \<open>auto simp: deleteAttachment_def detachPostAttachments_def drop_attachments_def mark_pendings updateUserFile_def deleteUserFile_def
    markBlobMissing_def verify_look_def verify_hashed_def collect_pendings Let_def split: option.splits sum.splits
    dest!: createAttachment_pendings createUserFile_pendings restoreBlob_pendings verifyBlob_pendings\<close>)

section \<open>Publishing\<close>

lemma reserved_kept_same: "fd_pendings (pj_files pj') = fd_pendings (pj_files pj) \<Longrightarrow> reserved_kept pj x pj'"
  by (simp add: reserved_kept_def)

lemma other_same:
  assumes "pj_projections pj' = pj_projections pj" "pj_handoffs pj' = pj_handoffs pj" "pj_reservations pj' = pj_reservations pj"
    "fd_pendings (pj_files pj') = fd_pendings (pj_files pj)"
  shows "pj_change pj pj'"
  using assms reserved_kept_same by (intro pj_change.other) auto

lemma attach_all_result:
  assumes "attach_all now u post i pj hs files = Inr (ids, files')"
  shows "fd_pendings files' = fd_pendings files \<and> (\<forall>x \<in> set ids. reservation_of x pj = Some i)"
  using assms
proof (induction hs arbitrary: u files ids files')
  case (Cons h hs)
  then show ?case
    by (auto split: option.splits if_splits sum.splits prod.splits dest: createAttachment_pendings)
qed simp

lemma projected_post_rows:
  assumes "projected_post now i p pj = Inr (post, pj')"
  shows "pj_projections pj' = pj_projections pj \<and> pj_handoffs pj' = pj_handoffs pj \<and> pj_reservations pj' = pj_reservations pj \<and> pj_files pj' = pj_files pj"
  using assms by (auto simp: projected_post_def insert_projected_post_def split: option.splits sum.splits if_splits)

lemma link_rows:
  assumes "createPiMessageLink now i a b post sm role meta pj = Inr (l, pj')"
  shows "pj_projections pj' = pj_projections pj \<and> pj_handoffs pj' = pj_handoffs pj \<and> pj_reservations pj' = pj_reservations pj \<and> pj_files pj' = pj_files pj"
  using assms by (auto simp: createPiMessageLink_def Let_def split: option.splits if_splits)

lemma file_view_pendings [simp]: "fd_pendings (file_view pj) = fd_pendings (pj_files pj)"
  by (simp add: file_view_def)

lemma publish_step:
  assumes pub: "publish now u p pj = Inr pj'" and p: "p \<in> set (pj_projections pj)" "ap_status p \<noteq> Pj_projected" "\<not> earlierIncomplete p pj"
    and all: "\<And>h. h \<in> set (pj_handoffs pj) \<Longrightarrow> ho_projection h = ap_id p \<Longrightarrow> ho_status h = Ho_linked"
  shows "pj_change pj pj'"
proof -
  obtain post pj1 ids files l pj3 where 1: "projected_post now (u 0) p pj = Inr (post, pj1)"
    and 2: "attach_all now (uuid_shift 2 u) post (ap_id p) pj1 (listAttachmentHandoffsForProjection (ap_id p) pj1) (file_view pj1) = Inr (ids, files)"
    and 3: "createPiMessageLink now (u 1) (ap_pi_session p) (ap_pi_message p) (Some post) (ap_session_message p) (Some ''assistant'')
      (pl_metadata (ap_payload p)) (pj1\<lparr>pj_files := files\<lparr>fd_pendings := sql_delete (\<lambda>q. pa_id q \<in> set ids) (fd_pendings files)\<rparr>\<rparr>) = Inr (l, pj3)"
    and 4: "pj' = update_projection (ap_id p) (\<lambda>q. q\<lparr>ap_post := Some post, ap_status := Pj_projected, ap_error := None,
                 ap_completion_state := (if ap_completion q = None then Completion_none else Completion_pending),
                 ap_completion_token := None, ap_updated_at := now\<rparr>) pj3"
    using pub unfolding publish_def Let_def by (auto split: sum.splits prod.splits)
  note rows = projected_post_rows [OF 1] link_rows [OF 3]
  have pend: "fd_pendings (pj_files pj3) = sql_delete (\<lambda>q. pa_id q \<in> set ids) (fd_pendings (pj_files pj))"
    using attach_all_result [OF 2] rows by simp
  have res: "reservation_of x pj = Some (ap_id p)" if "x \<in> set ids" for x
    using attach_all_result [OF 2] that reservation_of_cong [of pj1 pj x] rows by simp
  show ?thesis
  proof (rule pj_change.publish [OF p all])
    show "pj_projections pj' = sql_update (\<lambda>x. ap_id x = ap_id p) (\<lambda>q. q\<lparr>ap_post := Some post, ap_status := Pj_projected, ap_error := None,
                 ap_completion_state := (if ap_completion q = None then Completion_none else Completion_pending),
                 ap_completion_token := None, ap_updated_at := now\<rparr>) (pj_projections pj)"
      using 4 rows by (simp add: update_projection_def)
    show "reserved_kept pj (Some (ap_id p)) pj'" using pend res 4 by (auto simp: reserved_kept_def update_projection_def)
  qed (use 4 rows in \<open>auto simp: update_projection_def same_projection_def\<close>)
qed

lemma finalize_run:
  assumes "finalizeAssistantProjection now u i pj = Inr (r, pj')"
  shows "pj_change\<^sup>*\<^sup>* pj pj'"
proof (cases "pj' = pj")
  case False
  then obtain p where p: "getAssistantProjectionById i pj = Some p" "ap_status p \<noteq> Pj_projected" "\<not> earlierIncomplete p pj"
    "sql_count (\<lambda>h. ho_projection h = i \<and> ho_status h \<noteq> Ho_linked) (pj_handoffs pj) = 0" "publish now u p pj = Inr pj'"
    using assms by (auto simp: finalizeAssistantProjection_def split: option.splits if_splits sum.splits)
  have "p \<in> set (pj_projections pj)" "ap_id p = i" using p(1) by (auto simp: getAssistantProjectionById_def dest: sql_get_SomeD)
  then have "pj_change pj pj'" using publish_step [OF p(5) _ p(2,3)] p(4) by (auto simp: sql_count_0_iff)
  then show ?thesis by (rule r_into_rtranclp [of pj_change])
qed simp

section \<open>Beginning\<close>

lemma insert_handoffs_append:
  assumes "\<forall>h \<in> set t. ho_projection h \<noteq> i \<or> ho_status h = Ho_pending"
  shows "\<exists>hs. insert_handoffs now u i inputs t = t @ hs \<and> (\<forall>h \<in> set hs. ho_projection h = i \<and> ho_status h = Ho_pending)
    \<and> (unique_key ho_id t \<longrightarrow> unique_key ho_id (t @ hs))"
  using assms
proof (induction inputs arbitrary: u t)
  case (Cons x xs)
  define row where "row = \<lparr>ho_id = u 0, ho_projection = i, ho_ref_entry = hi_ref_entry x, ho_kind = hi_kind x, ho_source = hi_source x,
       ho_sha256 = hi_sha256 x, ho_size = hi_size x, ho_status = Ho_pending, ho_attempt_count = 0, ho_claim_token = None,
       ho_next_attempt_at = None, ho_error = None, ho_created_at = now, ho_updated_at = now\<rparr>"
  define t1 where "t1 = (if sql_exists (\<lambda>h. ho_id h = u 0 \<or> ho_projection h = i \<and> ho_ref_entry h = hi_ref_entry x) t then t
     else sql_insert row t)"
  obtain h1 where h1: "t1 = t @ h1" "\<forall>h \<in> set h1. ho_projection h = i \<and> ho_status h = Ho_pending" "unique_key ho_id t \<longrightarrow> unique_key ho_id t1"
  proof (cases "sql_exists (\<lambda>h. ho_id h = u 0 \<or> ho_projection h = i \<and> ho_ref_entry h = hi_ref_entry x) t")
    case True
    then show ?thesis using that [of "[]"] by (simp add: t1_def)
  next
    case False
    have f: "ho_id row = u 0" "ho_projection row = i" "ho_status row = Ho_pending" by (simp_all add: row_def)
    have t1: "t1 = t @ [row]" unfolding t1_def using False by (simp only: if_False sql_insert_def)
    have "u 0 \<notin> ho_id ` set t" using False by auto
    then show ?thesis using that [of "[row]", OF t1] f by (auto simp: t1 unique_key_def)
  qed
  have "\<forall>h \<in> set t1. ho_projection h \<noteq> i \<or> ho_status h = Ho_pending" using h1 Cons.prems by auto
  then obtain h2 where h2: "insert_handoffs now (uuid_shift 1 u) i xs t1 = t1 @ h2" "\<forall>h \<in> set h2. ho_projection h = i \<and> ho_status h = Ho_pending"
      "unique_key ho_id t1 \<longrightarrow> unique_key ho_id (t1 @ h2)" using Cons.IH by blast
  have "insert_handoffs now u i (x # xs) t = t @ h1 @ h2" using h2(1) h1(1) unfolding insert_handoffs.simps row_def [symmetric] t1_def [symmetric] by simp
  then show ?case using h1 h2 by (intro exI [of _ "h1 @ h2"]) auto
qed simp

lemma begin_row_run:
  assumes b: "begin_row now u input hs pj = Inr (i, pj')" and ok: "pj_ok pj" and ne: "u 0 \<noteq> []"
  shows "pj_change\<^sup>*\<^sup>* pj pj'"
proof (cases "getAssistantProjection (bi_pi_session input) (bi_pi_message input) pj")
  case (Some e)
  have "pj_change pj (update_projection (ap_id e) (\<lambda>p. p\<lparr>ap_completion := bi_completion input,
         ap_completion_state := (if ap_status p = Pj_projected then Completion_pending else ap_completion_state p), ap_updated_at := now\<rparr>) pj)"
    unfolding update_projection_def by (rule pj_change.annotate) (simp add: same_projection_def)
  then show ?thesis using b Some by (auto simp: begin_row_def)
next
  case None
  let ?link = "getPiMessageLink (bi_pi_session input) (bi_pi_message input) pj"
  obtain m pj1 where m: "ensure_message now (u 1) input (linked_message ?link pj) pj = Inr (m, pj1)"
    and new: "\<forall>p \<in> set (pj_projections pj1). ap_id p \<noteq> u 0"
    and pj': "pj' = pj1\<lparr>pj_projections := sql_insert (new_projection now (u 0) input (hs \<noteq> []) (linked_post ?link (bi_topic input) pj) m) (pj_projections pj1),
                 pj_handoffs := insert_handoffs now (uuid_shift 2 u) (u 0) hs (pj_handoffs pj1)\<rparr>"
    using b None unfolding begin_row_def Let_def by (auto split: sum.splits prod.splits if_splits)
  have same: "pj_projections pj1 = pj_projections pj" "pj_handoffs pj1 = pj_handoffs pj" "pj_reservations pj1 = pj_reservations pj" "pj_files pj1 = pj_files pj"
    using m by (auto simp: ensure_message_def split: option.splits if_splits)
  have ref: "ho_projection h \<noteq> u 0" if "h \<in> set (pj_handoffs pj1)" for h using that ok new same by (force simp: pj_ok_def proj_keys_def)
  obtain rows where rows: "insert_handoffs now (uuid_shift 2 u) (u 0) hs (pj_handoffs pj1) = pj_handoffs pj1 @ rows"
      "\<forall>h \<in> set rows. ho_projection h = u 0 \<and> ho_status h = Ho_pending" "unique_key ho_id (pj_handoffs pj1 @ rows)"
    using insert_handoffs_append [of "pj_handoffs pj1" "u 0" now "uuid_shift 2 u" hs] ref pj_ok_keys(2) [OF ok] same by auto
  have "pj_change pj pj1" using same by (intro other_same) auto
  moreover have "pj_change pj1 pj'" unfolding pj' rows(1)
    using ne new rows(2,3) by (intro pj_change.start) (auto simp: new_projection_def incomplete_def)
  ultimately show ?thesis by (meson rtranclp.simps)
qed

lemma begin_run:
  assumes "beginAssistantProjection now u v input pj = (r, pj')" and ok: "pj_ok pj" and ne: "u 0 \<noteq> []"
  shows "pj_change\<^sup>*\<^sup>* pj pj'"
proof (cases "begin_row now u input (dedupeAttachmentHandoffs (bi_handoffs input)) pj")
  case (Inl e)
  then show ?thesis using assms(1) by (simp add: beginAssistantProjection_def)
next
  case (Inr x)
  obtain i pj1 where x: "x = (i, pj1)" by fastforce
  have "pj_change\<^sup>*\<^sup>* pj pj1" using begin_row_run [OF Inr [unfolded x] ok ne] .
  then show ?thesis using assms(1) Inr x
    by (auto simp: beginAssistantProjection_def split: sum.splits prod.splits if_splits dest!: finalize_run intro: rtranclp_trans)
qed

section \<open>Handoffs\<close>

lemma pj_run_ok: "pj_change\<^sup>*\<^sup>* pj pj' \<Longrightarrow> pj_ok pj \<Longrightarrow> pj_ok pj'"
  by (induction rule: rtranclp_induct) (auto intro: pj_change_ok)

lemma reserve_run:
  assumes "reservePendingAttachment now h q pj = (owner, pj')"
  shows "pj_change\<^sup>*\<^sup>* pj pj' \<and> pj_handoffs pj' = pj_handoffs pj \<and> pj_projections pj' = pj_projections pj \<and> pj_files pj' = pj_files pj
    \<and> (owner \<noteq> [] \<longrightarrow> reservation_of (pa_id q) pj' = Some owner)"
proof -
  have "pj_change\<^sup>*\<^sup>* pj (pj\<lparr>pj_reservations := sql_insert r (pj_reservations pj)\<rparr>)"
    if "\<not> sql_exists (\<lambda>x. rv_pending x = rv_pending r) (pj_reservations pj)" for r
    using that by (intro r_into_rtranclp [of pj_change] pj_change.reserve) auto
  then show ?thesis using assms unfolding reservePendingAttachment_def Let_def
    by (auto simp del: sql_exists_iff split: option.splits if_splits)
qed

lemma anomaly_rows:
  assumes "record_anomaly now i p why message h pj = Inr pj'"
  shows "pj_change pj pj'"
  using assms by (intro other_same) (auto simp: record_anomaly_def Let_def split: option.splits if_splits prod.splits)

lemma failure_change:
  \<comment> \<open>the two updates of a failing handoff\<close>
  assumes h: "h \<in> set (pj_handoffs pj)" "busy (ho_status h)"
    and s: "s = Ho_failed \<and> t = Pj_failed \<or> s = Ho_needs_manual_review \<and> t = Pj_needs_manual_review"
  shows "pj_change pj (set_projection_status now t m (ho_projection h) (set_handoff_status now s next m (ho_id h) pj))"
  unfolding set_projection_status_def set_handoff_status_def update_projection_def update_handoff_def
  using s pj_change.fail [OF h, of "\<lambda>h. h\<lparr>ho_status := s, ho_claim_token := None, ho_next_attempt_at := next, ho_error := Some (js_slice 1000 m), ho_updated_at := now\<rparr>"
      "\<lambda>p. p\<lparr>ap_status := t, ap_error := Some (js_slice 1000 m), ap_updated_at := now\<rparr>"]
  by (auto simp: same_projection_def)

lemma conflict_run:
  assumes "markAttachmentReservationConflict now i h owner pj = Inr (r, pj')" and h: "h \<in> set (pj_handoffs pj)" "busy (ho_status h)"
  shows "pj_change\<^sup>*\<^sup>* pj pj'"
proof (cases "getAssistantProjectionById (ho_projection h) pj")
  case None
  then show ?thesis using assms by (simp add: markAttachmentReservationConflict_def)
next
  case (Some p)
  let ?pj = "set_projection_status now Pj_needs_manual_review (conflict_message owner) (ap_id p)
                   (set_handoff_status now Ho_needs_manual_review None (conflict_message owner) (ho_id h) pj)"
  have id: "ap_id p = ho_projection h" using Some by (auto simp: getAssistantProjectionById_def dest: sql_get_SomeD)
  have "record_anomaly now i p ''attachment-handoff-conflict'' (conflict_message owner) (ho_id h) ?pj = Inr pj'"
    using assms(1) Some by (auto simp: markAttachmentReservationConflict_def Let_def split: sum.splits)
  then have "pj_change ?pj pj'" by (rule anomaly_rows)
  moreover have "pj_change pj ?pj" unfolding id by (rule failure_change [OF h]) simp
  ultimately show ?thesis by (meson rtranclp.simps)
qed

lemma claim_for_run:
  assumes "reserve_for_claim now i h pj = Inr (r, pj')" and h: "h \<in> set (pj_handoffs pj)" "busy (ho_status h)"
  shows "pj_change\<^sup>*\<^sup>* pj pj'"
proof (cases "if ho_kind h = Legacy_artifact then None else pendingAttachmentId (ho_source h)")
  case None
  then show ?thesis using assms(1) unfolding reserve_for_claim_def None by simp
next
  case (Some pid)
  obtain owner pj1 where o: "(case getPendingAttachment pid (pj_files pj) of Some q \<Rightarrow> reservePendingAttachment now h q pj
      | None \<Rightarrow> (case reservation_of pid pj of None \<Rightarrow> [] | Some x \<Rightarrow> x, pj)) = (owner, pj1)" by fastforce
  have run: "pj_change\<^sup>*\<^sup>* pj pj1" "pj_handoffs pj1 = pj_handoffs pj" using o reserve_run by (auto split: option.splits)
  have "(if owner \<noteq> [] \<and> owner \<noteq> ho_projection h then markAttachmentReservationConflict now i h owner pj1 else Inr (Some h, pj1)) = Inr (r, pj')"
    using assms(1) unfolding reserve_for_claim_def Some option.case Let_def o by simp
  then show ?thesis using run conflict_run [of now i h owner pj1 r pj'] h by (auto split: if_splits intro: rtranclp_trans)
qed

lemma sql_update_at: "x \<in> set (sql_update (\<lambda>r. k r = i) g t) \<Longrightarrow> k x = i \<Longrightarrow> \<exists>y \<in> set t. x = g y"
  by (auto simp: set_sql_update)

lemma claim_run:
  assumes "claimAttachmentHandoff now token anomaly i pj = Inr (r, pj')" and ok: "pj_ok pj"
  shows "pj_change\<^sup>*\<^sup>* pj pj'"
proof (cases "sql_count (\<lambda>h. ho_id h = i \<and> claimable now h) (pj_handoffs pj) = 1")
  case False
  then show ?thesis using assms by (simp add: claimAttachmentHandoff_def)
next
  case True
  let ?pj = "update_handoff i (\<lambda>h. h\<lparr>ho_status := Ho_linking, ho_claim_token := Some token, ho_attempt_count := ho_attempt_count h + 1,
                ho_next_attempt_at := None, ho_error := None, ho_updated_at := now\<rparr>) pj"
  obtain h where h: "h \<in> set (pj_handoffs pj)" "ho_id h = i" "claimable now h"
  proof -
    have "sql_count (\<lambda>h. ho_id h = i \<and> claimable now h) (pj_handoffs pj) \<noteq> 0" using True by simp
    then show ?thesis using that unfolding sql_count_0_iff by blast
  qed
  have only: "x = h" if "x \<in> set (pj_handoffs pj)" "ho_id x = i" for x using pj_ok_keys(2) [OF ok] h that by (auto dest: unique_keyD)
  have "pj_change pj ?pj" unfolding update_handoff_def using only h by (intro pj_change.work) (auto simp: claimable_def)
  moreover have "pj_change\<^sup>*\<^sup>* ?pj pj'"
  proof (cases "getHandoff i ?pj")
    case None
    then show ?thesis using assms(1) True by (simp add: claimAttachmentHandoff_def Let_def)
  next
    case (Some k)
    then have "k \<in> set (pj_handoffs ?pj)" "ho_id k = i" by (auto simp: getHandoff_def dest: sql_get_SomeD)
    moreover from this have "ho_status k = Ho_linking"
      using sql_update_at [of k ho_id i _ "pj_handoffs pj"] by (fastforce simp: update_handoff_def)
    then have "busy (ho_status k)" by simp
    ultimately show ?thesis using assms(1) True Some claim_for_run [of now anomaly k ?pj r pj'] by (simp add: claimAttachmentHandoff_def Let_def)
  qed
  ultimately show ?thesis by (meson converse_rtranclp_into_rtranclp)
qed

lemma claimed_handoffD: "claimed_handoff i token pj = Some h \<Longrightarrow> h \<in> set (pj_handoffs pj) \<and> ho_id h = i \<and> busy (ho_status h)"
  by (auto simp: claimed_handoff_def dest!: sql_get_SomeD)

lemma complete_run:
  assumes "completeAttachmentHandoff now anomaly i token q pj = Inr (r, pj')"
    and q: "pa_id q \<in> pa_id ` set (fd_pendings (pj_files pj))" "pa_id q \<noteq> []" and ok: "pj_ok pj"
  shows "pj_change\<^sup>*\<^sup>* pj pj'"
proof (cases "claimed_handoff i token pj")
  case None
  then show ?thesis using assms by (simp add: completeAttachmentHandoff_def)
next
  case (Some h)
  note h = claimed_handoffD [OF Some]
  obtain owner pj1 where o: "reservePendingAttachment now h q pj = (owner, pj1)" by fastforce
  note res = reserve_run [OF o]
  have h1: "h \<in> set (pj_handoffs pj1)" "busy (ho_status h)" using h res by auto
  show ?thesis
  proof (cases "owner = ho_projection h")
    case False
    then show ?thesis using assms(1) Some o res conflict_run [OF _ h1] unfolding completeAttachmentHandoff_def
      by (auto intro: rtranclp_trans)
  next
    case True
    let ?g = "\<lambda>x :: handoff_row. x\<lparr>ho_status := Ho_linked, ho_claim_token := None, ho_next_attempt_at := None, ho_error := None,
                   ho_source := map_set ''pendingAttachmentId'' (Ref_text (pa_id q)) (ho_source h), ho_updated_at := now\<rparr>"
    obtain q' where q': "q' \<in> set (fd_pendings (pj_files pj1))" "pa_id q' = pa_id q" using q(1) res by (metis imageE)
    have pj': "pj' = update_handoff i ?g pj1" using assms(1) Some o True by (simp add: completeAttachmentHandoff_def Let_def)
    have "owner \<in> ap_id ` set (pj_projections pj)" "[] \<notin> ap_id ` set (pj_projections pj)" using True h ok unfolding pj_ok_def proj_keys_def by blast+
    then have "owner \<noteq> []" by metis
    then have "pj_change pj1 (update_handoff (ho_id h) ?g pj1)" unfolding update_handoff_def
      using res True h1 q' q(2) by (intro pj_change.link [OF h1, of ?g q']) (auto simp: map_of_map_set)
    then show ?thesis using pj' h res by (auto intro: rtranclp.rtrancl_into_rtrancl)
  qed
qed

lemma fail_run:
  assumes "failAttachmentHandoff now anomaly i token m retryAt terminal pj = Inr (r, pj')"
  shows "pj_change\<^sup>*\<^sup>* pj pj'"
proof (cases "claimed_handoff i token pj")
  case None
  then show ?thesis using assms by (simp add: failAttachmentHandoff_def)
next
  case (Some h)
  note h = claimed_handoffD [OF Some]
  let ?pj = "set_projection_status now (if terminal then Pj_needs_manual_review else Pj_failed) m (ho_projection h)
             (set_handoff_status now (if terminal then Ho_needs_manual_review else Ho_failed) retryAt m i pj)"
  have "pj_change pj ?pj" using failure_change [of h pj] h by auto
  moreover have "?pj = pj' \<or> pj_change ?pj pj'"
    using assms Some unfolding failAttachmentHandoff_def Let_def by (auto split: option.splits sum.splits if_splits dest: anomaly_rows)
  ultimately show ?thesis by (metis r_into_rtranclp rtranclp.rtrancl_into_rtrancl)
qed

definition staged_ok :: "(js_string + pending_attachment_row) \<Rightarrow> projection_db \<Rightarrow> bool" where
  \<comment> \<open>a staged artifact is a waiting upload of the store\<close>
  "staged_ok staged pj = (case staged of Inl _ \<Rightarrow> True | Inr q \<Rightarrow> q \<in> set (fd_pendings (pj_files pj)) \<and> pa_id q \<noteq> [])"

lemma verified_source_waits:
  assumes "verified_source clock limit read staged h pj = Inr q" and "staged_ok staged pj"
  shows "pa_id q \<in> pa_id ` set (fd_pendings (pj_files pj)) \<and> pa_id q \<noteq> []"
proof -
  obtain x where x: "find_source staged h pj = Inr x" "pa_id q = pa_id x"
    using assms(1) by (auto simp: verified_source_def split: option.splits sum.splits)
  have "x \<in> set (fd_pendings (pj_files pj)) \<and> pa_id x \<noteq> []"
    using x(1) assms(2) by (auto simp: find_source_def staged_ok_def service_pending_id_def service_text_def getPendingAttachment_def
        split: if_splits option.splits dest!: sql_get_SomeD)
  then show ?thesis using x(2) by auto
qed

lemma process_run:
  assumes "process_claim clock limit read anomaly staged shown h pj = Inr pj'" and "staged_ok staged pj" and "pj_ok pj"
  shows "pj_change\<^sup>*\<^sup>* pj pj'"
proof (cases "ho_claim_token h")
  case None
  then show ?thesis using assms(1) by (simp add: process_claim_def)
next
  case (Some token)
  have complete: "pj_change\<^sup>*\<^sup>* pj d" if v: "verified_source clock limit read staged h pj = Inr q"
      and c: "completeAttachmentHandoff clock anomaly (ho_id h) token q pj = Inr (r, d)" for q r d
    using complete_run [OF c _ _ assms(3)] verified_source_waits [OF v assms(2)] by blast
  show ?thesis using assms(1) Some unfolding process_claim_def Let_def
    by (auto split: sum.splits prod.splits dest: fail_run complete)
qed

lemma reclaim_run: "pj_change\<^sup>*\<^sup>* pj (snd (reclaimStaleAttachmentHandoffs now stale excluded pj))"
  unfolding reclaimStaleAttachmentHandoffs_def snd_conv
  by (intro r_into_rtranclp [of pj_change] pj_change.work) (auto simp: stale_handoff_def)

lemma completion_runs:
  "pj_change\<^sup>*\<^sup>* pj (snd (reclaimStaleAssistantProjectionCompletions now stale excluded pj))"
  "pj_change\<^sup>*\<^sup>* pj (snd (claimAssistantProjectionCompletion now token i pj))"
  "pj_change\<^sup>*\<^sup>* pj (snd (completeAssistantProjectionCompletion now i token pj))"
  "pj_change\<^sup>*\<^sup>* pj (releaseAssistantProjectionCompletion now i token pj)"
  unfolding reclaimStaleAssistantProjectionCompletions_def claimAssistantProjectionCompletion_def completeAssistantProjectionCompletion_def
    releaseAssistantProjectionCompletion_def finish_completion_def Let_def snd_conv prod.case
  by (intro r_into_rtranclp [of pj_change] pj_change.annotate; simp add: same_projection_def)+

section \<open>Steps\<close>

inductive projection_step :: "projection_db \<Rightarrow> projection_db \<Rightarrow> bool" where
  start: "beginAssistantProjection now u v input pj = (r, pj') \<Longrightarrow> u 0 \<noteq> [] \<Longrightarrow> projection_step pj pj'"
| finalize: "finalizeAssistantProjection now u i pj = Inr (p, pj') \<Longrightarrow> projection_step pj pj'"
| claim: "claimAttachmentHandoff now token anomaly i pj = Inr (h, pj') \<Longrightarrow> projection_step pj pj'"
| process: "process_claim clock limit read anomaly staged shown h0 pj = Inr pj' \<Longrightarrow> staged_ok staged pj \<Longrightarrow> projection_step pj pj'"
| reclaim: "projection_step pj (snd (reclaimStaleAttachmentHandoffs now stale excluded pj))"
| reclaim_completion: "projection_step pj (snd (reclaimStaleAssistantProjectionCompletions now stale excluded pj))"
| claim_completion: "projection_step pj (snd (claimAssistantProjectionCompletion now token i pj))"
| complete_completion: "projection_step pj (snd (completeAssistantProjectionCompletion now i token pj))"
| release_completion: "projection_step pj (releaseAssistantProjectionCompletion now i token pj)"
| message_link: "createPiMessageLink now i session message post sm role meta pj = Inr (l, pj') \<Longrightarrow> projection_step pj pj'"
| files: "file_step (file_view pj, disk) (fd, disk') \<Longrightarrow> projection_step pj (pj\<lparr>pj_files := fd\<rparr>)"
| forum: "projection_step pj (pj\<lparr>pj_forum := fb, pj_sessions := ss, pj_messages := ms\<rparr>)"
  \<comment> \<open>whatever else happens to topics, posts and sessions\<close>

lemma files_change:
  assumes "file_step (file_view pj, disk) (fd, disk')"
  shows "pj_change pj (pj\<lparr>pj_files := fd\<rparr>)"
proof (rule pj_change.other)
  show "reserved_kept pj None (pj\<lparr>pj_files := fd\<rparr>)" unfolding reserved_kept_def
  proof (intro ballI allI impI)
    fix q i assume q: "q \<in> set (fd_pendings (pj_files pj))" and r: "reservation_of (pa_id q) pj = Some i"
    have "pa_id q \<in> set (fd_reserved (file_view pj))" using r by (force simp: reservation_of_def file_view_def dest!: sql_get_SomeD)
    then show "q \<in> set (fd_pendings (pj_files (pj\<lparr>pj_files := fd\<rparr>)))" using file_step_pendings [OF assms, of q] q by simp
  qed
qed simp_all

lemma projection_step_run: "projection_step pj pj' \<Longrightarrow> pj_ok pj \<Longrightarrow> pj_change\<^sup>*\<^sup>* pj pj'"
proof (induction rule: projection_step.induct)
  case start
  then show ?case by (meson begin_run)
next
  case message_link
  then show ?case using link_rows [OF message_link.hyps] by (intro r_into_rtranclp [of pj_change] other_same) auto
next
  case files
  then show ?case using files_change by blast
next
  case forum
  then show ?case by (intro r_into_rtranclp [of pj_change] other_same) auto
qed (auto intro: finalize_run claim_run process_run reclaim_run completion_runs)

lemma step_ok: "projection_step pj pj' \<Longrightarrow> pj_ok pj \<Longrightarrow> pj_ok pj'"
  using projection_step_run pj_run_ok by blast

lemma steps_run: "projection_step\<^sup>*\<^sup>* pj pj' \<Longrightarrow> pj_ok pj \<Longrightarrow> pj_change\<^sup>*\<^sup>* pj pj'"
proof (induction rule: rtranclp_induct)
  case (step a b)
  then show ?case using projection_step_run [OF step.hyps(2)] pj_run_ok by (meson rtranclp_trans)
qed simp

lemma pj_run_keeps:
  \<comment> \<open>what one change keeps, a run keeps\<close>
  assumes "pj_change\<^sup>*\<^sup>* pj pj'" and "pj_ok pj" and "P pj" and "\<And>a b. pj_change a b \<Longrightarrow> pj_ok a \<Longrightarrow> P a \<Longrightarrow> P b"
  shows "P pj'"
  using assms(1)
proof (induction rule: rtranclp_induct)
  case (step a b)
  then show ?case using assms(4) pj_run_ok [OF step.hyps(1) assms(2)] by blast
qed (rule assms(3))

end
