(* ===== verification/Projection_Safety.thy ===== *)
theory Projection_Safety
  imports Projection_Steps
begin

text \<open>
  The consequences: answers of the agent appear in the order in which they arrived and once each, an
  uploaded file cannot be lost between its handoff and its post, and the one way in which a session can
  be blocked for good.
\<close>

section \<open>Order\<close>

text \<open>
  C16. The answers of an agent session appear in a topic in the order of arrival: once an answer is
  published, an earlier answer of the same session and topic that is not published by then never will be,
  whatever operations follow (it is held back for manual review).
\<close>

theorem publication_in_order:
  assumes "pj_ok pj" and "before e p pj" and "ap_status p = Pj_projected" and "ap_status e \<noteq> Pj_projected"
    and "projection_step\<^sup>*\<^sup>* pj pj'"
  shows "\<not> (\<exists>post. published_as pj' (ap_id e) post)"
proof -
  have "reviewed pj (ap_id e)" using assms(1-4) by (auto simp: pj_ok_def)
  then have r: "reviewed pj' (ap_id e)" using pj_run_keeps [OF steps_run [OF assms(5,1)] assms(1), of "\<lambda>d. reviewed d (ap_id e)"] reviewed_stays by blast
  have "pj_ok pj'" using pj_run_ok [OF steps_run [OF assms(5,1)] assms(1)] .
  then show ?thesis using r by (auto simp: published_as_def pj_ok_def reviewed_def)
qed


section \<open>Custody\<close>

lemma attach_all_custody:
  assumes "\<And>h. h \<in> set hs \<Longrightarrow> \<exists>x. map_of (ho_source h) ''pendingAttachmentId'' = Some (Ref_text x) \<and> x \<noteq> []
      \<and> x \<in> pa_id ` set (fd_pendings files) \<and> reservation_of x pj = Some i"
  shows "attach_all now u post i pj hs files \<noteq> Inl (Lost_custody h) \<and> attach_all now u post i pj hs files \<noteq> Inl (Foreign_custody h)"
  using assms
proof (induction hs arbitrary: u files)
  case (Cons k hs)
  obtain x where x: "map_of (ho_source k) ''pendingAttachmentId'' = Some (Ref_text x)" "x \<noteq> []" "x \<in> pa_id ` set (fd_pendings files)" "reservation_of x pj = Some i"
    using Cons.prems [of k] by auto
  have "sql_get (\<lambda>p. pa_id p = x) (fd_pendings files) \<noteq> None" using x(3) unfolding sql_get_None_iff by auto
  then obtain q where q: "pending_of k files = Some q" "pa_id q = x"
    using x(1,2) by (auto simp: pending_of_def text_of_def getPendingAttachment_def dest: sql_get_SomeD)
  show ?case
  proof (cases "createAttachment now u (projected_attachment post q) files")
    case (Inl e)
    then show ?thesis using q x(4) by simp
  next
    case (Inr r)
    obtain a files' where r: "r = (a, files')" by fastforce
    have "fd_pendings files' = fd_pendings files" using createAttachment_pendings Inr r by blast
    then have IH: "attach_all now (uuid_shift 3 u) post i pj hs files' \<noteq> Inl (Lost_custody h) \<and> attach_all now (uuid_shift 3 u) post i pj hs files' \<noteq> Inl (Foreign_custody h)"
      using Cons.prems by (intro Cons.IH) simp
    then show ?thesis using q x(4) Inr r by (auto split: sum.splits)
  qed
qed simp

lemma ready_in_custody:
  assumes ok: "pj_ok pj" and p: "p \<in> set (pj_projections pj)" "ap_status p \<noteq> Pj_projected"
    and h: "h \<in> set (pj_handoffs pj)" "ho_projection h = ap_id p" "ho_status h = Ho_linked"
  shows "\<exists>x. map_of (ho_source h) ''pendingAttachmentId'' = Some (Ref_text x) \<and> x \<noteq> []
      \<and> x \<in> pa_id ` set (fd_pendings (pj_files pj)) \<and> reservation_of x pj = Some (ap_id p)"
proof -
  have "in_custody pj h" using ok h by (auto simp: pj_ok_def)
  moreover have "\<forall>r \<in> set (pj_projections pj). ap_id r = ho_projection h \<longrightarrow> ap_status r \<noteq> Pj_projected"
    using unique_keyD [OF pj_ok_keys(3) [OF ok] p(1)] p(2) h(2) by metis
  ultimately show ?thesis unfolding in_custody_def h(2) by blast
qed

text \<open>
  C17. Custody is never lost: whatever uploads, deletions, expiries, maintenance passes, claims and
  conflicting projections happen, publishing an answer never finds that the file of a linked handoff is
  gone or belongs to another answer.
\<close>

theorem custody_never_lost:
  assumes "pj_ok pj" and "projection_step\<^sup>*\<^sup>* pj pj'"
  shows "finalizeAssistantProjection now u i pj' \<noteq> Inl (Lost_custody h) \<and> finalizeAssistantProjection now u i pj' \<noteq> Inl (Foreign_custody h)"
proof (rule ccontr)
  assume "\<not> ?thesis"
  then obtain p e where p: "getAssistantProjectionById i pj' = Some p" "ap_status p \<noteq> Pj_projected"
      "sql_count (\<lambda>h. ho_projection h = i \<and> ho_status h \<noteq> Ho_linked) (pj_handoffs pj') = 0" and pub: "publish now u p pj' = Inl e"
      and e: "e = Lost_custody h \<or> e = Foreign_custody h"
    by (auto simp: finalizeAssistantProjection_def split: option.splits if_splits sum.splits)
  have ok: "pj_ok pj'" using pj_run_ok [OF steps_run [OF assms(2,1)] assms(1)] .
  have mem: "p \<in> set (pj_projections pj')" "ap_id p = i" using p(1) by (auto simp: getAssistantProjectionById_def dest: sql_get_SomeD)
  obtain post pj1 where 1: "projected_post now (u 0) p pj' = Inr (post, pj1)"
      and 2: "attach_all now (uuid_shift 2 u) post (ap_id p) pj1 (listAttachmentHandoffsForProjection (ap_id p) pj1) (file_view pj1) = Inl e"
    using pub e unfolding publish_def Let_def by (auto split: sum.splits prod.splits)
  note rows = projected_post_rows [OF 1]
  have linked: "k \<in> set (pj_handoffs pj')" "ho_projection k = ap_id p" "ho_status k = Ho_linked"
    if "k \<in> set (listAttachmentHandoffsForProjection (ap_id p) pj1)" for k
    using that p(3) rows mem(2) by (auto simp: listAttachmentHandoffsForProjection_def sql_count_0_iff)
  have "\<exists>x. map_of (ho_source k) ''pendingAttachmentId'' = Some (Ref_text x) \<and> x \<noteq> []
      \<and> x \<in> pa_id ` set (fd_pendings (file_view pj1)) \<and> reservation_of x pj1 = Some (ap_id p)"
    if k: "k \<in> set (listAttachmentHandoffsForProjection (ap_id p) pj1)" for k
    using ready_in_custody [OF ok mem(1) p(2) linked [OF k]] rows reservation_of_cong [of pj1 pj'] by simp
  from attach_all_custody [of _ "file_view pj1" pj1 "ap_id p", OF this] 2 e show False by blast
qed

section \<open>A session that is blocked\<close>

text \<open>
  C39. An answer of which one file was given up for manual review while another failed for the moment is
  set back to failed; once its other files are linked nothing can move it any more, and every later
  answer of the session in the topic waits for it for good.
\<close>

theorem review_then_retry_blocks:
  assumes "pj_ok pj" and "blocked pj i j" and "projection_step\<^sup>*\<^sup>* pj pj'"
  shows "\<not> (\<exists>post. published_as pj' i post) \<and> \<not> (\<exists>post. published_as pj' j post)"
proof -
  have b: "blocked pj' i j"
    using pj_run_keeps [OF steps_run [OF assms(3,1)] assms(1), of "\<lambda>d. blocked d i j"] blocked_stays assms(2) by blast
  then obtain e p where ep: "before e p pj'" "ap_id e = i" "ap_id p = j" "incomplete (ap_status e)" "ap_status p \<noteq> Pj_projected" by (auto simp: blocked_def)
  have u: "unique_key ap_id (pj_projections pj')" using pj_run_ok [OF steps_run [OF assms(3,1)] assms(1)] by (rule pj_ok_keys(3))
  have "x = e" if "x \<in> set (pj_projections pj')" "ap_id x = i" for x using unique_keyD [OF u] that before_in [OF ep(1)] ep(2) by blast
  moreover have "x = p" if "x \<in> set (pj_projections pj')" "ap_id x = j" for x using unique_keyD [OF u] that before_in [OF ep(1)] ep(3) by blast
  ultimately show ?thesis using ep(4,5) unfolding published_as_def incomplete_def by force
qed

section \<open>Duplicate references\<close>

abbreviation upload_of :: "handoff_input \<Rightarrow> ident option" where
  "upload_of h \<equiv> pendingAttachmentId (hi_source h)"

definition clean :: "ident list \<Rightarrow> string list \<Rightarrow> ident list \<Rightarrow> handoff_input list \<Rightarrow> bool" where
  \<comment> \<open>references without repetition, none of them seen before\<close>
  "clean S R P out \<longleftrightarrow> distinct (map hi_ref_entry out) \<and> (\<forall>k \<in> set out. hi_ref_entry k \<notin> set R)
    \<and> distinct (List.map_filter upload_of out) \<and> (\<forall>k \<in> set out. \<forall>i. upload_of k = Some i \<longrightarrow> i \<notin> set P \<and> (i \<in> set S \<longrightarrow> hi_kind k = Structured_pending))"

lemma clean_Cons_None: "clean S (hi_ref_entry h # R) P out \<Longrightarrow> hi_ref_entry h \<notin> set R \<Longrightarrow> upload_of h = None \<Longrightarrow> clean S R P (h # out)"
  by (auto simp: clean_def List.map_filter_simps)

lemma clean_Cons_Some:
  assumes "clean S (hi_ref_entry h # R) (i # P) out" and "hi_ref_entry h \<notin> set R" and "upload_of h = Some i" and "i \<notin> set P"
    and "i \<in> set S \<longrightarrow> hi_kind h = Structured_pending"
  shows "clean S R P (h # out)"
proof -
  have "i \<notin> set (List.map_filter upload_of out)" using assms(1) by (auto simp: clean_def List.map_filter_def)
  then show ?thesis using assms by (auto simp: clean_def List.map_filter_simps)
qed

lemma dedupe_from_sound: "set (dedupe_from S R P hs) \<subseteq> set hs \<and> clean S R P (dedupe_from S R P hs)"
proof (induction hs arbitrary: R P)
  case (Cons h hs)
  note IH = Cons.IH
  consider "dedupe_from S R P (h # hs) = dedupe_from S R P hs"
    | "upload_of h = None" "hi_ref_entry h \<notin> set R" "dedupe_from S R P (h # hs) = h # dedupe_from S (hi_ref_entry h # R) P hs"
    | i where "upload_of h = Some i" "hi_ref_entry h \<notin> set R" "i \<notin> set P" "i \<in> set S \<longrightarrow> hi_kind h = Structured_pending"
        "dedupe_from S R P (h # hs) = h # dedupe_from S (hi_ref_entry h # R) (i # P) hs"
    by (cases "hi_ref_entry h \<in> set R"; cases "upload_of h"; cases "hi_kind h = Structured_pending"; cases "the (upload_of h) \<in> set S";
        cases "the (upload_of h) \<in> set P") (simp_all add: Let_def)
  then show ?case
  proof cases
    case 1
    then show ?thesis using IH [of R P] by auto
  next
    case 2
    then show ?thesis using IH [of "hi_ref_entry h # R" P] clean_Cons_None by auto
  next
    case (3 i)
    then show ?thesis using IH [of "hi_ref_entry h # R" "i # P"] clean_Cons_Some [OF _ 3(2,1,3,4)] by auto
  qed
qed (simp add: clean_def List.map_filter_simps)

definition covered :: "ident list \<Rightarrow> handoff_input list \<Rightarrow> handoff_input \<Rightarrow> bool" where
  "covered P out h \<longleftrightarrow> (case upload_of h of None \<Rightarrow> h \<in> set out | Some i \<Rightarrow> i \<in> set P \<or> (\<exists>k \<in> set out. upload_of k = Some i))"

lemma dedupe_from_complete:
  assumes "distinct (map hi_ref_entry hs)" and "set (map hi_ref_entry hs) \<inter> set R = {}"
    and "\<forall>i \<in> set S. i \<in> set P \<or> (\<exists>k \<in> set hs. hi_kind k = Structured_pending \<and> upload_of k = Some i)"
  shows "\<forall>h \<in> set hs. covered P (dedupe_from S R P hs) h"
  using assms
proof (induction hs arbitrary: R P)
  case (Cons x xs)
  have x: "hi_ref_entry x \<notin> set R" and d: "distinct (map hi_ref_entry xs)" and R: "set (map hi_ref_entry xs) \<inter> set (hi_ref_entry x # R) = {}" "set (map hi_ref_entry xs) \<inter> set R = {}"
    using Cons.prems by auto
  show ?case
  proof (cases "upload_of x")
    case None
    have "\<forall>i \<in> set S. i \<in> set P \<or> (\<exists>k \<in> set xs. hi_kind k = Structured_pending \<and> upload_of k = Some i)" using Cons.prems(3) None by auto
    from Cons.IH [OF d R(1) this] show ?thesis using x None by (auto simp: covered_def split: option.splits)
  next
    case (Some j)
    show ?thesis
    proof (cases "hi_kind x \<noteq> Structured_pending \<and> j \<in> set S \<or> j \<in> set P")
      case True
      have S: "\<forall>i \<in> set S. i \<in> set P \<or> (\<exists>k \<in> set xs. hi_kind k = Structured_pending \<and> upload_of k = Some i)" using Cons.prems(3) Some True by auto
      have eq: "dedupe_from S R P (x # xs) = dedupe_from S R P xs" using True x Some by auto
      note IH = Cons.IH [OF d R(2) S]
      have "covered P (dedupe_from S R P xs) x"
      proof (cases "j \<in> set P")
        case False
        then obtain k where "k \<in> set xs" "upload_of k = Some j" using True S by auto
        then show ?thesis using IH Some by (auto simp: covered_def)
      qed (simp add: covered_def Some)
      then show ?thesis using IH unfolding eq by simp
    next
      case False
      have "\<forall>i \<in> set S. i \<in> set (j # P) \<or> (\<exists>k \<in> set xs. hi_kind k = Structured_pending \<and> upload_of k = Some i)" using Cons.prems(3) Some by auto
      from Cons.IH [OF d R(1) this] show ?thesis using x Some False by (auto simp: covered_def split: option.splits)
    qed
  qed
qed simp

text \<open>
  Removing duplicate file references of an answer keeps every file: the references kept are some of
  those given, no two with the same entry or the same upload, a structured reference is preferred to a
  marker, and if the entries are distinct every upload named by some reference is named by a kept one,
  and references without an upload are all kept.
\<close>

theorem dedupe_keeps_files:
  "set (dedupeAttachmentHandoffs hs) \<subseteq> set hs \<and> distinct (map hi_ref_entry (dedupeAttachmentHandoffs hs))
    \<and> distinct (List.map_filter upload_of (dedupeAttachmentHandoffs hs))
    \<and> (\<forall>k \<in> set (dedupeAttachmentHandoffs hs). \<forall>i. upload_of k = Some i \<longrightarrow> i \<in> set (structured_ids hs) \<longrightarrow> hi_kind k = Structured_pending)
    \<and> (distinct (map hi_ref_entry hs) \<longrightarrow> (\<forall>h \<in> set hs. covered [] (dedupeAttachmentHandoffs hs) h))"
proof -
  have "\<forall>i \<in> set (structured_ids hs). i \<in> set [] \<or> (\<exists>k \<in> set hs. hi_kind k = Structured_pending \<and> upload_of k = Some i)"
    by (auto simp: structured_ids_def List.map_filter_def)
  then have "distinct (map hi_ref_entry hs) \<longrightarrow> (\<forall>h \<in> set hs. covered [] (dedupeAttachmentHandoffs hs) h)"
    using dedupe_from_complete [of hs "[]" "structured_ids hs" "[]"] by (simp add: dedupeAttachmentHandoffs_def)
  then show ?thesis using dedupe_from_sound [of "structured_ids hs" "[]" "[]" hs] unfolding dedupeAttachmentHandoffs_def clean_def by blast
qed

end
