(* ===== verification/Projection_Files.thy ===== *)
theory Projection_Files
  imports Projection_Safety File_Safety
begin

text \<open>Publishing an answer and the file tables: the files of the answer end up attached to its post.\<close>

definition shows_upload :: "ident \<Rightarrow> pending_attachment_row \<Rightarrow> file_db \<Rightarrow> bool" where
  \<comment> \<open>the post has a live attachment whose bytes are those of the upload\<close>
  "shows_upload post q db \<longleftrightarrow> (\<exists>a \<in> set (fd_attachments db). \<exists>f \<in> set (fd_files db). \<exists>b \<in> set (fd_blobs db).
     am_post a = post \<and> am_deleted_at a = None \<and> am_filename a = pa_filename q \<and> am_file a = Some (uf_id f) \<and> uf_blob f = Some (bl_id b)
     \<and> bl_path b = pa_path q \<and> bl_state b = Blob_ready)"

definition grown :: "file_db \<Rightarrow> file_db \<Rightarrow> bool" where
  "grown db db' \<longleftrightarrow> set (fd_attachments db) \<subseteq> set (fd_attachments db') \<and> set (fd_files db) \<subseteq> set (fd_files db') \<and> set (fd_blobs db) \<subseteq> set (fd_blobs db')"

definition shown_as :: "ident \<Rightarrow> pending_attachment_row \<Rightarrow> file_db \<Rightarrow> bool" where
  \<comment> \<open>the same through the lookup of an attachment's bytes\<close>
  "shown_as post q db \<longleftrightarrow> (\<exists>a b. a \<in> set (fd_attachments db) \<and> am_post a = post \<and> am_deleted_at a = None \<and> am_filename a = pa_filename q
    \<and> getAttachmentBlob (am_id a) db = Some b \<and> bl_path b = pa_path q \<and> bl_state b = Blob_ready)"

lemma shows_upload_grown: "shows_upload post q db \<Longrightarrow> grown db db' \<Longrightarrow> shows_upload post q db'"
  unfolding shows_upload_def grown_def by blast

lemma createAttachment_system:
  assumes r: "createAttachment now u (projected_attachment post q) db = Inr (a, db')" and ok: "file_ok db"
  shows "grown db db' \<and> shows_upload post q db'"
proof -
  let ?b = "ready_blob now (u 1) None (pa_sha256 q) (pa_size q) (pa_path q)" and ?f = "new_file now (u 2) None (u 1) (pa_filename q) (pa_mime q) (pa_size q)"
  have ffa: "file_for_attachment now u (projected_attachment post q) db =
      (case insert_blob ?b db of Inl e \<Rightarrow> Inl e | Inr db1 \<Rightarrow> (case insert_file ?f db1 of Inl e \<Rightarrow> Inl e | Inr db2 \<Rightarrow> Inr (u 2, db2)))"
    by (simp add: file_for_attachment_def projected_attachment_def truthy_id_def cong: sum.case_cong)
  obtain db1 db2 where 1: "insert_blob ?b db = Inr db1" and 2: "insert_file ?f db1 = Inr db2"
    using r unfolding createAttachment_def ffa by (auto split: sum.splits)
  note r2 = r [unfolded createAttachment_def ffa 1 2 sum.case prod.case]
  have db2: "fd_blobs db2 = fd_blobs db @ [?b]" "fd_files db2 = fd_files db @ [?f]" "fd_attachments db2 = fd_attachments db"
    using 1 2 by (auto simp: insert_blob_def insert_file_def sql_insert_def split: if_splits)
  have new: "uf_id g \<noteq> u 2" if "g \<in> set (fd_files db)" for g
    using 1 2 that by (auto simp: insert_blob_def insert_file_def new_file_def split: if_splits)
  have "sql_get (\<lambda>a. live_attachment (u 2) a \<and> am_post a = post) (fd_attachments db2) = None"
    unfolding sql_get_None_iff db2 live_attachment_def using ok new by (auto simp: file_ok_def attached_def)
  then have "db' = db2\<lparr>fd_attachments := sql_insert \<lparr>am_id = u 0, am_file = Some (u 2), am_post = post,
                     am_filename = pa_filename q, am_mime = pa_mime q, am_size = pa_size q, am_path = None,
                     am_sha256 = None, am_created_at = now, am_deleted_at = None, am_delete_reason = None\<rparr> (fd_attachments db2)\<rparr>"
    using r2 by (auto simp: Let_def projected_attachment_def split: if_splits)
  then show ?thesis using db2 by (auto simp: grown_def shows_upload_def new_file_def ready_blob_def)
qed

lemma pending_of_cong: "fd_pendings db' = fd_pendings db \<Longrightarrow> pending_of h db' = pending_of h db"
  by (simp add: pending_of_def getPendingAttachment_def split: option.splits)

lemma attach_all_shows:
  assumes "attach_all now u post i pj hs files = Inr (ids, files')" and "file_ok files"
  shows "grown files files' \<and> file_ok files' \<and> (\<forall>h \<in> set hs. \<exists>q. pending_of h files = Some q \<and> shows_upload post q files')"
  using assms
proof (induction hs arbitrary: u files ids)
  case (Cons h hs)
  obtain q a files1 ids1 where q: "pending_of h files = Some q" and c: "createAttachment now u (projected_attachment post q) files = Inr (a, files1)"
      and rest: "attach_all now (uuid_shift 3 u) post i pj hs files1 = Inr (ids1, files')"
    using Cons.prems(1) by (auto split: option.splits if_splits sum.splits prod.splits)
  note cs = createAttachment_system [OF c Cons.prems(2)]
  have same: "pending_of k files1 = pending_of k files" for k
    using pending_of_cong [OF createAttachment_pendings [OF c]] .
  note IH = Cons.IH [OF rest createAttachment_ok [OF Cons.prems(2) c]]
  have "grown files files'" using cs IH by (auto simp: grown_def)
  then show ?case using IH q cs shows_upload_grown same by auto
qed (simp add: grown_def)

lemma file_ok_view [simp]: "file_ok (file_view pj) = file_ok (pj_files pj)"
  by (simp add: file_view_def file_ok_def file_keys_def held_def attached_def stored_once_def referenced_def kept_def)

lemma file_ok_pendings [simp]: "file_ok (db\<lparr>fd_pendings := t\<rparr>) = file_ok db"
  by (simp add: file_ok_def file_keys_def held_def attached_def stored_once_def referenced_def kept_def)

lemma shows_upload_blob:
  assumes ok: "file_ok db" and s: "shows_upload post q db"
  shows "shown_as post q db"
proof -
  obtain a f b where a: "a \<in> set (fd_attachments db)" "f \<in> set (fd_files db)" "b \<in> set (fd_blobs db)" "am_post a = post" "am_deleted_at a = None"
      "am_filename a = pa_filename q" "am_file a = Some (uf_id f)" "uf_blob f = Some (bl_id b)" "bl_path b = pa_path q" "bl_state b = Blob_ready"
    using s unfolding shows_upload_def by blast
  have k: "unique_key am_id (fd_attachments db)" "unique_key uf_id (fd_files db)" "unique_key bl_id (fd_blobs db)" using ok by (auto simp: file_ok_def file_keys_def)
  have "getAttachmentBlob (am_id a) db = Some b"
    using sql_get_unique [OF k(1) a(1)] file_row_of [OF k(2) a(2)] getBlob_of [OF k(3) a(3)] a(7,8) by (simp add: getAttachmentBlob_def am_blob_def)
  then show ?thesis unfolding shown_as_def using a by blast
qed

lemma publish_shows:
  assumes pub: "publish now u p pj = Inr pj'" and ok: "file_ok (pj_files pj)"
  shows "file_ok (pj_files pj') \<and> (\<exists>post. (\<forall>r. getAssistantProjectionById (ap_id p) pj' = Some r \<longrightarrow> ap_post r = Some post)
    \<and> (\<forall>h \<in> set (listAttachmentHandoffsForProjection (ap_id p) pj). \<exists>q. pending_of h (pj_files pj) = Some q \<and> shows_upload post q (pj_files pj')))"
proof -
  obtain post pj1 ids files l pj3 where 1: "projected_post now (u 0) p pj = Inr (post, pj1)"
    and 2: "attach_all now (uuid_shift 2 u) post (ap_id p) pj1 (listAttachmentHandoffsForProjection (ap_id p) pj1) (file_view pj1) = Inr (ids, files)"
    and 3: "createPiMessageLink now (u 1) (ap_pi_session p) (ap_pi_message p) (Some post) (ap_session_message p) (Some ''assistant'')
      (pl_metadata (ap_payload p)) (pj1\<lparr>pj_files := files\<lparr>fd_pendings := sql_delete (\<lambda>q. pa_id q \<in> set ids) (fd_pendings files)\<rparr>\<rparr>) = Inr (l, pj3)"
    and 4: "pj' = update_projection (ap_id p) (\<lambda>q. q\<lparr>ap_post := Some post, ap_status := Pj_projected, ap_error := None,
                 ap_completion_state := (if ap_completion q = None then Completion_none else Completion_pending),
                 ap_completion_token := None, ap_updated_at := now\<rparr>) pj3"
    using pub unfolding publish_def Let_def by (auto split: sum.splits prod.splits)
  note rows = projected_post_rows [OF 1] link_rows [OF 3]
  have fok: "file_ok (file_view pj1)" using rows ok by simp
  note att = attach_all_shows [OF 2 fok]
  have files: "pj_files pj' = files\<lparr>fd_pendings := sql_delete (\<lambda>q. pa_id q \<in> set ids) (fd_pendings files)\<rparr>" using rows 4 by (simp add: update_projection_def)
  have same: "pending_of h (file_view pj1) = pending_of h (pj_files pj)" for h using pending_of_cong [of "file_view pj1"] rows by simp
  have view: "shows_upload post q (pj_files pj') = shows_upload post q files" for q by (simp add: files shows_upload_def)
  have post: "ap_post r = Some post" if "getAssistantProjectionById (ap_id p) pj' = Some r" for r
  proof -
    have "r \<in> set (pj_projections pj') \<and> ap_id r = ap_id p" using that by (auto simp: getAssistantProjectionById_def dest: sql_get_SomeD)
    then obtain y where "r = y\<lparr>ap_post := Some post, ap_status := Pj_projected, ap_error := None,
                 ap_completion_state := (if ap_completion y = None then Completion_none else Completion_pending),
                 ap_completion_token := None, ap_updated_at := now\<rparr>"
      using sql_update_at [of r ap_id "ap_id p" _ "pj_projections pj3"] unfolding 4 update_projection_def by fastforce
    then show ?thesis by simp
  qed
  have hs: "listAttachmentHandoffsForProjection (ap_id p) pj1 = listAttachmentHandoffsForProjection (ap_id p) pj"
    using rows by (simp add: listAttachmentHandoffsForProjection_def)
  show ?thesis using att post view same files unfolding hs by auto
qed

text \<open>
  C38. An answer is published with its files: when finalizing publishes it, the post has for every handoff
  of the answer a live attachment with the name of the uploaded file whose ready blob is stored where the
  upload was, and the file tables stay sound.
\<close>

theorem published_with_files:
  assumes "file_ok (pj_files pj)" and "getAssistantProjectionById i pj = Some p" and "ap_status p \<noteq> Pj_projected"
    and "finalizeAssistantProjection now u i pj = Inr (Some r, pj')" and "ap_status r = Pj_projected"
  shows "file_ok (pj_files pj') \<and> (\<exists>post. ap_post r = Some post \<and> (\<forall>h \<in> set (listAttachmentHandoffsForProjection i pj).
    \<exists>q. pending_of h (pj_files pj) = Some q \<and> shown_as post q (pj_files pj')))"
proof -
  have pub: "publish now u p pj = Inr pj'" and r: "getAssistantProjectionById i pj' = Some r"
    using assms(2-5) by (auto simp: finalizeAssistantProjection_def split: if_splits sum.splits)
  have id: "ap_id p = i" using assms(2) by (auto simp: getAssistantProjectionById_def dest: sql_get_SomeD)
  note ps = publish_shows [OF pub assms(1), unfolded id]
  then have ok: "file_ok (pj_files pj')" by blast
  show ?thesis using ps r shows_upload_blob [OF ok] by blast
qed

end
