(* ===== verification/Completion_Delivery.thy ===== *)
theory Completion_Delivery
  imports Projection_Steps
begin

text \<open>
  The delivery of completions by \<^verbatim>\<open>attachmentHandoffService.ts\<close>: a loop that scans the pending completions
  from the start after each one it delivers. Whether the callback of a projection succeeds is an argument;
  no other operation runs in between.
\<close>

section \<open>The loop\<close>

datatype delivery = Delivered ident projection_db | Delivery_failed projection_db | Nothing_delivered projection_db

definition deliverCompletion :: "(ident \<Rightarrow> bool) \<Rightarrow> iso_time \<Rightarrow> ident \<Rightarrow> projection_row \<Rightarrow> projection_db \<Rightarrow> delivery" where
  "deliverCompletion succeeds now token p pj =
    (if ap_completion p = None then Nothing_delivered pj
     else case claimAssistantProjectionCompletion now token (ap_id p) pj of
         (None, pj1) \<Rightarrow> Nothing_delivered pj1
       | (Some claimed, pj1) \<Rightarrow>
           if ap_completion_token claimed = None \<or> ap_completion_token claimed = Some [] \<or> ap_completion claimed = None then Nothing_delivered pj1
           else if succeeds (ap_id claimed) then Delivered (ap_id claimed) (snd (completeAssistantProjectionCompletion now (ap_id claimed) token pj1))
           else Delivery_failed (releaseAssistantProjectionCompletion now (ap_id claimed) token pj1))"

fun deliver_first :: "(ident \<Rightarrow> bool) \<Rightarrow> iso_time \<Rightarrow> uuid_stream \<Rightarrow> projection_row list \<Rightarrow> projection_db \<Rightarrow> delivery" where
  "deliver_first succeeds now u [] pj = Nothing_delivered pj"
| "deliver_first succeeds now u (p # ps) pj = (case deliverCompletion succeeds now (u 0) p pj of
     Nothing_delivered pj1 \<Rightarrow> deliver_first succeeds now (uuid_shift 1 u) ps pj1
   | d \<Rightarrow> d)"

abbreviation due :: "projection_row \<Rightarrow> bool" where
  "due p \<equiv> ap_status p = Pj_projected \<and> ap_completion_state p = Completion_pending"

definition due_count :: "projection_db \<Rightarrow> nat" where
  "due_count pj = sql_count due (pj_projections pj)"

section \<open>It ends\<close>

lemma count_split: "sql_count p t = sql_count (\<lambda>r. p r \<and> q r) t + sql_count (\<lambda>r. p r \<and> \<not> q r) t"
  by (induction t) (auto simp: sql_count_def)

lemma count_update_less:
  assumes "\<And>r. hit r \<Longrightarrow> p r \<and> \<not> p (f r)"
  shows "sql_count p (sql_update hit f t) + sql_count hit t = sql_count p t"
  using assms by (induction t) (auto simp: sql_count_def sql_update_def)

lemma claim_due_count:
  assumes "claimAssistantProjectionCompletion now token i pj = (r, pj')"
  shows "due_count pj' \<le> due_count pj" and "r \<noteq> None \<Longrightarrow> due_count pj' < due_count pj"
proof -
  let ?hit = "\<lambda>p. ap_id p = i \<and> may_claim_completion pj p"
  have "due_count pj' + sql_count ?hit (pj_projections pj) = due_count pj"
    using assms unfolding claimAssistantProjectionCompletion_def Let_def due_count_def
    by (auto intro!: count_update_less simp: may_claim_completion_def)
  moreover have "sql_count ?hit (pj_projections pj) = 1" if "r \<noteq> None" using assms that unfolding claimAssistantProjectionCompletion_def Let_def by (auto split: if_splits)
  ultimately show "due_count pj' \<le> due_count pj" and "r \<noteq> None \<Longrightarrow> due_count pj' < due_count pj" by auto
qed

lemma complete_due_count: "due_count (snd (completeAssistantProjectionCompletion now i token pj)) \<le> due_count pj"
  unfolding completeAssistantProjectionCompletion_def finish_completion_def due_count_def Let_def
  by (auto intro!: sql_count_update_le)

lemma deliverCompletion_count:
  "deliverCompletion succeeds now token p pj = Delivered i pj' \<Longrightarrow> due_count pj' < due_count pj"
  "deliverCompletion succeeds now token p pj = Nothing_delivered pj' \<Longrightarrow> due_count pj' \<le> due_count pj"
proof -
  obtain r pj1 where c: "claimAssistantProjectionCompletion now token (ap_id p) pj = (r, pj1)" by fastforce
  note le = claim_due_count [OF c]
  show "deliverCompletion succeeds now token p pj = Delivered i pj' \<Longrightarrow> due_count pj' < due_count pj"
    using le(2) complete_due_count [of now _ token pj1] unfolding deliverCompletion_def c
    by (auto split: if_splits option.splits intro: le_less_trans)
  show "deliverCompletion succeeds now token p pj = Nothing_delivered pj' \<Longrightarrow> due_count pj' \<le> due_count pj"
    using le(1) unfolding deliverCompletion_def c by (auto split: if_splits option.splits)
qed

lemma deliver_first_count: "deliver_first succeeds now u ps pj = Delivered i pj' \<Longrightarrow> due_count pj' < due_count pj"
proof (induction ps arbitrary: u pj)
  case (Cons p ps)
  then show ?case using deliverCompletion_count [of succeeds now "u 0" p pj]
    by (auto split: delivery.splits) (meson less_le_trans)
qed simp

function deliverPendingCompletions :: "(ident \<Rightarrow> bool) \<Rightarrow> iso_time \<Rightarrow> (nat \<Rightarrow> uuid_stream) \<Rightarrow> projection_db \<Rightarrow> bool \<times> ident list \<times> projection_db" where
  \<comment> \<open>whether it ended without an error, the projections delivered in order, and the tables\<close>
  "deliverPendingCompletions succeeds now us pj =
    (case deliver_first succeeds now (us 0) (listPendingAssistantProjectionCompletions pj) pj of
       Nothing_delivered pj' \<Rightarrow> (True, [], pj')
     | Delivery_failed pj' \<Rightarrow> (False, [], pj')
     | Delivered i pj' \<Rightarrow> (case deliverPendingCompletions succeeds now (\<lambda>n. us (Suc n)) pj' of (b, is, pj'') \<Rightarrow> (b, i # is, pj'')))"
  by pat_completeness auto
termination by (relation "measure (\<lambda>(_, _, _, pj). due_count pj)") (auto intro: deliver_first_count)

declare deliverPendingCompletions.simps [simp del]

section \<open>It delivers everything in order\<close>

definition deliverable :: "projection_db \<Rightarrow> bool" where
  \<comment> \<open>no delivery is under way and what is due has a payload\<close>
  "deliverable pj \<longleftrightarrow> unique_key ap_id (pj_projections pj)
     \<and> (\<forall>p \<in> set (pj_projections pj). ap_completion_state p \<noteq> Completion_claimed \<and> (due p \<longrightarrow> ap_completion p \<noteq> None))"

definition finished :: "iso_time \<Rightarrow> completion_state \<Rightarrow> ident \<Rightarrow> projection_db \<Rightarrow> projection_db" where
  "finished now state i pj = pj\<lparr>pj_projections := sql_update (\<lambda>p. ap_id p = i)
     (\<lambda>p. p\<lparr>ap_completion_state := state, ap_completion_token := None, ap_updated_at := now\<rparr>) (pj_projections pj)\<rparr>"

lemma sql_update_cong: "(\<And>x. x \<in> set t \<Longrightarrow> p x = q x) \<Longrightarrow> sql_update p f t = sql_update q f t"
  by (auto simp: sql_update_def)

lemma first_due_earlier:
  assumes "listPendingAssistantProjectionCompletions pj = p # ps" and "unique_key ap_id (pj_projections pj)" and "e \<in> set (earlier_rows (ap_id p) (pj_projections pj))"
  shows "\<not> due e"
proof -
  have f: "filter due (pj_projections pj) = p # ps" using assms(1) by (simp add: listPendingAssistantProjectionCompletions_def sql_select_def)
  then obtain us vs where t: "pj_projections pj = us @ p # vs" "\<forall>x \<in> set us. \<not> due x" by (auto simp: filter_eq_Cons_iff)
  have "ap_id p \<notin> ap_id ` set us" using assms(2) unfolding t by (simp add: unique_key_def)
  then have ne: "ap_id x \<noteq> ap_id p" if "x \<in> set us" for x using that by (metis imageI)
  have "earlier_rows (ap_id p) (pj_projections pj) = us"
    unfolding t earlier_rows_def using takeWhile_append2 [of us "\<lambda>x. ap_id x \<noteq> ap_id p" "p # vs"] ne by simp
  then show ?thesis using assms(3) t(2) by simp
qed

lemma head_delivered:
  assumes ps: "listPendingAssistantProjectionCompletions pj = p # ps" and ok: "deliverable pj" and token: "token \<noteq> []"
  shows "deliverCompletion succeeds now token p pj =
    (if succeeds (ap_id p) then Delivered (ap_id p) (finished now Completion_none (ap_id p) pj) else Delivery_failed (finished now Completion_pending (ap_id p) pj))"
proof -
  let ?t = "pj_projections pj" and ?c = "\<lambda>q :: projection_row. q\<lparr>ap_completion_state := Completion_claimed, ap_completion_token := Some token, ap_updated_at := now\<rparr>"
  have u: "unique_key ap_id ?t" using ok by (simp add: deliverable_def)
  have "p \<in> set (listPendingAssistantProjectionCompletions pj)" using ps by simp
  then have p: "p \<in> set ?t" "due p" by (auto simp: listPendingAssistantProjectionCompletions_def)
  then have pay: "ap_completion p \<noteq> None" using ok by (auto simp: deliverable_def)
  have "\<not> completion_open e" if "e \<in> set (earlier_rows (ap_id p) ?t)" for e
  proof -
    have "e \<in> set ?t" using that by (auto simp: earlier_rows_def dest: set_takeWhileD)
    then have "ap_completion_state e \<noteq> Completion_claimed" using ok by (auto simp: deliverable_def)
    then show ?thesis using first_due_earlier [OF ps u that] by (auto simp: completion_open_def)
  qed
  then have may: "may_claim_completion pj p" using p by (auto simp: may_claim_completion_def)
  have hit: "(ap_id x = ap_id p \<and> may_claim_completion pj x) = (ap_id x = ap_id p)" if "x \<in> set ?t" for x
    using may unique_keyD [OF u that p(1)] by auto
  have one: "sql_count (\<lambda>x. ap_id x = ap_id p \<and> may_claim_completion pj x) ?t = 1"
    using sql_count_key_1_iff [OF u, of "ap_id p" "may_claim_completion pj"] sql_get_unique [OF u p(1)] may by auto
  define pj1 where "pj1 = pj\<lparr>pj_projections := sql_update (\<lambda>x. ap_id x = ap_id p) ?c ?t\<rparr>"
  have upd: "sql_update (\<lambda>x. ap_id x = ap_id p \<and> may_claim_completion pj x) ?c ?t = sql_update (\<lambda>x. ap_id x = ap_id p) ?c ?t"
    using hit by (rule sql_update_cong)
  have "getAssistantProjectionById (ap_id p) pj1 = Some (?c p)"
    unfolding getAssistantProjectionById_def pj1_def using sql_get_unique [OF u p(1)] by (simp add: sql_get_update_key)
  then have claim: "claimAssistantProjectionCompletion now token (ap_id p) pj = (Some (?c p), pj1)"
    unfolding claimAssistantProjectionCompletion_def Let_def one upd pj1_def [symmetric] by simp
  have fin: "snd (finish_completion now state (ap_id p) token pj1) = finished now state (ap_id p) pj" for state
    unfolding finish_completion_def finished_def pj1_def Let_def by (auto simp: sql_update_def)
  then have "snd (completeAssistantProjectionCompletion now (ap_id p) token pj1) = finished now Completion_none (ap_id p) pj"
    unfolding completeAssistantProjectionCompletion_def by (simp add: case_prod_unfold)
  then show ?thesis using pay token fin unfolding deliverCompletion_def claim releaseAssistantProjectionCompletion_def by auto
qed

lemma finished_deliverable:
  "deliverable pj \<Longrightarrow> state \<noteq> Completion_claimed \<Longrightarrow> (\<And>p. p \<in> set (pj_projections pj) \<Longrightarrow> ap_id p = i \<Longrightarrow> due p) \<Longrightarrow> deliverable (finished now state i pj)"
  unfolding deliverable_def finished_def by (auto simp: set_sql_update intro!: unique_key_update)

lemma pending_finished:
  assumes ps: "listPendingAssistantProjectionCompletions pj = p # ps" and u: "unique_key ap_id (pj_projections pj)"
  shows "listPendingAssistantProjectionCompletions (finished now Completion_none (ap_id p) pj) = ps"
    and "map ap_id (listPendingAssistantProjectionCompletions (finished now Completion_pending (ap_id p) pj)) = map ap_id (p # ps)"
proof -
  have f: "filter due (pj_projections pj) = p # ps" using ps by (simp add: listPendingAssistantProjectionCompletions_def sql_select_def)
  then obtain xs ys where t: "pj_projections pj = xs @ p # ys" "\<forall>x \<in> set xs. \<not> due x" "due p" "ps = filter due ys" by (auto simp: filter_eq_Cons_iff)
  let ?g = "\<lambda>state r. if ap_id r = ap_id p then r\<lparr>ap_completion_state := state, ap_completion_token := None, ap_updated_at := now\<rparr> else r"
  have others: "map (?g state) xs = xs" "map (?g state) ys = ys" for state
    using u unfolding t(1) by (auto simp: unique_key_def image_iff intro!: map_idI)
  have rows: "pj_projections (finished now state (ap_id p) pj) = xs @ ?g state p # ys" for state
    unfolding finished_def t(1) sql_update_def by (simp add: others)
  have none: "filter due xs = []" using t(2) by (simp add: filter_empty_conv)
  show "listPendingAssistantProjectionCompletions (finished now Completion_none (ap_id p) pj) = ps"
    unfolding listPendingAssistantProjectionCompletions_def sql_select_def rows using none t(4) by simp
  show "map ap_id (listPendingAssistantProjectionCompletions (finished now Completion_pending (ap_id p) pj)) = map ap_id (p # ps)"
    unfolding listPendingAssistantProjectionCompletions_def sql_select_def rows using none t(3,4) by simp
qed

lemma delivers_all:
  assumes "deliverable pj" and "\<And>n m. us n m \<noteq> []"
  shows "\<exists>pj'. deliverPendingCompletions succeeds now us pj = (list_all (\<lambda>p. succeeds (ap_id p)) (listPendingAssistantProjectionCompletions pj),
      takeWhile succeeds (map ap_id (listPendingAssistantProjectionCompletions pj)), pj')
    \<and> map ap_id (listPendingAssistantProjectionCompletions pj') = dropWhile succeeds (map ap_id (listPendingAssistantProjectionCompletions pj))"
  using assms
proof (induction "listPendingAssistantProjectionCompletions pj" arbitrary: pj us)
  case Nil
  then have "deliverPendingCompletions succeeds now us pj = (True, [], pj)" by (subst deliverPendingCompletions.simps) simp
  then show ?case using Nil by simp
next
  case (Cons p ps)
  note ps = Cons.hyps(2) [symmetric]
  have u: "unique_key ap_id (pj_projections pj)" using Cons.prems(1) by (simp add: deliverable_def)
  have "p \<in> set (listPendingAssistantProjectionCompletions pj)" using ps by simp
  then have p: "p \<in> set (pj_projections pj)" "due p" by (auto simp: listPendingAssistantProjectionCompletions_def)
  note head = head_delivered [OF ps Cons.prems(1) Cons.prems(2) [of 0 0], of succeeds now]
  show ?case
  proof (cases "succeeds (ap_id p)")
    case True
    let ?pj = "finished now Completion_none (ap_id p) pj"
    have dl: "deliverable ?pj" using Cons.prems(1) unique_keyD [OF u _ p(1)] p(2) by (intro finished_deliverable) auto
    have pf: "listPendingAssistantProjectionCompletions ?pj = ps" by (rule pending_finished(1) [OF ps u])
    obtain pj' where IH: "deliverPendingCompletions succeeds now (\<lambda>n. us (Suc n)) ?pj = (list_all (\<lambda>p. succeeds (ap_id p)) ps, takeWhile succeeds (map ap_id ps), pj')"
        "map ap_id (listPendingAssistantProjectionCompletions pj') = dropWhile succeeds (map ap_id ps)"
      using Cons.hyps(1) [OF pf [symmetric] dl, of "\<lambda>n. us (Suc n)"] Cons.prems(2) unfolding pf by blast
    have "deliverPendingCompletions succeeds now us pj = (list_all (\<lambda>p. succeeds (ap_id p)) ps, ap_id p # takeWhile succeeds (map ap_id ps), pj')"
      by (subst deliverPendingCompletions.simps) (simp add: ps head True IH(1))
    then show ?thesis using IH(2) True ps by simp
  next
    case False
    have "deliverPendingCompletions succeeds now us pj = (False, [], finished now Completion_pending (ap_id p) pj)"
      by (subst deliverPendingCompletions.simps) (simp add: ps head False)
    then show ?thesis using False ps pending_finished(2) [OF ps u, of now] by simp
  qed
qed


end
