(* ===== verification/Projection_Demo.thy ===== *)
theory Projection_Demo
  imports Projection_Files Completion_Delivery File_Demo Dispatch_Demo
begin

text \<open>Two answers of one agent session, the first with two files, and the properties of projections applied to them.\<close>

section \<open>A sample session\<close>

definition pj_demo :: projection_db where
  "pj_demo = \<lparr>pj_forum = queue_demo, pj_files = empty_files\<lparr>fd_pendings := [\<lparr>pa_id = ''up1'', pa_topic = ''t'', pa_filename = lit ''a.txt'',
     pa_mime = ''text/plain'', pa_size = 3, pa_path = ''/up/1'', pa_sha256 = Some ''h1'', pa_created_by = None, pa_created_at = 0, pa_expires_at = 900000\<rparr>]\<rparr>,
     pj_sessions = [(''s'', ''t'')], pj_projections = [], pj_handoffs = [], pj_reservations = [], pj_messages = [], pj_links = [], pj_anomalies = []\<rparr>"

definition pj_ids :: "string \<Rightarrow> uuid_stream" where
  "pj_ids prefix n = prefix @ replicate n CHR ''x''"

definition demo_ref :: "string \<Rightarrow> string \<Rightarrow> handoff_input" where
  "demo_ref entry i = \<lparr>hi_ref_entry = entry, hi_kind = Structured_pending, hi_source = [(''pendingAttachmentId'', Ref_text i)], hi_sha256 = None, hi_size = None\<rparr>"

definition demo_answer :: "string \<Rightarrow> handoff_input list \<Rightarrow> begin_input" where
  "demo_answer message hs = \<lparr>bi_pi_session = ''pi'', bi_pi_message = message, bi_utterance = message, bi_topic = ''t'', bi_session = ''s'', bi_body = lit ''hello'',
     bi_author = ''robot'', bi_parent = None, bi_origin = ''null'', bi_metadata = None, bi_completion = None, bi_handoffs = hs\<rparr>"

definition demo_begun :: projection_db where
  \<comment> \<open>the first answer names a file that does not exist and one that does; the second names none\<close>
  "demo_begun = snd (beginAssistantProjection 20 (pj_ids ''b'') (pj_ids ''w'') (demo_answer ''m2'' [])
     (snd (beginAssistantProjection 10 (pj_ids ''a'') (pj_ids ''v'') (demo_answer ''m1'' [demo_ref ''r1'' ''gone'', demo_ref ''r2'' ''up1'']) pj_demo)))"

definition claim_demo :: "iso_time \<Rightarrow> ident \<Rightarrow> ident \<Rightarrow> projection_db \<Rightarrow> projection_db" where
  "claim_demo now token i pj = (case claimAttachmentHandoff now token ''an'' i pj of Inl _ \<Rightarrow> pj | Inr (_, pj') \<Rightarrow> pj')"

definition process_demo :: "int \<Rightarrow> (js_string + read_result) \<Rightarrow> ident \<Rightarrow> projection_db \<Rightarrow> projection_db" where
  "process_demo clock bytes i pj = (case getHandoff i pj of None \<Rightarrow> pj
     | Some h \<Rightarrow> (case process_claim clock 1000 (\<lambda>_. Some bytes) ''an'' (Inl []) (\<lambda>_. []) h pj of Inl _ \<Rightarrow> pj | Inr pj' \<Rightarrow> pj'))"

definition demo_reviewed :: projection_db where
  "demo_reviewed = process_demo 31 (Inl []) ''axx'' (claim_demo 30 ''c1'' ''axx'' demo_begun)"

definition demo_passed :: projection_db where
  \<comment> \<open>the first answer is under review, so the second is published\<close>
  "demo_passed = (case finalizeAssistantProjection 40 (pj_ids ''y'') ''b'' demo_reviewed of Inl _ \<Rightarrow> demo_reviewed | Inr (_, pj) \<Rightarrow> pj)"

definition demo_blocked :: projection_db where
  \<comment> \<open>the second file of the first answer fails once and is linked at the next attempt\<close>
  "demo_blocked = process_demo 60000 (Inr \<lparr>rr_length = 3, rr_hash = ''h1''\<rparr>) ''axxx'' (claim_demo 50000 ''c3'' ''axxx''
     (process_demo 33 (Inl (lit ''busy'')) ''axxx'' (claim_demo 32 ''c2'' ''axxx'' demo_reviewed)))"

lemma pj_demo_ok: "pj_ok pj_demo"
  by (simp add: pj_demo_def pj_ok_def proj_keys_def before_def earlier_rows_def)

lemma claim_demo_step: "projection_step\<^sup>*\<^sup>* pj (claim_demo now token i pj)"
  unfolding claim_demo_def by (auto split: sum.splits intro: projection_step.claim)

lemma process_demo_step: "projection_step\<^sup>*\<^sup>* pj (process_demo clock bytes i pj)"
proof -
  have "projection_step\<^sup>*\<^sup>* pj pj'" if "process_claim clock 1000 (\<lambda>_. Some bytes) ''an'' (Inl []) (\<lambda>_. []) h pj = Inr pj'" for h pj'
    using projection_step.process [OF that] by (simp add: staged_ok_def r_into_rtranclp)
  then show ?thesis unfolding process_demo_def by (auto split: option.splits sum.splits)
qed

lemma finalize_demo_step: "projection_step\<^sup>*\<^sup>* pj (case finalizeAssistantProjection now u i pj of Inl _ \<Rightarrow> pj | Inr (_, pj') \<Rightarrow> pj')"
  by (auto split: sum.splits intro: projection_step.finalize)

lemma begin_demo_step: "u 0 \<noteq> [] \<Longrightarrow> projection_step\<^sup>*\<^sup>* pj (snd (beginAssistantProjection now u v input pj))"
  using projection_step.start [of now u v input pj "fst (beginAssistantProjection now u v input pj)"] by (auto intro: r_into_rtranclp)

lemma demo_reviewed_reached: "projection_step\<^sup>*\<^sup>* pj_demo demo_reviewed"
proof -
  have "pj_ids ''a'' 0 \<noteq> []" "pj_ids ''b'' 0 \<noteq> []" by (simp_all add: pj_ids_def)
  then have "projection_step\<^sup>*\<^sup>* pj_demo demo_begun" unfolding demo_begun_def by (meson begin_demo_step rtranclp_trans)
  then show ?thesis unfolding demo_reviewed_def by (meson claim_demo_step process_demo_step rtranclp_trans)
qed

lemma demo_blocked_reached: "projection_step\<^sup>*\<^sup>* pj_demo demo_blocked"
  unfolding demo_blocked_def using demo_reviewed_reached by (meson claim_demo_step process_demo_step rtranclp_trans)

lemma demo_passed_reached: "projection_step\<^sup>*\<^sup>* pj_demo demo_passed"
  unfolding demo_passed_def using demo_reviewed_reached finalize_demo_step [of demo_reviewed] by (rule rtranclp_trans)

lemma demo_reached_ok: "projection_step\<^sup>*\<^sup>* pj_demo pj \<Longrightarrow> pj_ok pj"
  using pj_run_ok [OF steps_run [OF _ pj_demo_ok] pj_demo_ok] by blast

section \<open>The properties on the sample\<close>

definition first_row :: "projection_db \<Rightarrow> projection_row" where "first_row pj = pj_projections pj ! 0"
definition second_row :: "projection_db \<Rightarrow> projection_row" where "second_row pj = pj_projections pj ! 1"

lemma two_rows_before:
  assumes "map ap_id (pj_projections pj) = [i, j]" and "i \<noteq> j"
    and "ap_pi_session (first_row pj) = ap_pi_session (second_row pj)" and "ap_topic (first_row pj) = ap_topic (second_row pj)"
  shows "before (first_row pj) (second_row pj) pj \<and> ap_id (first_row pj) = i \<and> ap_id (second_row pj) = j"
proof -
  obtain a b where "pj_projections pj = [a, b]" "ap_id a = i" "ap_id b = j" using assms(1) by (auto simp: map_eq_Cons_conv)
  then show ?thesis using assms(2-4) by (simp add: before_def earlier_rows_def first_row_def second_row_def)
qed

lemma demo_passed_cells: "map ap_id (pj_projections demo_passed) = [''a'', ''b'']" "ap_pi_session (first_row demo_passed) = ap_pi_session (second_row demo_passed)"
    "ap_topic (first_row demo_passed) = ap_topic (second_row demo_passed)"
  subgoal by code_simp
  subgoal by code_simp
  subgoal by code_simp
  done

lemma demo_passed_rows: "before (first_row demo_passed) (second_row demo_passed) demo_passed
    \<and> ap_id (first_row demo_passed) = ''a'' \<and> ap_id (second_row demo_passed) = ''b''"
  by (rule two_rows_before [OF demo_passed_cells(1) _ demo_passed_cells(2,3)]) simp

lemma demo_blocked_cells: "map ap_id (pj_projections demo_blocked) = [''a'', ''b'']" "ap_pi_session (first_row demo_blocked) = ap_pi_session (second_row demo_blocked)"
    "ap_topic (first_row demo_blocked) = ap_topic (second_row demo_blocked)"
  subgoal by code_simp
  subgoal by code_simp
  subgoal by code_simp
  done

lemma demo_blocked_rows: "before (first_row demo_blocked) (second_row demo_blocked) demo_blocked
    \<and> ap_id (first_row demo_blocked) = ''a'' \<and> ap_id (second_row demo_blocked) = ''b''"
  by (rule two_rows_before [OF demo_blocked_cells(1) _ demo_blocked_cells(2,3)]) simp

theorem publication_in_order_witness:
  "ap_status (second_row demo_passed) = Pj_projected
    \<and> \<not> (\<exists>post. published_as (process_demo 33 (Inl []) ''axxx'' (claim_demo 32 ''c2'' ''axxx'' demo_passed)) ''a'' post)"
proof -
  have 1: "ap_status (second_row demo_passed) = Pj_projected" "ap_status (first_row demo_passed) \<noteq> Pj_projected" by code_simp+
  have 2: "projection_step\<^sup>*\<^sup>* demo_passed (process_demo 33 (Inl []) ''axxx'' (claim_demo 32 ''c2'' ''axxx'' demo_passed))"
    by (meson claim_demo_step process_demo_step rtranclp_trans)
  show ?thesis using publication_in_order [OF demo_reached_ok [OF demo_passed_reached] _ 1 2] demo_passed_rows 1 by simp
qed


theorem custody_never_lost_witness:
  "finalizeAssistantProjection 70 (pj_ids ''z'') ''a'' demo_blocked \<noteq> Inl (Lost_custody ''axxx'')"
  using custody_never_lost [OF pj_demo_ok demo_blocked_reached] by blast

theorem review_then_retry_blocks_witness:
  "blocked demo_blocked ''a'' ''b''
    \<and> \<not> (\<exists>post. published_as (case finalizeAssistantProjection 70 (pj_ids ''z'') ''b'' demo_blocked of Inl _ \<Rightarrow> demo_blocked | Inr (_, pj) \<Rightarrow> pj) ''b'' post)"
proof -
  have "list_ex (\<lambda>h. ho_projection h = ''a'' \<and> ho_status h = Ho_needs_manual_review) (pj_handoffs demo_blocked)" by code_simp
  moreover have "list_all (\<lambda>h. ho_status h = Ho_linked \<or> ho_status h = Ho_needs_manual_review) (pj_handoffs demo_blocked)" by code_simp
  moreover have "incomplete (ap_status (first_row demo_blocked))" "ap_status (second_row demo_blocked) \<noteq> Pj_projected" by code_simp+
  then have "\<exists>e p. before e p demo_blocked \<and> ap_id e = ''a'' \<and> ap_id p = ''b'' \<and> incomplete (ap_status e) \<and> ap_status p \<noteq> Pj_projected"
    using demo_blocked_rows by blast
  ultimately have b: "blocked demo_blocked ''a'' ''b''" unfolding blocked_def reviewed_def
    by (auto simp: list_ex_iff list_all_iff busy_def)
  then show ?thesis using review_then_retry_blocks [OF demo_reached_ok [OF demo_blocked_reached] b finalize_demo_step] by blast
qed

definition demo_linked :: projection_db where
  "demo_linked = process_demo 31 (Inr \<lparr>rr_length = 3, rr_hash = ''h1''\<rparr>) ''axx'' (claim_demo 30 ''c1'' ''axx''
     (snd (beginAssistantProjection 10 (pj_ids ''a'') (pj_ids ''v'') (demo_answer ''m1'' [demo_ref ''r2'' ''up1'']) pj_demo)))"

definition demo_published :: "projection_row option \<times> projection_db" where
  "demo_published = (case finalizeAssistantProjection 40 (pj_ids ''z'') ''a'' demo_linked of Inl _ \<Rightarrow> (None, demo_linked) | Inr r \<Rightarrow> r)"

theorem published_with_files_witness:
  "\<exists>q. pending_of (pj_handoffs demo_linked ! 0) (pj_files demo_linked) = Some q \<and> shown_as ''z'' q (pj_files (snd demo_published))"
proof -
  let ?p = "pj_projections demo_linked ! 0" and ?r = "the (fst demo_published)"
  have "pj_files demo_linked = empty_files\<lparr>fd_pendings := fd_pendings (pj_files pj_demo)\<rparr>" by code_simp
  then have 1: "file_ok (pj_files demo_linked)" using empty_files_ok by simp
  have 2: "getAssistantProjectionById ''a'' demo_linked = Some ?p" by code_simp
  have 3: "ap_status ?p \<noteq> Pj_projected" by code_simp
  have 4: "finalizeAssistantProjection 40 (pj_ids ''z'') ''a'' demo_linked = Inr (Some ?r, snd demo_published)"
  proof -
    have "\<not> isl (finalizeAssistantProjection 40 (pj_ids ''z'') ''a'' demo_linked)" by code_simp
    moreover have "fst demo_published \<noteq> None" by code_simp
    ultimately show ?thesis unfolding demo_published_def by (auto split: sum.splits)
  qed
  have 5: "ap_status ?r = Pj_projected" "ap_post ?r = Some ''z''" by code_simp+
  have "List.member (listAttachmentHandoffsForProjection ''a'' demo_linked) (pj_handoffs demo_linked ! 0)" by code_simp
  then show ?thesis using published_with_files [OF 1 2 3 4 5(1)] 5(2) by (auto simp: List.member_iff)
qed

definition demo_refs :: "handoff_input list" where
  "demo_refs = [(demo_ref ''m'' ''up1'')\<lparr>hi_kind := Legacy_marker\<rparr>, demo_ref ''r'' ''up1'', demo_ref ''q'' ''up2'']"

theorem dedupe_keeps_files_witness:
  "dedupeAttachmentHandoffs demo_refs = [demo_ref ''r'' ''up1'', demo_ref ''q'' ''up2''] \<and> list_all (covered [] (dedupeAttachmentHandoffs demo_refs)) demo_refs"
proof -
  have "distinct (map hi_ref_entry demo_refs)" by code_simp
  moreover have "dedupeAttachmentHandoffs demo_refs = [demo_ref ''r'' ''up1'', demo_ref ''q'' ''up2'']" by code_simp
  ultimately show ?thesis using dedupe_keeps_files [of demo_refs] by (simp add: list_all_iff)
qed

definition demo_completions :: projection_db where
  "demo_completions = snd (beginAssistantProjection 20 (pj_ids ''b'') (pj_ids ''w'') ((demo_answer ''m2'' [])\<lparr>bi_completion := Some ''c2''\<rparr>)
     (snd (beginAssistantProjection 10 (pj_ids ''a'') (pj_ids ''v'') ((demo_answer ''m1'' [])\<lparr>bi_completion := Some ''c1''\<rparr>) pj_demo)))"


end
