(* ===== verification/Spec2Isabelle.thy ===== *)
theory Spec2Isabelle
  imports Core_Domain Notepad_Domain Template_Laws Notepad_Laws Admission_Laws Compaction_Laws Access_Demo File_Demo Projection_Demo
begin

text \<open>
  \<^bold>\<open>A verification of the forum server of monika.\<close>

  The repository is a forum in which people and coding agents share topics. Its server
  (\<^verbatim>\<open>src/services/forum/packages/server\<close>) keeps everything in one SQLite database behind the class
  \<^verbatim>\<open>ForumStore\<close> (\<^verbatim>\<open>store.ts\<close>); the domain rules live in \<^verbatim>\<open>src/services/forum/packages/core\<close>. A post by a
  person becomes a row of a durable queue; a service drains the queue and calls the agent; a deployment
  may close the server to new robot work; a conversation may be compacted, which fences its topic.
  Beside that path there are the composer's templates and drafts, a private notepad, the files people
  upload, and the access control every request passes.

  \<^bold>\<open>Layout.\<close> Every component has a theory with its rows, tables and operations, and one or more with its
  laws. Operations are functions from the tables to a result and the tables after it; an exception that
  a transaction rolls back is \<open>Inl\<close>; the clock, \<^verbatim>\<open>randomUUID()\<close> and code outside the repository are
  arguments. Handlers that await something are cut at the await, so that other operations may run in
  between. Laws over many operations use a step relation with one rule per operation and hold for every
  sequence of steps.

  \<^item> \<open>Prelude\<close>, \<open>Js_String\<close>: SQL statements on tables as list functions, keys, JavaScript maps; strings of
    16-bit code units with trim, UTF-8 length and code points.
  \<^item> \<open>Core_Domain\<close> (\<^verbatim>\<open>core/domain/dispatchPolicy.ts\<close>, \<^verbatim>\<open>utterances.ts\<close>, \<^verbatim>\<open>userFiles.ts\<close>): when a post is
    dispatched, where an utterance comes from; two external utterances share a queue key exactly if they
    come from the same place.
  \<^item> \<open>Message_Templates\<close> / \<open>Template_Laws\<close> (\<^verbatim>\<open>messageTemplateService.ts\<close>, its SQLite repository),
    \<open>Message_Drafts\<close> / \<open>Draft_Laws\<close>, \<open>Notepad_Domain\<close>, \<open>Notepad\<close> / \<open>Notepad_Laws\<close>: quotas and text limits,
    no lost updates (the locale \<open>revisioned\<close> of \<open>Revisioned\<close>, interpreted for templates and notes),
    reordering, isolation of owners, draft round trip and expiry, publication of a draft, paging and
    literal search.
  \<^item> \<open>Deployment_Admission\<close> / \<open>Admission_Laws\<close> (\<^verbatim>\<open>deploymentAdmissionCoordinator.ts\<close>): while a deployment
    holds the admission no robot work runs, and it reopens when the lease ends.
  \<^item> \<open>Forum_Db\<close>, \<open>Post_Dispatch\<close>, \<open>Dispatch_Service\<close> (\<^verbatim>\<open>store.ts\<close>, \<^verbatim>\<open>postDispatchService.ts\<close>): the queue.
    \<open>Dispatch_Spec\<close> is the abstract machine of a queue, \<open>Dispatch_Laws\<close> shows that every operation of the
    store is a run of it (a simulation) and draws the consequences; \<open>Dispatch_Flow\<close> and \<open>Dispatch_Order\<close>
    follow a claim, a group, the order of a topic and a failed call; \<open>Dispatch_Demo\<close> is a sample queue.
    The locale \<open>status_machine\<close> of \<open>Status_Machine\<close> carries the laws of terminal states and is interpreted
    for dispatches and for compactions.
  \<^item> \<open>Compaction\<close> / \<open>Compaction_Laws\<close>: one compaction per topic, handing the fence to the recovery post.
  \<^item> \<open>Timed_Cache\<close>, \<open>Auth_Store\<close>, \<open>Access_Control\<close> (\<^verbatim>\<open>store.ts\<close>, \<^verbatim>\<open>utils/access.ts\<close>, \<^verbatim>\<open>utils/auth.ts\<close>,
    \<^verbatim>\<open>routes/adminRoutes.ts\<close>): caches, identities, forums, roles, credentials, invites, the gates.
    \<open>Access_Laws\<close> and \<open>Access_Gates\<close> show that only live credentials authenticate, that revocation is
    final, that challenges and invites stay in their bounds and that the gates decide as the tables do
    as long as the caches are trusted (the locale \<open>read_through\<close>, interpreted for identities, forums and
    topics); \<open>Access_Demo\<close> has a sample database and the one handler that breaks the trust.
  \<^item> \<open>User_Files\<close> (\<^verbatim>\<open>store.ts\<close>, \<^verbatim>\<open>services/fileStorageMaintenance.ts\<close>): stored bytes, files, aliases,
    attachments, pending uploads, the deletion queue and the maintenance pass on a directory tree.
    \<open>File_Laws\<close> has the invariant of the tables under every operation, \<open>File_Safety\<close> that reachable files
    keep their bytes on disk and that merging duplicates keeps access, \<open>File_Demo\<close> a sample store and the
    way around the quota.
  \<^item> \<open>Projections\<close> (\<^verbatim>\<open>store.ts\<close>, \<^verbatim>\<open>services/attachmentHandoffService.ts\<close>): how an answer of the agent becomes
    a post with its files. \<open>Projection_Laws\<close> is the abstract machine with its invariant, \<open>Projection_Steps\<close>
    shows that every operation, and every file operation next to it, is a run of the machine,
    \<open>Projection_Safety\<close> that answers appear in order and once, that custody of an upload is never lost, and
    how a session can be blocked for good; \<open>Projection_Files\<close> that a published answer shows its files;
    \<open>Completion_Delivery\<close> that the delivery loop ends and delivers in order; \<open>Projection_Demo\<close> is a sample.

  \<^bold>\<open>Bounds.\<close> Every loop is structural recursion over a list or has a termination proof; no fuel is used.
  Timestamps are integers in milliseconds: ISO texts of the years 0 to 9999 compare like them.
  Identifiers drawn by \<^verbatim>\<open>randomUUID()\<close> are arguments; where the code relies on them being new, the
  primary-key failure is a branch of the model. JSON columns hold the decoded value, with malformed text
  as a value of its own.

  \<^bold>\<open>Not modelled.\<close> The web clients (Vue), the agent daemon and the bridge to it, HTTP routing and the
  request schemas, migrations as a program (their tables and constraints are in the row types), the
  synchronisation with agent session files, full-text search, mail, web hooks, speech, chat, statistics
  and the command line: they are input/output, presentation or calls into code outside the repository.
  Password hashing, SHA-256, randomness and WebAuthn signatures are library code. The readings of the
  clock within one request to the access gates are taken as one instant.
\<close>

end
